(* ===== verification/Prelude.thy ===== *)
theory Prelude
  imports Main "HOL-Library.Char_ord" "HOL-Library.Product_Lexorder" "HOL-Library.Multiset"
begin

text \<open>
  What every component of the model shares: the named collections of facts that
  the component theories fill, the shape of a fallible operation on the program's
  state, and generic facts about lists (keyed sorting, paging by a key, lists of
  rows that are updated in place).
\<close>

section \<open>Collections\<close>

text \<open>
  \<open>model_defs\<close> collects the defining equations that a proof about a whole call
  chain unfolds; \<open>frame\<close> collects the facts "this operation leaves that part of the
  state alone".
\<close>

named_theorems model_defs
named_theorems frame

section \<open>Fallible operations on a state\<close>

text \<open>
  A Go function \<open>func (...) (T, error)\<close> that reads and writes the state \<open>'w\<close> is a
  function from the state to a result and the next state. The result is \<open>Inl\<close> of the
  error value, or \<open>Inr\<close> of the returned value where the Go error is nil.
\<close>

type_synonym ('w, 'e, 'a) fallible = "'w \<Rightarrow> ('e + 'a) \<times> 'w"

fun is_ok :: "'e + 'a \<Rightarrow> bool" where
  "is_ok (Inl _) = False"
| "is_ok (Inr _) = True"

lemma is_ok_iff: "is_ok r \<longleftrightarrow> (\<exists>x. r = Inr x)"
  by (cases r) auto

section \<open>Optional pointers\<close>

text \<open>A nil-able Go pointer \<open>*T\<close> is a \<open>'a option\<close>; \<open>opt_all P\<close> holds for nil.\<close>

fun opt_all :: "('a \<Rightarrow> bool) \<Rightarrow> 'a option \<Rightarrow> bool" where
  "opt_all P None = True"
| "opt_all P (Some x) = P x"

section \<open>Rows ordered by a key, newest first\<close>

text \<open>
  \<open>ORDER BY k DESC\<close> over rows whose keys are distinct is the reverse of the
  ascending sort. Everything paging needs is stated once here.
\<close>

definition sort_desc :: "('a \<Rightarrow> 'k::linorder) \<Rightarrow> 'a list \<Rightarrow> 'a list" where
  "sort_desc k xs = rev (sort_key k xs)"

lemma set_sort_desc [simp]: "set (sort_desc k xs) = set xs"
  by (simp add: sort_desc_def)

lemma length_sort_desc [simp]: "length (sort_desc k xs) = length xs"
  by (simp add: sort_desc_def)

lemma mset_sort_desc [simp]: "mset (sort_desc k xs) = mset xs"
  by (simp add: sort_desc_def)

lemma filter_sort_desc: "filter P (sort_desc k xs) = sort_desc k (filter P xs)"
  by (simp add: sort_desc_def rev_filter filter_sort [symmetric])

lemma distinct_map_filter_key: "distinct (map k xs) \<Longrightarrow> distinct (map k (filter P xs))"
  by (induction xs) auto

lemma sort_desc_strict:
  assumes "distinct (map k xs)"
  shows "sorted_wrt (\<lambda>a b. k b < k a) (sort_desc k xs)"
proof -
  have "sorted (map k (sort_key k xs))" by simp
  moreover have "distinct (map k (sort_key k xs))"
  proof -
    have "mset (map k (sort_key k xs)) = mset (map k xs)" by (simp add: mset_map)
    then show ?thesis using assms by (metis mset_eq_imp_distinct_iff)
  qed
  ultimately have "sorted_wrt (<) (map k (sort_key k xs))"
    by (simp add: strict_sorted_iff)
  then show ?thesis
    by (simp add: sort_desc_def sorted_wrt_rev sorted_wrt_map)
qed

text \<open>
  The step of keyset paging: in a strictly descending list, the rows whose key is
  below the last key of the first \<open>n\<close> rows are exactly the rows after them.
\<close>

lemma filter_below_last_page:
  assumes "sorted_wrt (\<lambda>a b. k b < (k a :: 'k::linorder)) xs"
    and "0 < n" and "n \<le> length xs"
  shows "filter (\<lambda>x. k x < k (last (take n xs))) xs = drop n xs"
  using assms
proof (induction n arbitrary: xs)
  case 0
  then show ?case by simp
next
  case (Suc n)
  then obtain x ys where xs: "xs = x # ys" by (cases xs) auto
  have below: "\<forall>y\<in>set ys. k y < k x" and ys: "sorted_wrt (\<lambda>a b. k b < k a) ys"
    using Suc.prems(1) xs by auto
  show ?case
  proof (cases n)
    case 0
    with xs below show ?thesis by (auto simp: filter_id_conv)
  next
    case (Suc m)
    then have n: "0 < n" "n \<le> length ys" using Suc.prems(3) xs by auto
    then have ne: "take n ys \<noteq> []" by auto
    have lst: "last (take n ys) \<in> set ys"
      using ne by (meson in_set_takeD last_in_set)
    with below have "k (last (take n ys)) < k x" by blast
    moreover have "filter (\<lambda>z. k z < k (last (take n ys))) ys = drop n ys"
      using Suc.IH ys n by blast
    ultimately show ?thesis using xs ne by (auto simp: last_ConsR)
  qed
qed

section \<open>Aggregate functions\<close>

text \<open>SQL's \<open>max\<close> and \<open>min\<close>: NULL over no rows.\<close>

definition max_time :: "int list \<Rightarrow> int option" where
  "max_time ts = (case ts of [] \<Rightarrow> None | t # r \<Rightarrow> Some (fold max r t))"

definition min_time :: "int list \<Rightarrow> int option" where
  "min_time ts = (case ts of [] \<Rightarrow> None | t # r \<Rightarrow> Some (fold min r t))"

lemma max_time_Max: "max_time ts = (if ts = [] then None else Some (Max (set ts)))"
  by (cases ts) (simp_all add: max_time_def Max.set_eq_fold [symmetric])

lemma min_time_Min: "min_time ts = (if ts = [] then None else Some (Min (set ts)))"
  by (cases ts) (simp_all add: min_time_def Min.set_eq_fold [symmetric])

lemma max_time_SomeD:
  assumes "max_time ts = Some t"
  shows "t \<in> set ts" and "\<forall>u\<in>set ts. u \<le> t"
  using assms by (auto simp: max_time_Max split: if_splits)

text \<open>\<open>GROUP BY\<close>: the keys of the rows, each once; the groups partition the rows.\<close>

definition group_keys :: "('r \<Rightarrow> 'k) \<Rightarrow> 'r list \<Rightarrow> 'k list" where
  "group_keys f rows = remdups (map f rows)"

definition group :: "('r \<Rightarrow> 'k) \<Rightarrow> 'k \<Rightarrow> 'r list \<Rightarrow> 'r list" where
  "group f k rows = filter (\<lambda>r. f r = k) rows"

lemma set_group_keys [simp]: "set (group_keys f rows) = f ` set rows"
  by (simp add: group_keys_def)

lemma distinct_group_keys [simp]: "distinct (group_keys f rows)"
  by (simp add: group_keys_def)

lemma group_ne: "group f k rows \<noteq> [] \<longleftrightarrow> k \<in> f ` set rows"
  by (auto simp: group_def filter_empty_conv)

lemma sum_list_group:
  fixes v :: "'r \<Rightarrow> int"
  assumes "distinct ks" and "f ` set rows \<subseteq> set ks"
  shows "(\<Sum>k\<leftarrow>ks. sum_list (map v (filter (\<lambda>r. f r = k) rows))) = sum_list (map v rows)"
  using assms(2)
proof (induction rows)
  case Nil
  then show ?case by (induction ks) auto
next
  case (Cons r rows)
  have split: "sum_list (map v (filter (\<lambda>r. f r = k) (r # rows))) =
      (if k = f r then v r else 0) + sum_list (map v (filter (\<lambda>r. f r = k) rows))" for k
    by simp
  have one: "(\<Sum>k\<leftarrow>ks. if k = f r then v r else 0) = v r"
    using assms(1) Cons.prems
    by (simp add: sum_list_distinct_conv_sum_set sum.delta')
  show ?case
    unfolding split sum_list_addf one using Cons by simp
qed

lemma sum_list_group_length:
  assumes "distinct ks" and "f ` set rows \<subseteq> set ks"
  shows "(\<Sum>k\<leftarrow>ks. int (length (filter (\<lambda>r. f r = k) rows))) = int (length rows)"
  using sum_list_group [OF assms, of "\<lambda>_. 1"] by (simp add: sum_list_triv)

section \<open>Rows updated in place\<close>

text \<open>SQL \<open>UPDATE t SET f WHERE p\<close> over a table kept as a list of rows.\<close>

definition update_rows :: "('r \<Rightarrow> bool) \<Rightarrow> ('r \<Rightarrow> 'r) \<Rightarrow> 'r list \<Rightarrow> 'r list" where
  "update_rows p f rows = map (\<lambda>r. if p r then f r else r) rows"

definition count_rows :: "('r \<Rightarrow> bool) \<Rightarrow> 'r list \<Rightarrow> int" where
  "count_rows p rows = int (length (filter p rows))"

lemma update_rows_map_same:
  "(\<And>r. g (f r) = g r) \<Longrightarrow> map g (update_rows p f rows) = map g rows"
  by (induction rows) (auto simp: update_rows_def)

lemma length_update_rows [simp]: "length (update_rows p f rows) = length rows"
  by (simp add: update_rows_def)

lemma set_update_rows: "set (update_rows p f rows) = (\<lambda>r. if p r then f r else r) ` set rows"
  by (simp add: update_rows_def)

lemma ball_update_rows:
  "(\<forall>r\<in>set (update_rows p f rows). Q r) \<longleftrightarrow> (\<forall>r\<in>set rows. Q (if p r then f r else r))"
  unfolding update_rows_def set_map by blast

lemma filter_update_rows_Nil:
  "(\<And>r. r \<in> set rows \<Longrightarrow> \<not> Q (if p r then f r else r)) \<Longrightarrow> filter Q (update_rows p f rows) = []"
  by (simp add: filter_empty_conv ball_update_rows)

lemma update_rows_none: "(\<And>r. r \<in> set rows \<Longrightarrow> \<not> p r) \<Longrightarrow> update_rows p f rows = rows"
  by (induction rows) (auto simp: update_rows_def)

lemma count_rows_zero: "count_rows p rows = 0 \<longleftrightarrow> (\<forall>r\<in>set rows. \<not> p r)"
  by (auto simp: count_rows_def filter_empty_conv)

text \<open>The single row a unique key selects: the first match, \<open>None\<close> for no row.\<close>

definition select_row :: "('r \<Rightarrow> bool) \<Rightarrow> 'r list \<Rightarrow> 'r option" where
  "select_row p rows = find p rows"

lemma select_row_Some: "select_row p rows = Some r \<Longrightarrow> r \<in> set rows \<and> p r"
  by (auto simp: select_row_def find_Some_iff)

lemma select_row_None: "select_row p rows = None \<longleftrightarrow> (\<forall>r\<in>set rows. \<not> p r)"
  by (auto simp: select_row_def find_None_iff)

lemma select_row_simps [simp]:
  "select_row p [] = None"
  "select_row p (r # rows) = (if p r then Some r else select_row p rows)"
  by (simp_all add: select_row_def)

lemma distinct_key_eq:
  "distinct (map k rows) \<Longrightarrow> r \<in> set rows \<Longrightarrow> s \<in> set rows \<Longrightarrow> k r = k s \<Longrightarrow> r = s"
  by (metis distinct_map inj_onD)

lemma select_row_unique:
  assumes "distinct (map k rows)" and "r \<in> set rows"
  shows "select_row (\<lambda>x. k x = k r) rows = Some r"
proof (cases "select_row (\<lambda>x. k x = k r) rows")
  case None
  with assms(2) show ?thesis by (auto simp: select_row_None)
next
  case (Some s)
  then have "s \<in> set rows" "k s = k r" by (auto dest: select_row_Some)
  with assms have "s = r" by (metis distinct_key_eq)
  with Some show ?thesis by simp
qed

end
