(* ===== verification/GoErrors.thy ===== *)
theory GoErrors
  imports Prelude
begin

text \<open>
  Go's \<open>error\<close> interface as one datatype: the sentinel errors that the packages
  \<open>repository\<close>, \<open>service\<close> and \<open>auth\<close> export, the errors of the PostgreSQL driver that
  the repositories look at, any other error of the world outside (\<open>OtherErr\<close> with its
  text), a run-time panic (\<open>Panic\<close>, an error no handler of the program tells apart from
  others), and \<open>fmt.Errorf\<close> with a \<open>%w\<close> verb (\<open>Wrapped\<close> with the text before and after
  the wrapped error). \<open>errors_Is\<close> is \<open>errors.Is\<close>: it walks the chain of wrapped errors.
\<close>

datatype repository_error =
    R_ErrNotFound
  | R_ErrEmailTaken
  | R_ErrGoogleSubTaken
  | R_ErrTokenAlreadyRotated
  | R_ErrBucketLocked

datatype service_error =
    S_ErrEmailTaken
  | S_ErrInvalidEmail
  | S_ErrInvalidCredentials
  | S_ErrPasswordLoginUnavailable
  | S_ErrInvalidRefreshToken
  | S_ErrInvalidGoogleToken
  | S_ErrGoogleDisabled
  | S_ErrGoogleEmailUnverified
  | S_ErrInvalidOAuthState
  | S_ErrInvalidExchangeCode
  | S_ErrUserNotFound
  | S_ErrInvalidEventType
  | S_ErrInvalidEventPayload
  | S_ErrEventTimeOutOfRange
  | S_ErrInvalidIdempotencyKey
  | S_ErrDuplicateIdempotencyKey
  | S_ErrEmptyBatch
  | S_ErrBatchTooLarge
  | S_ErrInvalidCursor
  | S_ErrInvalidTimeRange
  | S_ErrBucketNotClosed
  | S_ErrStatsRangeTooLarge

datatype auth_error =
    A_ErrPasswordTooShort
  | A_ErrPasswordTooLong
  | A_ErrInvalidToken
  | A_ErrInvalidGoogleToken
  | A_errJWKSThrottled

datatype go_error =
    Repo repository_error
  | Svc service_error
  | Auth auth_error
  | Pgx_ErrNoRows
  | PgError string string
  | OtherErr string
  | Panic string
  | Wrapped string go_error string

abbreviation "Repo_ErrNotFound \<equiv> Repo R_ErrNotFound"
abbreviation "Repo_ErrEmailTaken \<equiv> Repo R_ErrEmailTaken"
abbreviation "Repo_ErrGoogleSubTaken \<equiv> Repo R_ErrGoogleSubTaken"
abbreviation "Repo_ErrTokenAlreadyRotated \<equiv> Repo R_ErrTokenAlreadyRotated"
abbreviation "Repo_ErrBucketLocked \<equiv> Repo R_ErrBucketLocked"

abbreviation "Svc_ErrEmailTaken \<equiv> Svc S_ErrEmailTaken"
abbreviation "Svc_ErrInvalidEmail \<equiv> Svc S_ErrInvalidEmail"
abbreviation "Svc_ErrInvalidCredentials \<equiv> Svc S_ErrInvalidCredentials"
abbreviation "Svc_ErrPasswordLoginUnavailable \<equiv> Svc S_ErrPasswordLoginUnavailable"
abbreviation "Svc_ErrInvalidRefreshToken \<equiv> Svc S_ErrInvalidRefreshToken"
abbreviation "Svc_ErrInvalidGoogleToken \<equiv> Svc S_ErrInvalidGoogleToken"
abbreviation "Svc_ErrGoogleDisabled \<equiv> Svc S_ErrGoogleDisabled"
abbreviation "Svc_ErrGoogleEmailUnverified \<equiv> Svc S_ErrGoogleEmailUnverified"
abbreviation "Svc_ErrInvalidOAuthState \<equiv> Svc S_ErrInvalidOAuthState"
abbreviation "Svc_ErrInvalidExchangeCode \<equiv> Svc S_ErrInvalidExchangeCode"
abbreviation "Svc_ErrUserNotFound \<equiv> Svc S_ErrUserNotFound"
abbreviation "Svc_ErrInvalidEventType \<equiv> Svc S_ErrInvalidEventType"
abbreviation "Svc_ErrInvalidEventPayload \<equiv> Svc S_ErrInvalidEventPayload"
abbreviation "Svc_ErrEventTimeOutOfRange \<equiv> Svc S_ErrEventTimeOutOfRange"
abbreviation "Svc_ErrInvalidIdempotencyKey \<equiv> Svc S_ErrInvalidIdempotencyKey"
abbreviation "Svc_ErrDuplicateIdempotencyKey \<equiv> Svc S_ErrDuplicateIdempotencyKey"
abbreviation "Svc_ErrEmptyBatch \<equiv> Svc S_ErrEmptyBatch"
abbreviation "Svc_ErrBatchTooLarge \<equiv> Svc S_ErrBatchTooLarge"
abbreviation "Svc_ErrInvalidCursor \<equiv> Svc S_ErrInvalidCursor"
abbreviation "Svc_ErrInvalidTimeRange \<equiv> Svc S_ErrInvalidTimeRange"
abbreviation "Svc_ErrBucketNotClosed \<equiv> Svc S_ErrBucketNotClosed"
abbreviation "Svc_ErrStatsRangeTooLarge \<equiv> Svc S_ErrStatsRangeTooLarge"

abbreviation "Auth_ErrPasswordTooShort \<equiv> Auth A_ErrPasswordTooShort"
abbreviation "Auth_ErrPasswordTooLong \<equiv> Auth A_ErrPasswordTooLong"
abbreviation "Auth_ErrInvalidToken \<equiv> Auth A_ErrInvalidToken"
abbreviation "Auth_ErrInvalidGoogleToken \<equiv> Auth A_ErrInvalidGoogleToken"
abbreviation "Auth_errJWKSThrottled \<equiv> Auth A_errJWKSThrottled"

text \<open>\<open>errors.Is\<close>.\<close>

fun errors_Is :: "go_error \<Rightarrow> go_error \<Rightarrow> bool" where
  "errors_Is (Wrapped pre e post) target =
     (Wrapped pre e post = target \<or> errors_Is e target)"
| "errors_Is e target = (e = target)"

lemma errors_Is_refl [simp]: "errors_Is e e"
  by (cases e) auto

text \<open>The text of an error, as \<open>Error()\<close> returns it.\<close>

primrec repository_error_text :: "repository_error \<Rightarrow> string" where
  "repository_error_text R_ErrNotFound = ''repository: record not found''"
| "repository_error_text R_ErrEmailTaken = ''repository: email is already registered''"
| "repository_error_text R_ErrGoogleSubTaken = ''repository: google account is already linked''"
| "repository_error_text R_ErrTokenAlreadyRotated = ''repository: refresh token has already been used''"
| "repository_error_text R_ErrBucketLocked = ''repository: this bucket is already being aggregated''"

primrec service_error_text :: "service_error \<Rightarrow> string" where
  "service_error_text S_ErrEmailTaken = ''service: email is already registered''"
| "service_error_text S_ErrInvalidEmail = ''service: email is empty or too long''"
| "service_error_text S_ErrInvalidCredentials = ''service: invalid email or password''"
| "service_error_text S_ErrPasswordLoginUnavailable = ''service: password login is not available for this account''"
| "service_error_text S_ErrInvalidRefreshToken = ''service: refresh token is invalid or expired''"
| "service_error_text S_ErrInvalidGoogleToken = ''service: invalid google id-token''"
| "service_error_text S_ErrGoogleDisabled = ''service: google sign-in is not configured''"
| "service_error_text S_ErrGoogleEmailUnverified = ''service: google has not verified this email''"
| "service_error_text S_ErrInvalidOAuthState = ''service: oauth state is invalid or expired''"
| "service_error_text S_ErrInvalidExchangeCode = ''service: exchange code is invalid, expired or already used''"
| "service_error_text S_ErrUserNotFound = ''service: user not found''"
| "service_error_text S_ErrInvalidEventType = ''service: event type is empty or too long''"
| "service_error_text S_ErrInvalidEventPayload = ''service: event payload must be a json object within the size limit''"
| "service_error_text S_ErrEventTimeOutOfRange = ''service: occurred_at is too far in the future or in the past''"
| "service_error_text S_ErrInvalidIdempotencyKey = ''service: idempotency key is too long''"
| "service_error_text S_ErrDuplicateIdempotencyKey = ''service: idempotency key is repeated inside the batch''"
| "service_error_text S_ErrEmptyBatch = ''service: batch has no events''"
| "service_error_text S_ErrBatchTooLarge = ''service: batch is too large''"
| "service_error_text S_ErrInvalidCursor = ''service: pagination cursor is invalid''"
| "service_error_text S_ErrInvalidTimeRange = ''service: from must be before to''"
| "service_error_text S_ErrBucketNotClosed = ''service: this bucket has not closed yet''"
| "service_error_text S_ErrStatsRangeTooLarge = ''service: requested statistics window is too large''"

primrec auth_error_text :: "auth_error \<Rightarrow> string" where
  "auth_error_text A_ErrPasswordTooShort = ''auth: password is shorter than 8 bytes''"
| "auth_error_text A_ErrPasswordTooLong = ''auth: password is longer than 72 bytes''"
| "auth_error_text A_ErrInvalidToken = ''auth: invalid access token''"
| "auth_error_text A_ErrInvalidGoogleToken = ''auth: invalid google id-token''"
| "auth_error_text A_errJWKSThrottled = ''auth: jwks refresh is rate limited''"

primrec error_text :: "go_error \<Rightarrow> string" where
  "error_text (Repo e) = repository_error_text e"
| "error_text (Svc e) = service_error_text e"
| "error_text (Auth e) = auth_error_text e"
| "error_text Pgx_ErrNoRows = ''no rows in result set''"
| "error_text (PgError code constraint) = ''SQLSTATE '' @ code @ '' '' @ constraint"
| "error_text (OtherErr s) = s"
| "error_text (Panic s) = s"
| "error_text (Wrapped pre e post) = pre @ error_text e @ post"

text \<open>A result that is an error of the kind \<open>target\<close>.\<close>

fun fails_with :: "go_error + 'a \<Rightarrow> go_error \<Rightarrow> bool" where
  "fails_with (Inl e) target = errors_Is e target"
| "fails_with (Inr _) target = False"

type_synonym ('w, 'a) op = "('w, go_error, 'a) fallible"

end
