(* ===== verification/GoTime.thy ===== *)
theory GoTime
  imports Prelude "HOL-Library.Word"
begin

text \<open>
  Go's \<open>time.Time\<close> and \<open>time.Duration\<close>, and the 64-bit integers they are made of.

  A \<open>time.Time\<close> is its instant: the nanoseconds since the zero time, 1 January of year 1,
  00:00 UTC. So \<open>IsZero\<close> is comparison with 0 and \<open>Truncate\<close>, which Go defines relative
  to the zero time, is a remainder. The location of a time only changes how it is printed;
  \<open>UTC\<close> is the identity on instants. A \<open>time.Duration\<close> is a signed 64-bit count of
  nanoseconds; it is an \<open>int\<close> here and the operations that can leave the 64-bit range
  (\<open>Sub\<close>, \<open>UnixNano\<close>) say what Go does there.
\<close>

type_synonym time = int
type_synonym duration = int

definition max_int64 :: int where "max_int64 = 2 ^ 63 - 1"
definition min_int64 :: int where "min_int64 = - (2 ^ 63)"

definition in_int64 :: "int \<Rightarrow> bool" where
  "in_int64 i \<longleftrightarrow> min_int64 \<le> i \<and> i \<le> max_int64"

text \<open>Two's complement wrap-around of 64-bit arithmetic.\<close>

definition wrap64 :: "int \<Rightarrow> int" where
  "wrap64 i = sint (word_of_int i :: 64 word)"

lemma wrap64_id: "in_int64 i \<Longrightarrow> wrap64 i = i"
  unfolding wrap64_def in_int64_def min_int64_def max_int64_def
  by (simp add: sint_sbintrunc' signed_take_bit_int_eq_self)

definition Nanosecond :: duration where "Nanosecond = 1"
definition Microsecond :: duration where "Microsecond = 1000"
definition Second :: duration where "Second = 1000000000"
definition Minute :: duration where "Minute = 60 * Second"
definition Hour :: duration where "Hour = 60 * Minute"

lemmas duration_units = Nanosecond_def Microsecond_def Second_def Minute_def Hour_def

definition UTC :: "time \<Rightarrow> time" where
  "UTC t = t"

definition IsZero :: "time \<Rightarrow> bool" where
  "IsZero t \<longleftrightarrow> t = 0"

definition After :: "time \<Rightarrow> time \<Rightarrow> bool" where
  "After t u \<longleftrightarrow> t > u"

definition Before :: "time \<Rightarrow> time \<Rightarrow> bool" where
  "Before t u \<longleftrightarrow> t < u"

definition Add :: "time \<Rightarrow> duration \<Rightarrow> time" where
  "Add t d = t + d"

text \<open>\<open>Sub\<close> saturates at the largest and the smallest duration.\<close>

definition Sub :: "time \<Rightarrow> time \<Rightarrow> duration" where
  "Sub t u = max min_int64 (min max_int64 (t - u))"

definition Truncate :: "time \<Rightarrow> duration \<Rightarrow> time" where
  "Truncate t d = (if d \<le> 0 then t else t - t mod d)"

text \<open>The zero time lies 62135596800 seconds before the Unix epoch.\<close>

definition unix_epoch :: time where
  "unix_epoch = 62135596800 * Second"

definition UnixNano :: "time \<Rightarrow> int" where
  "UnixNano t = wrap64 (t - unix_epoch)"

definition time_Unix :: "int \<Rightarrow> int \<Rightarrow> time" where
  "time_Unix sec nsec = unix_epoch + sec * Second + nsec"

lemma UTC_simp [simp]: "UTC t = t"
  by (simp add: UTC_def)

lemmas time_defs = IsZero_def After_def Before_def Add_def Truncate_def

lemma time_Unix_UnixNano:
  "in_int64 (t - unix_epoch) \<Longrightarrow> time_Unix 0 (UnixNano t) = t"
  by (simp add: time_Unix_def UnixNano_def wrap64_id)

lemma Sub_le_iff:
  "in_int64 d \<Longrightarrow> d < max_int64 \<Longrightarrow> Sub t u \<le> d \<longleftrightarrow> t - u \<le> d"
  by (auto simp: Sub_def in_int64_def min_int64_def max_int64_def)

lemma Truncate_le: "Truncate t d \<le> t"
  by (auto simp: Truncate_def)

lemma Truncate_gt: "0 < d \<Longrightarrow> t < Truncate t d + d"
  using pos_mod_bound [of d t] by (simp add: Truncate_def)

lemma Truncate_div: "0 < d \<Longrightarrow> Truncate t d = d * (t div d)"
  by (simp add: Truncate_def minus_mod_eq_mult_div)

lemma Truncate_dvd: "0 < d \<Longrightarrow> d dvd Truncate t d"
  by (simp add: Truncate_div)

lemma Truncate_multiple: "d dvd t \<Longrightarrow> Truncate t d = t"
  by (simp add: Truncate_def)

lemma Truncate_unique:
  assumes "0 < d" and "d dvd s" and "s \<le> t" and "t < s + d"
  shows "Truncate t d = s"
proof -
  obtain q where s: "s = d * q" using assms(2) by blast
  have "t = d * q + (t - s)" using s by simp
  then have "t div d = q"
    by (rule int_div_pos_eq) (use assms in auto)
  with assms(1) s show ?thesis by (simp add: Truncate_div)
qed

lemma Truncate_mono: "t \<le> u \<Longrightarrow> Truncate t d \<le> Truncate u d"
proof (cases "0 < d")
  case True
  assume "t \<le> u"
  with True show ?thesis by (simp add: Truncate_div zdiv_mono1)
qed (simp add: Truncate_def)

end
