(* ===== verification/GoStrings.thy ===== *)
theory GoStrings
  imports Prelude GoTime
begin

text \<open>
  The functions of Go's \<open>strings\<close> and \<open>strconv\<close> that the program calls, on Go strings,
  which are byte sequences: a \<open>string\<close> here is a list of bytes, and \<open>length\<close> is Go's
  \<open>len\<close>. White space is Unicode white space in its UTF-8 encoding, as in Go.
  Lower-casing is exact for ASCII strings; for the others Go consults the Unicode case
  tables, which the model takes as a parameter.
\<close>

section \<open>Prefixes and white space\<close>

text \<open>\<open>strings.CutPrefix s p\<close>: what follows the prefix, or \<open>None\<close> where Go returns false.\<close>

fun CutPrefix :: "string \<Rightarrow> string \<Rightarrow> string option" where
  "CutPrefix s [] = Some s"
| "CutPrefix [] (p # ps) = None"
| "CutPrefix (c # s) (p # ps) = (if c = p then CutPrefix s ps else None)"

definition HasPrefix :: "string \<Rightarrow> string \<Rightarrow> bool" where
  "HasPrefix s p \<longleftrightarrow> CutPrefix s p \<noteq> None"

lemma CutPrefix_Some: "CutPrefix s p = Some r \<longleftrightarrow> s = p @ r"
  by (induction s p rule: CutPrefix.induct) auto

lemma HasPrefix_iff: "HasPrefix s p \<longleftrightarrow> (\<exists>r. s = p @ r)"
proof -
  have "HasPrefix s p \<longleftrightarrow> (\<exists>r. CutPrefix s p = Some r)"
    by (simp add: HasPrefix_def)
  then show ?thesis by (simp add: CutPrefix_Some)
qed

text \<open>The code points with the Unicode property White_Space, each in UTF-8.\<close>

definition white_space :: "string list" where
  "white_space =
     [[CHR 0x09], [CHR 0x0A], [CHR 0x0B],
      [CHR 0x0C], [CHR 0x0D], [CHR 0x20],
      [CHR 0xC2, CHR 0x85], [CHR 0xC2, CHR 0xA0], [CHR 0xE1, CHR 0x9A, CHR 0x80],
      [CHR 0xE2, CHR 0x80, CHR 0x80], [CHR 0xE2, CHR 0x80, CHR 0x81], [CHR 0xE2, CHR 0x80, CHR 0x82],
      [CHR 0xE2, CHR 0x80, CHR 0x83], [CHR 0xE2, CHR 0x80, CHR 0x84], [CHR 0xE2, CHR 0x80, CHR 0x85],
      [CHR 0xE2, CHR 0x80, CHR 0x86], [CHR 0xE2, CHR 0x80, CHR 0x87], [CHR 0xE2, CHR 0x80, CHR 0x88],
      [CHR 0xE2, CHR 0x80, CHR 0x89], [CHR 0xE2, CHR 0x80, CHR 0x8A], [CHR 0xE2, CHR 0x80, CHR 0xA8],
      [CHR 0xE2, CHR 0x80, CHR 0xA9], [CHR 0xE2, CHR 0x80, CHR 0xAF], [CHR 0xE2, CHR 0x81, CHR 0x9F],
      [CHR 0xE3, CHR 0x80, CHR 0x80]]"

fun cut_any :: "string list \<Rightarrow> string \<Rightarrow> string option" where
  "cut_any [] s = None"
| "cut_any (p # ps) s = (case CutPrefix s p of Some r \<Rightarrow> Some r | None \<Rightarrow> cut_any ps s)"

text \<open>Dropping prefixes from \<open>ps\<close> as long as one fits; every step must shorten the string.\<close>

function trim_front :: "string list \<Rightarrow> string \<Rightarrow> string" where
  "trim_front ps s =
     (case cut_any ps s of
        None \<Rightarrow> s
      | Some r \<Rightarrow> if length r < length s then trim_front ps r else s)"
  by pat_completeness auto
termination
  by (relation "measure (\<lambda>(ps, s). length s)") auto

declare trim_front.simps [simp del]

lemma trim_front_code [code]:
  "trim_front ps s =
     (case cut_any ps s of
        None \<Rightarrow> s
      | Some r \<Rightarrow> if length r < length s then trim_front ps r else s)"
  by (rule trim_front.simps)

text \<open>
  \<open>strings.TrimSpace\<close>: white space is removed at the front, then at the back. A white
  space rune at the back is a suffix of the string that spells one of the encodings, so
  trimming at the back is trimming the reversed string with the reversed encodings.
\<close>

definition TrimSpace :: "string \<Rightarrow> string" where
  "TrimSpace s = rev (trim_front (map rev white_space) (rev (trim_front white_space s)))"

lemma trim_front_suffix: "\<exists>d. s = d @ trim_front ps s"
proof (induction ps s rule: trim_front.induct)
  case (1 ps s)
  show ?case
  proof (cases "\<exists>r. cut_any ps s = Some r \<and> length r < length s")
    case True
    then obtain r where r: "cut_any ps s = Some r" "length r < length s" by blast
    have "\<exists>p. s = p @ r" using r(1)
      by (induction ps) (auto split: option.splits simp: CutPrefix_Some)
    moreover have "\<exists>d. r = d @ trim_front ps r" using 1 r by blast
    ultimately have "\<exists>d. s = d @ trim_front ps r" by (metis append_assoc)
    with r show ?thesis by (simp add: trim_front.simps [of ps s])
  next
    case False
    then show ?thesis by (auto simp: trim_front.simps [of ps s] split: option.splits)
  qed
qed

lemma length_trim_front: "length (trim_front ps s) \<le> length s"
  by (metis trim_front_suffix length_append le_add2)

lemma trim_front_idem: "trim_front ps (trim_front ps s) = trim_front ps s"
proof (induction ps s rule: trim_front.induct)
  case (1 ps s)
  show ?case
  proof (cases "\<exists>r. cut_any ps s = Some r \<and> length r < length s")
    case True
    with 1 show ?thesis by (auto simp: trim_front.simps [of ps s])
  next
    case False
    then show ?thesis by (auto simp: trim_front.simps [of ps s] split: option.splits)
  qed
qed

lemma length_TrimSpace: "length (TrimSpace s) \<le> length s"
  unfolding TrimSpace_def
  by (metis length_rev length_trim_front order_trans)

text \<open>\<open>strings.Cut s sep\<close> for a separator of one byte.\<close>

fun Cut :: "string \<Rightarrow> char \<Rightarrow> string \<times> string \<times> bool" where
  "Cut [] sep = ([], [], False)"
| "Cut (c # s) sep =
     (if c = sep then ([], s, True)
      else (case Cut s sep of (a, b, found) \<Rightarrow> (c # a, b, found)))"

lemma Cut_found: "sep \<notin> set a \<Longrightarrow> Cut (a @ sep # b) sep = (a, b, True)"
  by (induction a) auto

lemma Cut_inv: "Cut s sep = (a, b, True) \<Longrightarrow> s = a @ sep # b \<and> sep \<notin> set a"
  by (induction s arbitrary: a b) (auto split: if_splits prod.splits)

text \<open>\<open>strings.Split s sep\<close> for a separator of one byte.\<close>

fun Split :: "string \<Rightarrow> char \<Rightarrow> string list" where
  "Split [] sep = [[]]"
| "Split (c # s) sep =
     (if c = sep then [] # Split s sep
      else (case Split s sep of [] \<Rightarrow> [[c]] | p # ps \<Rightarrow> (c # p) # ps))"

text \<open>\<open>strings.TrimRight s cutset\<close> for a cutset of ASCII characters.\<close>

definition TrimRight :: "string \<Rightarrow> string \<Rightarrow> string" where
  "TrimRight s cutset = rev (dropWhile (\<lambda>c. c \<in> set cutset) (rev s))"

section \<open>Case\<close>

definition ascii_lower :: "char \<Rightarrow> char" where
  "ascii_lower c =
     (let n = (of_char c :: nat) in if 65 \<le> n \<and> n \<le> 90 then char_of (n + 32) else c)"

definition is_ascii :: "string \<Rightarrow> bool" where
  "is_ascii s \<longleftrightarrow> list_all (\<lambda>c. (of_char c :: nat) < 128) s"

text \<open>
  \<open>strings.ToLower\<close>: for an ASCII string byte by byte; otherwise \<open>strings.Map\<close> with
  \<open>unicode.ToLower\<close>, the parameter \<open>uni\<close>.
\<close>

definition ToLower :: "(string \<Rightarrow> string) \<Rightarrow> string \<Rightarrow> string" where
  "ToLower uni s = (if is_ascii s then map ascii_lower s else uni s)"

text \<open>
  \<open>strings.EqualFold s t\<close> where \<open>t\<close> is ASCII and has no \<open>k\<close> and no \<open>s\<close>, the only ASCII
  letters that a non-ASCII letter folds to.
\<close>

definition EqualFold :: "string \<Rightarrow> string \<Rightarrow> bool" where
  "EqualFold s t \<longleftrightarrow> map ascii_lower s = map ascii_lower t"

lemma of_char_less_256: "(of_char c :: nat) < 256"
  by (simp add: of_char_def) 

lemma ascii_lower_idem [simp]: "ascii_lower (ascii_lower c) = ascii_lower c"
  by (auto simp: ascii_lower_def Let_def)

lemma ascii_lower_ascii: "(of_char c :: nat) < 128 \<Longrightarrow> (of_char (ascii_lower c) :: nat) < 128"
  by (auto simp: ascii_lower_def Let_def)

lemma ToLower_ascii_idem: "is_ascii s \<Longrightarrow> ToLower u (ToLower u s) = ToLower u s"
  by (auto simp: ToLower_def is_ascii_def list_all_iff ascii_lower_ascii)

section \<open>Decimal integers\<close>

definition digit_char :: "nat \<Rightarrow> char" where
  "digit_char d = char_of (48 + d)"

fun dec_digits :: "nat \<Rightarrow> string" where
  "dec_digits n =
     (if n < 10 then [digit_char n] else dec_digits (n div 10) @ [digit_char (n mod 10)])"

declare dec_digits.simps [simp del]

lemma dec_digits_code [code]:
  "dec_digits n =
     (if n < 10 then [digit_char n] else dec_digits (n div 10) @ [digit_char (n mod 10)])"
  by (rule dec_digits.simps)

definition FormatInt :: "int \<Rightarrow> string" where
  "FormatInt i = (if i < 0 then CHR ''-'' # dec_digits (nat (- i)) else dec_digits (nat i))"

definition is_digit :: "char \<Rightarrow> bool" where
  "is_digit c \<longleftrightarrow> 48 \<le> (of_char c :: nat) \<and> (of_char c :: nat) \<le> 57"

definition digits_value :: "string \<Rightarrow> nat" where
  "digits_value s = foldl (\<lambda>a c. 10 * a + (of_char c - 48)) 0 s"

text \<open>\<open>strconv.ParseUint\<close> in base 10, without its upper bound.\<close>

definition parse_digits :: "string \<Rightarrow> nat option" where
  "parse_digits s = (if s \<noteq> [] \<and> list_all is_digit s then Some (digits_value s) else None)"

text \<open>
  \<open>strconv.ParseInt (s, 10, 64)\<close>, and \<open>strconv.Atoi\<close>, which is the same where \<open>int\<close> has
  64 bits: an optional sign, then digits, with a value that fits 64 bits. \<open>None\<close> is Go's
  error.
\<close>

definition ParseInt :: "string \<Rightarrow> int option" where
  "ParseInt s =
     (let (neg, body) =
        (case s of
           c # r \<Rightarrow> if c = CHR ''+'' then (False, r)
                    else if c = CHR ''-'' then (True, r) else (False, s)
         | [] \<Rightarrow> (False, s))
      in (case parse_digits body of
            None \<Rightarrow> None
          | Some n \<Rightarrow>
              (let v = (if neg then - int n else int n)
               in if in_int64 v then Some v else None)))"

definition Atoi :: "string \<Rightarrow> int option" where
  "Atoi s = ParseInt s"

lemma of_char_digit_char: "d < 10 \<Longrightarrow> (of_char (digit_char d) :: nat) = 48 + d"
  by (simp add: digit_char_def)

lemma is_digit_digit_char: "d < 10 \<Longrightarrow> is_digit (digit_char d)"
  by (simp add: is_digit_def of_char_digit_char)

lemma digits_value_snoc: "digits_value (s @ [c]) = 10 * digits_value s + (of_char c - 48)"
  by (simp add: digits_value_def)

lemma dec_digits_ne: "dec_digits n \<noteq> []"
  by (subst dec_digits.simps) simp

lemma dec_digits_digits: "list_all is_digit (dec_digits n)"
proof (induction n rule: dec_digits.induct)
  case (1 n)
  then show ?case
    by (cases "n < 10") (simp_all add: dec_digits.simps [of n] is_digit_digit_char)
qed

lemma digits_value_dec_digits: "digits_value (dec_digits n) = n"
proof (induction n rule: dec_digits.induct)
  case (1 n)
  show ?case
  proof (cases "n < 10")
    case True
    then show ?thesis
      by (simp add: dec_digits.simps [of n] digits_value_def of_char_digit_char)
  next
    case False
    with 1 show ?thesis
      by (simp add: dec_digits.simps [of n] digits_value_snoc of_char_digit_char)
  qed
qed

lemma parse_digits_dec_digits: "parse_digits (dec_digits n) = Some n"
  by (simp add: parse_digits_def dec_digits_ne dec_digits_digits digits_value_dec_digits)

lemma dec_digits_head:
  obtains c r where "dec_digits n = c # r" and "is_digit c"
proof (cases "dec_digits n")
  case Nil
  then show thesis using dec_digits_ne by blast
next
  case (Cons c r)
  then show thesis using dec_digits_digits [of n] that by simp
qed

lemma not_sign_digit: "is_digit c \<Longrightarrow> c \<noteq> CHR ''+'' \<and> c \<noteq> CHR ''-'' \<and> c \<noteq> CHR '':''"
  by (auto simp: is_digit_def)

lemma ParseInt_FormatInt:
  assumes "in_int64 i"
  shows "ParseInt (FormatInt i) = Some i"
proof (cases "i < 0")
  case True
  with assms show ?thesis
    by (simp add: FormatInt_def ParseInt_def parse_digits_dec_digits)
next
  case False
  obtain c r where cr: "dec_digits (nat i) = c # r" "is_digit c"
    by (rule dec_digits_head)
  then have "ParseInt (dec_digits (nat i)) =
      (case parse_digits (dec_digits (nat i)) of None \<Rightarrow> None
       | Some n \<Rightarrow> if in_int64 (int n) then Some (int n) else None)"
    using not_sign_digit [OF cr(2)] by (simp add: ParseInt_def Let_def split: option.splits)
  with False assms show ?thesis
    by (simp add: FormatInt_def parse_digits_dec_digits)
qed

lemma ParseInt_in_int64: "ParseInt s = Some i \<Longrightarrow> in_int64 i"
  by (auto simp: ParseInt_def Let_def split: option.splits if_splits list.splits)

lemma FormatInt_no_colon: "CHR '':'' \<notin> set (FormatInt i)"
proof -
  have "CHR '':'' \<notin> set (dec_digits n)" for n
    using dec_digits_digits [of n] not_sign_digit by (auto simp: list_all_iff)
  then show ?thesis by (auto simp: FormatInt_def)
qed

end
