(* ===== verification/Models.thy ===== *)
theory Models
  imports GoErrors GoStrings GoTime
begin

text \<open>
  Package \<open>models\<close>: the data the program stores and passes around, with the functions
  on it. A record field carries the type it belongs to as a prefix, because field names
  are global here; otherwise names and order are the source's.
\<close>

section \<open>Users\<close>

type_synonym Role = string

definition RoleUser :: Role where "RoleUser = ''user''"
definition RoleAdmin :: Role where "RoleAdmin = ''admin''"

definition MaxEmailLen :: nat where "MaxEmailLen = 254"

definition Role_Valid :: "Role \<Rightarrow> bool" where
  "Role_Valid r \<longleftrightarrow> r = RoleUser \<or> r = RoleAdmin"

record User =
  user_ID :: int
  user_Email :: string
  user_PasswordHash :: "string option"
  user_Role :: Role
  user_GoogleSub :: "string option"
  user_Name :: "string option"
  user_EmailVerified :: bool
  user_CreatedAt :: time
  user_UpdatedAt :: time

record UserSummary =
  us_ID :: int
  us_Email :: string
  us_Role :: Role
  us_EventCount :: int
  us_LastEventAt :: "time option"

definition HasPassword :: "User \<Rightarrow> bool" where
  "HasPassword u \<longleftrightarrow> (case user_PasswordHash u of None \<Rightarrow> False | Some h \<Rightarrow> h \<noteq> '''')"

definition HasGoogle :: "User \<Rightarrow> bool" where
  "HasGoogle u \<longleftrightarrow> (case user_GoogleSub u of None \<Rightarrow> False | Some g \<Rightarrow> g \<noteq> '''')"

definition NormalizeEmail :: "(string \<Rightarrow> string) \<Rightarrow> string \<Rightarrow> string" where
  "NormalizeEmail uni email = ToLower uni (TrimSpace email)"

section \<open>Refresh tokens\<close>

type_synonym uuid = "128 word"
type_synonym ip_addr = string

record RefreshToken =
  rt_ID :: uuid
  rt_FamilyID :: uuid
  rt_UserID :: int
  rt_TokenHash :: string
  rt_UserAgent :: "string option"
  rt_IP :: "ip_addr option"
  rt_CreatedAt :: time
  rt_ExpiresAt :: time
  rt_RevokedAt :: "time option"
  rt_ReplacedBy :: "uuid option"

definition Revoked :: "RefreshToken \<Rightarrow> bool" where
  "Revoked t \<longleftrightarrow> rt_RevokedAt t \<noteq> None"

definition Expired :: "RefreshToken \<Rightarrow> time \<Rightarrow> bool" where
  "Expired t now \<longleftrightarrow> \<not> Before now (rt_ExpiresAt t)"

text \<open>\<open>netip.ParseAddr\<close> is the parameter \<open>parse\<close>: \<open>None\<close> is its error.\<close>

definition ParseIP :: "(string \<Rightarrow> ip_addr option) \<Rightarrow> string \<Rightarrow> ip_addr option" where
  "ParseIP parse ip = (case parse ip of None \<Rightarrow> None | Some addr \<Rightarrow> Some addr)"

section \<open>Google sign-in\<close>

record GoogleOAuthState =
  gs_StateHash :: string
  gs_CodeVerifier :: string
  gs_RedirectTo :: "string option"
  gs_CreatedAt :: time
  gs_ExpiresAt :: time

record GoogleOAuthCode =
  gc_CodeHash :: string
  gc_UserID :: int
  gc_CreatedAt :: time
  gc_ExpiresAt :: time
  gc_UsedAt :: "time option"

section \<open>Events\<close>

definition MaxEventTypeLen :: nat where "MaxEventTypeLen = 64"
definition MaxPayloadBytes :: nat where "MaxPayloadBytes = 8 * 1024"

record Event =
  ev_ID :: int
  ev_UserID :: int
  ev_Type :: string
  ev_Payload :: string
  ev_OccurredAt :: time
  ev_CreatedAt :: time
  ev_IdempotencyKey :: "string option"

definition NormalizeEventType :: "(string \<Rightarrow> string) \<Rightarrow> string \<Rightarrow> string" where
  "NormalizeEventType uni t = ToLower uni (TrimSpace t)"

section \<open>Aggregation\<close>

definition BucketDuration :: duration where "BucketDuration = 4 * Hour"

datatype RunStatus = RunSucceeded | RunFailed | RunSkipped

datatype RunTrigger = TriggerSchedule | TriggerManual

fun RunStatus_string :: "RunStatus \<Rightarrow> string" where
  "RunStatus_string RunSucceeded = ''succeeded''"
| "RunStatus_string RunFailed = ''failed''"
| "RunStatus_string RunSkipped = ''skipped''"

fun RunTrigger_string :: "RunTrigger \<Rightarrow> string" where
  "RunTrigger_string TriggerSchedule = ''schedule''"
| "RunTrigger_string TriggerManual = ''manual''"

text \<open>A \<open>map[string]int64\<close> read from a JSON object: its pairs, each key once.\<close>

type_synonym counts = "(string \<times> int) list"

record ActivityBucket =
  ab_UserID :: int
  ab_BucketStart :: time
  ab_EventCount :: int
  ab_TypeCounts :: counts
  ab_FirstEventAt :: time
  ab_LastEventAt :: time
  ab_ComputedAt :: time

record AggregationRun =
  run_ID :: int
  run_BucketStart :: time
  run_BucketEnd :: time
  run_Status :: RunStatus
  run_Trigger :: RunTrigger
  run_UsersTouched :: int
  run_StartedAt :: time
  run_FinishedAt :: "time option"
  run_Error :: "string option"

record DailyActivity =
  da_Day :: time
  da_EventCount :: int
  da_TypeCounts :: counts

definition BucketStart :: "time \<Rightarrow> duration \<Rightarrow> time" where
  "BucketStart t sz = Truncate (UTC t) sz"

text \<open>
  The loop \<open>for b := from; !b.After(to); b = b.Add(size)\<close>. It does not end for a sz
  that is not positive, where it never passes \<open>to\<close>; the model returns no value there.
  Every caller passes a positive size (\<open>config.validate\<close>, \<open>NewAggregation\<close>).
\<close>

partial_function (option) buckets_loop :: "time \<Rightarrow> time \<Rightarrow> duration \<Rightarrow> time list \<Rightarrow> time list option" where
  "buckets_loop b to sz acc =
     (if \<not> After b to then buckets_loop (Add b sz) to sz (acc @ [b]) else Some acc)"

definition BucketsBetween :: "time \<Rightarrow> time \<Rightarrow> duration \<Rightarrow> time list option" where
  "BucketsBetween from to sz =
     buckets_loop (BucketStart from sz) (BucketStart to sz) sz []"

section \<open>Windows\<close>

lemma BucketStart_le: "BucketStart t sz \<le> t"
  by (simp add: BucketStart_def Truncate_le)

lemma BucketStart_gt: "0 < sz \<Longrightarrow> t < BucketStart t sz + sz"
  by (simp add: BucketStart_def Truncate_gt)

lemma BucketStart_dvd: "0 < sz \<Longrightarrow> sz dvd BucketStart t sz"
  by (simp add: BucketStart_def Truncate_dvd)

lemma BucketStart_multiple: "sz dvd t \<Longrightarrow> BucketStart t sz = t"
  by (simp add: BucketStart_def Truncate_multiple)

lemma BucketStart_mono: "t \<le> u \<Longrightarrow> BucketStart t sz \<le> BucketStart u sz"
  by (simp add: BucketStart_def Truncate_mono)

lemma BucketStart_unique:
  "0 < sz \<Longrightarrow> sz dvd s \<Longrightarrow> s \<le> t \<Longrightarrow> t < s + sz \<Longrightarrow> BucketStart t sz = s"
  by (simp add: BucketStart_def Truncate_unique)

text \<open>What the loop returns: the windows from \<open>b\<close> to \<open>to\<close>, one every \<open>sz\<close>.\<close>

fun windows :: "time \<Rightarrow> duration \<Rightarrow> nat \<Rightarrow> time list" where
  "windows b sz 0 = []"
| "windows b sz (Suc n) = b # windows (b + sz) sz n"

definition window_count :: "time \<Rightarrow> time \<Rightarrow> duration \<Rightarrow> nat" where
  "window_count b to sz = nat ((to - b) div sz + 1)"

lemma length_windows [simp]: "length (windows b sz n) = n"
  by (induction n arbitrary: b) auto

lemma windows_nth: "i < n \<Longrightarrow> windows b sz n ! i = b + int i * sz"
proof (induction n arbitrary: b i)
  case 0
  then show ?case by simp
next
  case (Suc n)
  then show ?case by (cases i) (simp_all add: algebra_simps)
qed

lemma windows_set: "t \<in> set (windows b sz n) \<longleftrightarrow> (\<exists>i<n. t = b + int i * sz)"
  by (auto simp: in_set_conv_nth windows_nth)

lemma take_windows: "take m (windows b sz n) = windows b sz (min m n)"
proof (induction n arbitrary: b m)
  case (Suc n)
  then show ?case by (cases m) auto
qed simp

lemma buckets_loop_windows:
  assumes "0 < sz" and "n = window_count b to sz"
  shows "buckets_loop b to sz acc = Some (acc @ windows b sz n)"
  using assms(2)
proof (induction n arbitrary: b acc)
  case 0
  then have "(to - b) div sz + 1 \<le> 0" by (simp add: window_count_def)
  then have "to < b"
    using assms(1) pos_imp_zdiv_neg_iff [of sz "to - b"] by linarith
  then show ?case by (subst buckets_loop.simps) (simp add: After_def)
next
  case (Suc n)
  have "0 \<le> (to - b) div sz"
    using Suc.prems by (simp add: window_count_def)
  then have le: "b \<le> to"
    using assms(1) by (simp add: pos_imp_zdiv_nonneg_iff)
  have "(to - (b + sz)) div sz = (to - b + (- 1) * sz) div sz"
    by (simp add: algebra_simps)
  also have "\<dots> = (to - b) div sz - 1"
    using assms(1) by (subst div_mult_self1) simp_all
  finally have "(to - (b + sz)) div sz = (to - b) div sz - 1" .
  then have "n = window_count (b + sz) to sz"
    using Suc.prems by (simp add: window_count_def)
  then have "buckets_loop (b + sz) to sz (acc @ [b]) =
      Some ((acc @ [b]) @ windows (b + sz) sz n)"
    by (rule Suc.IH)
  with le show ?case
    by (subst buckets_loop.simps) (simp add: After_def Add_def)
qed

lemma BucketsBetween_windows:
  assumes "0 < sz"
  shows "BucketsBetween from to sz = Some (windows (BucketStart from sz) sz
    (window_count (BucketStart from sz) (BucketStart to sz) sz))"
  using buckets_loop_windows [OF assms refl] by (simp add: BucketsBetween_def)

lemma window_count_aligned:
  assumes "0 < sz" and "sz dvd b" and "sz dvd to" and "b \<le> to"
  shows "to = b + (int (window_count b to sz) - 1) * sz"
proof -
  have "sz dvd to - b" using assms by simp
  then have "(to - b) div sz * sz = to - b" by simp
  moreover have "0 \<le> (to - b) div sz"
    using assms(1,4) by (simp only: pos_imp_zdiv_nonneg_iff)
  ultimately show ?thesis by (simp add: window_count_def)
qed

text \<open>\<open>t\<close> is the start of a window of this size.\<close>

definition is_window :: "duration \<Rightarrow> time \<Rightarrow> bool" where
  "is_window sz t \<longleftrightarrow> sz dvd t"

lemma windows_between_set:
  assumes sz: "0 < sz" and b: "sz dvd b" and to: "sz dvd to"
  shows "set (windows b sz (window_count b to sz)) = {t. sz dvd t \<and> b \<le> t \<and> t \<le> to}"
proof (intro set_eqI iffI)
  fix t
  assume "t \<in> set (windows b sz (window_count b to sz))"
  then obtain i where i: "i < window_count b to sz" and t: "t = b + int i * sz"
    by (auto simp: windows_set)
  have "int i \<le> (to - b) div sz"
    using i by (simp add: window_count_def)
  then have "int i * sz \<le> (to - b) div sz * sz"
    using sz by simp
  also have "\<dots> \<le> to - b"
    using div_mult_mod_eq [of "to - b" sz] pos_mod_sign [OF sz, of "to - b"] by linarith
  finally show "t \<in> {t. sz dvd t \<and> b \<le> t \<and> t \<le> to}"
    using t b sz by simp
next
  fix t
  assume "t \<in> {t. sz dvd t \<and> b \<le> t \<and> t \<le> to}"
  then have t: "sz dvd t" "b \<le> t" "t \<le> to" by auto
  define i where "i = nat ((t - b) div sz)"
  have nn: "0 \<le> (t - b) div sz"
    using t sz by (simp add: pos_imp_zdiv_nonneg_iff)
  have "(t - b) div sz * sz = t - b"
    using t b by (metis dvd_diff dvd_div_mult_self)
  then have teq: "t = b + int i * sz"
    using nn by (simp add: i_def)
  have "(t - b) div sz \<le> (to - b) div sz"
    using t sz by (simp add: zdiv_mono1)
  then have "i < window_count b to sz"
    using nn by (simp add: i_def window_count_def)
  with teq show "t \<in> set (windows b sz (window_count b to sz))"
    by (auto simp: windows_set)
qed

end
