(* ===== verification/Database.thy ===== *)
theory Database
  imports Models
begin

text \<open>
  The PostgreSQL database as the repositories see it. A table is the list of its rows
  in insertion order; the constraints are those of \<open>migrations/\<close>. Every round trip to the
  server can fail: \<open>db_faults\<close> is the environment's script, one entry per round trip,
  where \<open>Some text\<close> fails it with that driver error and leaves the tables alone, and an
  exhausted script means that nothing fails any more. A transaction runs its statements
  and commits; any error before that rolls the tables back, but not the identity
  sequences, which PostgreSQL does not roll back.

  What the server computes and the repository cannot see is a parameter, \<open>postgres\<close>: the
  text function \<open>lower\<close> and the normal form in which \<open>jsonb\<close> hands a document back, \<open>None\<close>
  for one that it refuses.
\<close>

record postgres =
  pg_lower :: "string \<Rightarrow> string"
  pg_jsonb :: "string \<Rightarrow> string option"

record db =
  db_users :: "User list"
  db_users_seq :: int
  db_refresh_tokens :: "RefreshToken list"
  db_oauth_states :: "GoogleOAuthState list"
  db_oauth_codes :: "GoogleOAuthCode list"
  db_events :: "Event list"
  db_events_seq :: int
  db_activity_buckets :: "ActivityBucket list"
  db_aggregation_runs :: "AggregationRun list"
  db_runs_seq :: int
  db_locked_buckets :: "time list"
  db_now :: time
  db_faults :: "string option list"

text \<open>
  \<open>db_locked_buckets\<close> are the windows whose advisory lock another session's transaction
  holds at the moment; \<open>db_now\<close> is what \<open>now()\<close> returns.
\<close>

section \<open>Values on their way into the tables\<close>

text \<open>
  A \<open>timestamptz\<close> has microseconds: the driver drops the rest of a time that is bound to a
  parameter, so what is stored and what is compared is \<open>timestamptz t\<close>. \<open>char_length\<close> is
  SQL's \<open>length\<close> of a text, in characters: the bytes that do not continue a UTF-8 sequence.
\<close>

definition timestamptz :: "time \<Rightarrow> time" where
  "timestamptz t = Truncate t Microsecond"

definition char_length :: "string \<Rightarrow> nat" where
  "char_length s = length (filter (\<lambda>c. (of_char c :: nat) div 64 \<noteq> 2) s)"

lemma timestamptz_idem [simp]: "timestamptz (timestamptz t) = timestamptz t"
  by (simp add: timestamptz_def Truncate_multiple Truncate_dvd Microsecond_def)

lemma timestamptz_le: "timestamptz t \<le> t"
  by (simp add: timestamptz_def Truncate_le)

lemma timestamptz_id: "Microsecond dvd t \<Longrightarrow> timestamptz t = t"
  by (simp add: timestamptz_def Truncate_multiple)

lemma timestamptz_mono: "t \<le> u \<Longrightarrow> timestamptz t \<le> timestamptz u"
  by (simp add: timestamptz_def Truncate_mono)

lemma char_length_le: "char_length s \<le> length s"
  by (simp add: char_length_def)

section \<open>Round trips and transactions\<close>

definition round_trip :: "'m db_scheme \<Rightarrow> string option \<times> 'm db_scheme" where
  "round_trip w =
     (case db_faults w of
        [] \<Rightarrow> (None, w)
      | f # fs \<Rightarrow> (f, w\<lparr>db_faults := fs\<rparr>))"

text \<open>One statement sent outside a transaction, or inside one.\<close>

definition send :: "('m db_scheme, 'a) op \<Rightarrow> ('m db_scheme, 'a) op" where
  "send stmt w =
     (case round_trip w of
        (Some e, w1) \<Rightarrow> (Inl (OtherErr e), w1)
      | (None, w1) \<Rightarrow> stmt w1)"

definition rollback :: "'m db_scheme \<Rightarrow> 'm db_scheme \<Rightarrow> 'm db_scheme" where
  "rollback w0 w1 =
     w0\<lparr>db_faults := db_faults w1, db_users_seq := db_users_seq w1,
        db_events_seq := db_events_seq w1, db_runs_seq := db_runs_seq w1\<rparr>"

text \<open>
  \<open>pool.Begin\<close>, the body, \<open>tx.Commit\<close>, with the deferred \<open>tx.Rollback\<close> that takes effect
  on every return before the commit. The two texts are those of the \<open>fmt.Errorf\<close> calls
  around \<open>Begin\<close> and \<open>Commit\<close>.
\<close>

definition in_tx :: "string \<Rightarrow> string \<Rightarrow> ('m db_scheme, 'a) op \<Rightarrow> ('m db_scheme, 'a) op" where
  "in_tx begin_text commit_text body w =
     (case round_trip w of
        (Some e, w0) \<Rightarrow> (Inl (Wrapped begin_text (OtherErr e) ''''), w0)
      | (None, w0) \<Rightarrow>
          (case body w0 of
             (Inl e, w1) \<Rightarrow> (Inl e, rollback w0 w1)
           | (Inr x, w1) \<Rightarrow>
               (case round_trip w1 of
                  (Some e, w2) \<Rightarrow> (Inl (Wrapped commit_text (OtherErr e) ''''), rollback w0 w2)
                | (None, w2) \<Rightarrow> (Inr x, w2))))"

text \<open>A row of a query that returns one row at most.\<close>

definition one_row :: "'a option \<Rightarrow> go_error + 'a" where
  "one_row r = (case r of None \<Rightarrow> Inl Pgx_ErrNoRows | Some x \<Rightarrow> Inr x)"

text \<open>
  \<open>row.Scan\<close> in the repositories: no row is \<open>ErrNotFound\<close>, any other error is wrapped with
  the text of the scan function.
\<close>

definition scan :: "string \<Rightarrow> go_error + 'a \<Rightarrow> go_error + 'a" where
  "scan what r =
     (case r of
        Inr x \<Rightarrow> Inr x
      | Inl e \<Rightarrow>
          if errors_Is e Pgx_ErrNoRows then Inl Repo_ErrNotFound
          else Inl (Wrapped what e ''''))"

definition wrap_error :: "string \<Rightarrow> go_error + 'a \<Rightarrow> go_error + 'a" where
  "wrap_error what r = (case r of Inr x \<Rightarrow> Inr x | Inl e \<Rightarrow> Inl (Wrapped what e ''''))"

text \<open>\<open>LIMIT n\<close>; the server refuses a negative one.\<close>

definition limit_rows :: "int \<Rightarrow> 'a list \<Rightarrow> go_error + 'a list" where
  "limit_rows n rows =
     (if n < 0 then Inl (PgError ''2201W'' '''') else Inr (take (nat n) rows))"

section \<open>The tables, without the script of faults\<close>

text \<open>
  Two states with the same tables: everything but the script of faults and the identity
  sequences, neither of which a query can see.
\<close>

definition same_tables :: "'m db_scheme \<Rightarrow> 'm db_scheme \<Rightarrow> bool" where
  "same_tables w w' \<longleftrightarrow>
     db_users w' = db_users w \<and> db_refresh_tokens w' = db_refresh_tokens w \<and>
     db_oauth_states w' = db_oauth_states w \<and> db_oauth_codes w' = db_oauth_codes w \<and>
     db_events w' = db_events w \<and> db_activity_buckets w' = db_activity_buckets w \<and>
     db_aggregation_runs w' = db_aggregation_runs w \<and>
     db_locked_buckets w' = db_locked_buckets w \<and> db_now w' = db_now w \<and>
     db.more w' = db.more w"

lemma same_tables_refl [simp]: "same_tables w w"
  by (simp add: same_tables_def)

lemma same_tables_trans: "same_tables u v \<Longrightarrow> same_tables v w \<Longrightarrow> same_tables u w"
  by (simp add: same_tables_def)

lemma same_tablesD:
  assumes "same_tables w w'"
  shows "db_users w' = db_users w" "db_refresh_tokens w' = db_refresh_tokens w"
    "db_oauth_states w' = db_oauth_states w" "db_oauth_codes w' = db_oauth_codes w"
    "db_events w' = db_events w" "db_activity_buckets w' = db_activity_buckets w"
    "db_aggregation_runs w' = db_aggregation_runs w"
    "db_locked_buckets w' = db_locked_buckets w" "db_now w' = db_now w" "db.more w' = db.more w"
  using assms by (simp_all add: same_tables_def)

lemma same_tables_faults [simp]: "same_tables w (w\<lparr>db_faults := fs\<rparr>)"
  by (simp add: same_tables_def)

lemma same_tables_rollback [simp]: "same_tables w (rollback w w1)"
  by (simp add: same_tables_def rollback_def)

lemma round_trip_same: "round_trip w = (f, w') \<Longrightarrow> same_tables w w'"
  by (auto simp: round_trip_def split: list.splits)

lemma rollback_faults [simp]: "db_faults (rollback w0 w1) = db_faults w1"
  by (simp add: rollback_def)

text \<open>
  The two rules for reasoning about a statement and a transaction: a failed one leaves
  the tables alone, a successful one ran its body between two states with the same
  tables.
\<close>

lemma send_cases:
  assumes "send stmt w = (r, w')"
  obtains e where "r = Inl (OtherErr e)" and "same_tables w w'"
  | w1 where "same_tables w w1" and "stmt w1 = (r, w')"
  using assms by (auto simp: send_def dest: round_trip_same split: prod.splits option.splits)

lemma in_tx_Inl_same: "in_tx b c body w = (Inl e, w') \<Longrightarrow> same_tables w w'"
  by (auto simp: in_tx_def split: prod.splits option.splits sum.splits dest!: round_trip_same
      intro: same_tables_trans)

lemma in_tx_Inr:
  assumes "in_tx b c body w = (Inr x, w')"
  obtains w0 w1 where "same_tables w w0" and "body w0 = (Inr x, w1)" and "same_tables w1 w'"
  using assms
  by (auto simp: in_tx_def split: prod.splits option.splits sum.splits dest!: round_trip_same)

text \<open>Without faults, a statement is its body and a transaction commits what its body did.\<close>

lemma round_trip_no_faults [simp]: "db_faults w = [] \<Longrightarrow> round_trip w = (None, w)"
  by (simp add: round_trip_def)

lemma send_no_faults [simp]: "db_faults w = [] \<Longrightarrow> send stmt w = stmt w"
  by (simp add: send_def)

lemma in_tx_no_faults:
  assumes "db_faults w = []"
  shows "in_tx b c body w =
    (case body w of
       (Inl e, w1) \<Rightarrow> (Inl e, rollback w w1)
     | (Inr x, w1) \<Rightarrow>
         (case round_trip w1 of
            (Some e, w2) \<Rightarrow> (Inl (Wrapped c (OtherErr e) ''''), rollback w w2)
          | (None, w2) \<Rightarrow> (Inr x, w2)))"
  using assms by (simp add: in_tx_def)

lemma scan_Inr [simp]: "scan what (Inr x) = Inr x"
  by (simp add: scan_def)

lemma scan_NoRows [simp]: "scan what (Inl Pgx_ErrNoRows) = Inl Repo_ErrNotFound"
  by (simp add: scan_def)

lemma scan_Other [simp]: "scan what (Inl (OtherErr e)) = Inl (Wrapped what (OtherErr e) '''')"
  by (simp add: scan_def)

lemma scan_Pg [simp]: "scan what (Inl (PgError c k)) = Inl (Wrapped what (PgError c k) '''')"
  by (simp add: scan_def)

lemma scan_eq_Inr [simp]: "scan what r = Inr x \<longleftrightarrow> r = Inr x"
  by (cases r) (auto simp: scan_def)

lemma wrap_error_eq_Inr [simp]: "wrap_error what r = Inr x \<longleftrightarrow> r = Inr x"
  by (cases r) (auto simp: wrap_error_def)

lemma wrap_error_simps [simp]:
  "wrap_error what (Inr x) = Inr x"
  "wrap_error what (Inl e) = Inl (Wrapped what e '''')"
  by (simp_all add: wrap_error_def)

lemma one_row_simps [simp]: "one_row None = Inl Pgx_ErrNoRows" "one_row (Some x) = Inr x"
  by (simp_all add: one_row_def)

lemma one_row_eq_Inr [simp]: "one_row r = Inr x \<longleftrightarrow> r = Some x"
  by (cases r) auto

end
