(* ===== verification/UserRepo.thy ===== *)
theory UserRepo
  imports Database
begin

text \<open>
  \<open>internal/repository/user.go\<close>: the queries on \<open>users\<close>, with the constraints and unique
  indexes of migrations 1 to 3.
\<close>

section \<open>Errors of the driver\<close>

text \<open>\<open>errors.As(err, &pgErr)\<close>.\<close>

fun as_PgError :: "go_error \<Rightarrow> (string \<times> string) option" where
  "as_PgError (PgError code constraint) = Some (code, constraint)"
| "as_PgError (Wrapped pre e post) = as_PgError e"
| "as_PgError _ = None"

definition translateUniqueViolation :: "go_error \<Rightarrow> go_error" where
  "translateUniqueViolation err =
     (case as_PgError err of
        None \<Rightarrow> err
      | Some (code, constraint) \<Rightarrow>
          if code \<noteq> ''23505'' then err
          else if constraint = ''users_email_lower_key'' then Repo_ErrEmailTaken
          else if constraint = ''users_google_sub_key'' then Repo_ErrGoogleSubTaken
          else err)"

definition scanUser :: "go_error + User \<Rightarrow> go_error + User" where
  "scanUser = scan ''repository: scan user: ''"

section \<open>Statements\<close>

definition email_conflict :: "postgres \<Rightarrow> string \<Rightarrow> User list \<Rightarrow> bool" where
  "email_conflict pg email rows \<longleftrightarrow>
     list_ex (\<lambda>r. pg_lower pg (user_Email r) = pg_lower pg email) rows"

definition google_sub_conflict :: "string option \<Rightarrow> User list \<Rightarrow> bool" where
  "google_sub_conflict sub rows \<longleftrightarrow> sub \<noteq> None \<and> list_ex (\<lambda>r. user_GoogleSub r = sub) rows"

definition insert_user :: "postgres \<Rightarrow> User \<Rightarrow> ('m db_scheme, User) op" where
  "insert_user pg u w =
     (let n = db_users_seq w + 1;
          w1 = w\<lparr>db_users_seq := n\<rparr>;
          row = u\<lparr>user_ID := n, user_CreatedAt := db_now w, user_UpdatedAt := db_now w\<rparr>
      in if \<not> Role_Valid (user_Role u) then (Inl (PgError ''23514'' ''users_role_check''), w1)
         else if user_PasswordHash u = None \<and> user_GoogleSub u = None
           then (Inl (PgError ''23514'' ''users_login_method_check''), w1)
         else if email_conflict pg (user_Email u) (db_users w)
           then (Inl (PgError ''23505'' ''users_email_lower_key''), w1)
         else if google_sub_conflict (user_GoogleSub u) (db_users w)
           then (Inl (PgError ''23505'' ''users_google_sub_key''), w1)
         else (Inr row, w1\<lparr>db_users := db_users w @ [row]\<rparr>))"

definition UserRepository_Create :: "postgres \<Rightarrow> User \<Rightarrow> ('m db_scheme, User) op" where
  "UserRepository_Create pg u w =
     (case send (insert_user pg u) w of
        (r, w1) \<Rightarrow>
          (case scanUser r of
             Inl err \<Rightarrow> (Inl (translateUniqueViolation err), w1)
           | Inr created \<Rightarrow> (Inr created, w1)))"

definition UserRepository_ByID :: "int \<Rightarrow> ('m db_scheme, User) op" where
  "UserRepository_ByID i w =
     (case send (\<lambda>w. (one_row (select_row (\<lambda>r. user_ID r = i) (db_users w)), w)) w of
        (r, w1) \<Rightarrow> (scanUser r, w1))"

definition UserRepository_ByEmail :: "postgres \<Rightarrow> string \<Rightarrow> ('m db_scheme, User) op" where
  "UserRepository_ByEmail pg email w =
     (case send (\<lambda>w. (one_row (select_row
              (\<lambda>r. pg_lower pg (user_Email r) = pg_lower pg email) (db_users w)), w)) w of
        (r, w1) \<Rightarrow> (scanUser r, w1))"

definition UserRepository_ByGoogleSub :: "string \<Rightarrow> ('m db_scheme, User) op" where
  "UserRepository_ByGoogleSub sub w =
     (case send (\<lambda>w. (one_row (select_row (\<lambda>r. user_GoogleSub r = Some sub) (db_users w)), w)) w of
        (r, w1) \<Rightarrow> (scanUser r, w1))"

text \<open>
  \<open>List\<close>: one row per user, the events of its buckets summed up, most active first and by
  id among equals.
\<close>

definition sum_counts :: "ActivityBucket list \<Rightarrow> int" where
  "sum_counts bs = sum_list (map ab_EventCount bs)"

definition user_summary :: "ActivityBucket list \<Rightarrow> User \<Rightarrow> UserSummary" where
  "user_summary buckets u =
     (let mine = filter (\<lambda>b. ab_UserID b = user_ID u) buckets
      in \<lparr>us_ID = user_ID u, us_Email = user_Email u, us_Role = user_Role u,
          us_EventCount = sum_counts mine, us_LastEventAt = max_time (map ab_LastEventAt mine)\<rparr>)"

definition UserRepository_List :: "int \<Rightarrow> ('m db_scheme, UserSummary list) op" where
  "UserRepository_List limit w =
     (case send (\<lambda>w. (limit_rows limit
              (sort_key (\<lambda>s. (- us_EventCount s, us_ID s))
                (map (user_summary (db_activity_buckets w)) (db_users w))), w)) w of
        (r, w1) \<Rightarrow> (wrap_error ''repository: list users: '' r, w1))"

section \<open>Linking a Google account\<close>

text \<open>
  \<open>AttachGoogle\<close> locks the row, sets the Google subject unless another one is set, drops
  the password of an account whose address was never verified, and revokes that account's
  sessions, all in one transaction.
\<close>

definition link_row :: "string \<Rightarrow> string option \<Rightarrow> bool \<Rightarrow> time \<Rightarrow> User \<Rightarrow> User" where
  "link_row sub name emailVerified t r =
     r\<lparr>user_GoogleSub := Some sub,
       user_Name := (case user_Name r of None \<Rightarrow> name | Some n \<Rightarrow> Some n),
       user_PasswordHash := (if user_EmailVerified r then user_PasswordHash r else None),
       user_EmailVerified := user_EmailVerified r \<or> emailVerified,
       user_UpdatedAt := t\<rparr>"

definition linkable :: "int \<Rightarrow> string \<Rightarrow> User \<Rightarrow> bool" where
  "linkable i sub r \<longleftrightarrow>
     user_ID r = i \<and> (user_GoogleSub r = None \<or> user_GoogleSub r = Some sub)"

definition update_google :: "int \<Rightarrow> string \<Rightarrow> string option \<Rightarrow> bool \<Rightarrow> ('m db_scheme, User) op" where
  "update_google i sub name emailVerified w =
     (case select_row (linkable i sub) (db_users w) of
        None \<Rightarrow> (Inl Pgx_ErrNoRows, w)
      | Some r \<Rightarrow>
          if list_ex (\<lambda>x. user_ID x \<noteq> i \<and> user_GoogleSub x = Some sub) (db_users w)
          then (Inl (PgError ''23505'' ''users_google_sub_key''), w)
          else (Inr (link_row sub name emailVerified (db_now w) r),
                w\<lparr>db_users := update_rows (linkable i sub)
                     (link_row sub name emailVerified (db_now w)) (db_users w)\<rparr>))"

definition revoke_user_tokens :: "int \<Rightarrow> ('m db_scheme, int) op" where
  "revoke_user_tokens i w =
     (let p = (\<lambda>t. rt_UserID t = i \<and> rt_RevokedAt t = None)
      in (Inr (count_rows p (db_refresh_tokens w)),
          w\<lparr>db_refresh_tokens :=
              update_rows p (\<lambda>t. t\<lparr>rt_RevokedAt := Some (db_now w)\<rparr>) (db_refresh_tokens w)\<rparr>))"

definition AttachGoogle_body ::
    "int \<Rightarrow> string \<Rightarrow> string option \<Rightarrow> bool \<Rightarrow> ('m db_scheme, User) op" where
  "AttachGoogle_body i sub name emailVerified w =
     (case send (\<lambda>w. (one_row (map_option user_EmailVerified
              (select_row (\<lambda>r. user_ID r = i) (db_users w))), w)) w of
        (Inl err, w1) \<Rightarrow>
          (if errors_Is err Pgx_ErrNoRows then (Inl Repo_ErrNotFound, w1)
           else (Inl (Wrapped ''repository: read user before google link: '' err ''''), w1))
      | (Inr wasVerified, w1) \<Rightarrow>
          (case send (update_google i sub name emailVerified) w1 of
             (r, w2) \<Rightarrow>
               (case scanUser r of
                  Inl err \<Rightarrow> (Inl (translateUniqueViolation err), w2)
                | Inr updated \<Rightarrow>
                    if \<not> wasVerified
                    then (case send (revoke_user_tokens i) w2 of
                            (Inl err, w3) \<Rightarrow>
                              (Inl (Wrapped ''repository: revoke sessions of the linked account: ''
                                  err ''''), w3)
                          | (Inr _, w3) \<Rightarrow> (Inr updated, w3))
                    else (Inr updated, w2))))"

definition UserRepository_AttachGoogle ::
    "int \<Rightarrow> string \<Rightarrow> string option \<Rightarrow> bool \<Rightarrow> ('m db_scheme, User) op" where
  "UserRepository_AttachGoogle i sub name emailVerified =
     in_tx ''repository: begin google link: '' ''repository: commit google link: ''
       (AttachGoogle_body i sub name emailVerified)"

end
