(* ===== verification/TokenRepo.thy ===== *)
theory TokenRepo
  imports Database
begin

text \<open>
  \<open>internal/repository/refresh_token.go\<close>: refresh tokens, their rotation and the
  revocation of a family. The advisory lock of a family serialises the transactions that
  take it; a transaction is one step of the model, so taking the lock is a round trip that
  can fail and nothing else.
\<close>

definition insert_refresh_token_row :: "RefreshToken \<Rightarrow> ('m db_scheme, unit) op" where
  "insert_refresh_token_row t w =
     (if list_ex (\<lambda>r. rt_ID r = rt_ID t) (db_refresh_tokens w)
        then (Inl (PgError ''23505'' ''refresh_tokens_pkey''), w)
      else if list_ex (\<lambda>r. rt_TokenHash r = rt_TokenHash t) (db_refresh_tokens w)
        then (Inl (PgError ''23505'' ''refresh_tokens_token_hash_key''), w)
      else if \<not> list_ex (\<lambda>u. user_ID u = rt_UserID t) (db_users w)
        then (Inl (PgError ''23503'' ''refresh_tokens_user_id_fkey''), w)
      else (Inr (), w\<lparr>db_refresh_tokens := db_refresh_tokens w @
              [t\<lparr>rt_CreatedAt := db_now w, rt_ExpiresAt := timestamptz (rt_ExpiresAt t),
                 rt_RevokedAt := None, rt_ReplacedBy := None\<rparr>]\<rparr>))"

definition insertRefreshToken :: "RefreshToken \<Rightarrow> ('m db_scheme, unit) op" where
  "insertRefreshToken t w =
     (case send (insert_refresh_token_row t) w of
        (r, w1) \<Rightarrow> (wrap_error ''repository: insert refresh token: '' r, w1))"

definition lockFamily :: "uuid \<Rightarrow> ('m db_scheme, unit) op" where
  "lockFamily familyID w =
     (case send (\<lambda>w. (Inr (), w)) w of
        (r, w1) \<Rightarrow> (wrap_error ''repository: lock token family: '' r, w1))"

definition RefreshTokenRepository_Create :: "RefreshToken \<Rightarrow> ('m db_scheme, unit) op" where
  "RefreshTokenRepository_Create t = insertRefreshToken t"

definition RefreshTokenRepository_ByHash :: "string \<Rightarrow> ('m db_scheme, RefreshToken) op" where
  "RefreshTokenRepository_ByHash hash w =
     (case send (\<lambda>w. (one_row (select_row (\<lambda>r. rt_TokenHash r = hash) (db_refresh_tokens w)), w)) w of
        (r, w1) \<Rightarrow> (scan ''repository: scan refresh token: '' r, w1))"

definition rotate_row :: "uuid \<Rightarrow> uuid \<Rightarrow> ('m db_scheme, int) op" where
  "rotate_row oldID nextID w =
     (let p = (\<lambda>t. rt_ID t = oldID \<and> rt_RevokedAt t = None)
      in (Inr (count_rows p (db_refresh_tokens w)),
          w\<lparr>db_refresh_tokens := update_rows p
              (\<lambda>t. t\<lparr>rt_RevokedAt := Some (db_now w), rt_ReplacedBy := Some nextID\<rparr>)
              (db_refresh_tokens w)\<rparr>))"

definition Rotate_body :: "uuid \<Rightarrow> RefreshToken \<Rightarrow> ('m db_scheme, unit) op" where
  "Rotate_body oldID nxt w =
     (case lockFamily (rt_FamilyID nxt) w of
        (Inl err, w1) \<Rightarrow> (Inl err, w1)
      | (Inr _, w1) \<Rightarrow>
          (case insertRefreshToken nxt w1 of
             (Inl err, w2) \<Rightarrow> (Inl err, w2)
           | (Inr _, w2) \<Rightarrow>
               (case send (rotate_row oldID (rt_ID nxt)) w2 of
                  (Inl err, w3) \<Rightarrow> (Inl (Wrapped ''repository: revoke rotated token: '' err ''''), w3)
                | (Inr affected, w3) \<Rightarrow>
                    if affected = 0 then (Inl Repo_ErrTokenAlreadyRotated, w3) else (Inr (), w3))))"

definition RefreshTokenRepository_Rotate :: "uuid \<Rightarrow> RefreshToken \<Rightarrow> ('m db_scheme, unit) op" where
  "RefreshTokenRepository_Rotate oldID nxt =
     in_tx ''repository: begin rotation: '' ''repository: commit rotation: '' (Rotate_body oldID nxt)"

definition revoke_family_rows :: "uuid \<Rightarrow> ('m db_scheme, int) op" where
  "revoke_family_rows familyID w =
     (let p = (\<lambda>t. rt_FamilyID t = familyID \<and> rt_RevokedAt t = None)
      in (Inr (count_rows p (db_refresh_tokens w)),
          w\<lparr>db_refresh_tokens := update_rows p (\<lambda>t. t\<lparr>rt_RevokedAt := Some (db_now w)\<rparr>)
              (db_refresh_tokens w)\<rparr>))"

definition RevokeFamily_body :: "uuid \<Rightarrow> ('m db_scheme, int) op" where
  "RevokeFamily_body familyID w =
     (case lockFamily familyID w of
        (Inl err, w1) \<Rightarrow> (Inl err, w1)
      | (Inr _, w1) \<Rightarrow>
          (case send (revoke_family_rows familyID) w1 of
             (r, w2) \<Rightarrow> (wrap_error ''repository: revoke token family: '' r, w2)))"

definition RefreshTokenRepository_RevokeFamily :: "uuid \<Rightarrow> ('m db_scheme, int) op" where
  "RefreshTokenRepository_RevokeFamily familyID =
     in_tx ''repository: begin family revocation: '' ''repository: commit family revocation: ''
       (RevokeFamily_body familyID)"

text \<open>\<open>ON DELETE SET NULL\<close> clears the references to the deleted rows.\<close>

definition delete_expired_tokens :: "time \<Rightarrow> ('m db_scheme, int) op" where
  "delete_expired_tokens olderThan w =
     (let gone = filter (\<lambda>t. rt_ExpiresAt t < olderThan) (db_refresh_tokens w);
          kept = filter (\<lambda>t. \<not> rt_ExpiresAt t < olderThan) (db_refresh_tokens w);
          dead = (\<lambda>i. list_ex (\<lambda>t. rt_ID t = i) gone)
      in (Inr (int (length gone)),
          w\<lparr>db_refresh_tokens := map (\<lambda>t. t\<lparr>rt_ReplacedBy :=
              (case rt_ReplacedBy t of None \<Rightarrow> None | Some i \<Rightarrow> if dead i then None else Some i)\<rparr>) kept\<rparr>))"

definition RefreshTokenRepository_DeleteExpired :: "time \<Rightarrow> ('m db_scheme, int) op" where
  "RefreshTokenRepository_DeleteExpired olderThan w =
     (case send (delete_expired_tokens (timestamptz olderThan)) w of
        (r, w1) \<Rightarrow> (wrap_error ''repository: delete expired tokens: '' r, w1))"

section \<open>What an operation on the token table is, without faults and texts\<close>

text \<open>A live token is one that has not been revoked.\<close>

definition live :: "RefreshToken \<Rightarrow> bool" where
  "live t \<longleftrightarrow> rt_RevokedAt t = None"

definition live_in_family :: "uuid \<Rightarrow> RefreshToken list \<Rightarrow> RefreshToken list" where
  "live_in_family f ts = filter (\<lambda>t. rt_FamilyID t = f \<and> live t) ts"

definition new_row :: "time \<Rightarrow> RefreshToken \<Rightarrow> RefreshToken" where
  "new_row now t = t\<lparr>rt_CreatedAt := now, rt_ExpiresAt := timestamptz (rt_ExpiresAt t),
     rt_RevokedAt := None, rt_ReplacedBy := None\<rparr>"

lemma insertRefreshToken_Inr:
  assumes "insertRefreshToken t w = (Inr x, w')"
  obtains w1 where "same_tables w w1"
    and "w' = w1\<lparr>db_refresh_tokens := db_refresh_tokens w1 @ [new_row (db_now w1) t]\<rparr>"
    and "\<forall>r\<in>set (db_refresh_tokens w). rt_ID r \<noteq> rt_ID t \<and> rt_TokenHash r \<noteq> rt_TokenHash t"
    and "\<exists>u\<in>set (db_users w). user_ID u = rt_UserID t"
proof -
  obtain r where s: "send (insert_refresh_token_row t) w = (r, w')" and r: "r = Inr ()"
    using assms by (auto simp: insertRefreshToken_def split: prod.splits)
  from s r obtain w1 where w1: "same_tables w w1" "insert_refresh_token_row t w1 = (Inr (), w')"
    by (elim send_cases) auto
  then show thesis
    by (intro that [of w1])
      (auto simp: insert_refresh_token_row_def new_row_def list_ex_iff same_tables_def split: if_splits)
qed

lemma insertRefreshToken_Inl: "insertRefreshToken t w = (Inl e, w') \<Longrightarrow> same_tables w w'"
  by (auto simp: insertRefreshToken_def insert_refresh_token_row_def wrap_error_def
      split: prod.splits sum.splits if_splits elim!: send_cases)

lemma lockFamily_same: "lockFamily f w = (r, w') \<Longrightarrow> same_tables w w'"
  by (auto simp: lockFamily_def split: prod.splits elim!: send_cases)

text \<open>
  A successful rotation: a live token with the old id exists, and the table afterwards has
  the old one revoked and the new one added. A failed one changes no table.
\<close>

lemma Rotate_Inr:
  assumes "RefreshTokenRepository_Rotate oldID nxt w = (Inr x, w')"
  shows "\<exists>t\<in>set (db_refresh_tokens w @ [new_row (db_now w) nxt]). rt_ID t = oldID \<and> live t"
    and "db_refresh_tokens w' =
      update_rows (\<lambda>t. rt_ID t = oldID \<and> live t)
        (\<lambda>t. t\<lparr>rt_RevokedAt := Some (db_now w), rt_ReplacedBy := Some (rt_ID nxt)\<rparr>)
        (db_refresh_tokens w @ [new_row (db_now w) nxt])"
    and "\<forall>r\<in>set (db_refresh_tokens w). rt_ID r \<noteq> rt_ID nxt \<and> rt_TokenHash r \<noteq> rt_TokenHash nxt"
    and "same_tables (w'\<lparr>db_refresh_tokens := db_refresh_tokens w\<rparr>) w"
proof -
  obtain w0 w1 where 0: "same_tables w w0" and body: "Rotate_body oldID nxt w0 = (Inr x, w1)"
    and 1: "same_tables w1 w'"
    using assms unfolding RefreshTokenRepository_Rotate_def by (elim in_tx_Inr)
  obtain y wa where lock: "lockFamily (rt_FamilyID nxt) w0 = (Inr y, wa)"
    using body by (auto simp: Rotate_body_def split: prod.splits sum.splits)
  obtain z wb where ins: "insertRefreshToken nxt wa = (Inr z, wb)"
    using body lock by (auto simp: Rotate_body_def split: prod.splits sum.splits)
  obtain n where rot: "send (rotate_row oldID (rt_ID nxt)) wb = (Inr n, w1)" and n: "n \<noteq> 0"
    using body lock ins by (auto simp: Rotate_body_def split: prod.splits sum.splits if_splits)
  have a: "same_tables w wa"
    using 0 lockFamily_same [OF lock] by (rule same_tables_trans)
  from ins obtain wc where c: "same_tables wa wc"
    and wb: "wb = wc\<lparr>db_refresh_tokens := db_refresh_tokens wc @ [new_row (db_now wc) nxt]\<rparr>"
    and fresh: "\<forall>r\<in>set (db_refresh_tokens wa). rt_ID r \<noteq> rt_ID nxt \<and> rt_TokenHash r \<noteq> rt_TokenHash nxt"
    by (elim insertRefreshToken_Inr)
  from rot obtain wd where d: "same_tables wb wd" and r: "rotate_row oldID (rt_ID nxt) wd = (Inr n, w1)"
    by (elim send_cases) auto
  have wc: "same_tables w wc" using a c by (rule same_tables_trans)
  have rows: "db_refresh_tokens wd = db_refresh_tokens w @ [new_row (db_now w) nxt]"
    and now: "db_now wd = db_now w"
    using d wb wc by (simp_all add: same_tables_def)
  have ne: "count_rows (\<lambda>t. rt_ID t = oldID \<and> rt_RevokedAt t = None) (db_refresh_tokens wd) \<noteq> 0"
    using r n by (auto simp: rotate_row_def Let_def)
  then show "\<exists>t\<in>set (db_refresh_tokens w @ [new_row (db_now w) nxt]). rt_ID t = oldID \<and> live t"
    unfolding count_rows_zero rows live_def by blast
  show "db_refresh_tokens w' =
      update_rows (\<lambda>t. rt_ID t = oldID \<and> live t)
        (\<lambda>t. t\<lparr>rt_RevokedAt := Some (db_now w), rt_ReplacedBy := Some (rt_ID nxt)\<rparr>)
        (db_refresh_tokens w @ [new_row (db_now w) nxt])"
    using 1 r by (auto simp: rotate_row_def Let_def rows now same_tables_def live_def)
  show "\<forall>r\<in>set (db_refresh_tokens w). rt_ID r \<noteq> rt_ID nxt \<and> rt_TokenHash r \<noteq> rt_TokenHash nxt"
    using fresh a by (simp add: same_tables_def)
  show "same_tables (w'\<lparr>db_refresh_tokens := db_refresh_tokens w\<rparr>) w"
    using 1 r d wb wc by (auto simp: rotate_row_def Let_def same_tables_def)
qed

lemma Rotate_Inl:
  "RefreshTokenRepository_Rotate oldID nxt w = (Inl e, w') \<Longrightarrow> same_tables w w'"
  unfolding RefreshTokenRepository_Rotate_def by (rule in_tx_Inl_same)

lemma RevokeFamily_Inr:
  assumes "RefreshTokenRepository_RevokeFamily f w = (Inr n, w')"
  shows "db_refresh_tokens w' = update_rows (\<lambda>t. rt_FamilyID t = f \<and> live t)
           (\<lambda>t. t\<lparr>rt_RevokedAt := Some (db_now w)\<rparr>) (db_refresh_tokens w)"
    and "n = int (length (live_in_family f (db_refresh_tokens w)))"
    and "same_tables (w'\<lparr>db_refresh_tokens := db_refresh_tokens w\<rparr>) w"
proof -
  obtain w0 w1 where 0: "same_tables w w0" and body: "RevokeFamily_body f w0 = (Inr n, w1)"
    and 1: "same_tables w1 w'"
    using assms unfolding RefreshTokenRepository_RevokeFamily_def by (elim in_tx_Inr)
  obtain y wa where lock: "lockFamily f w0 = (Inr y, wa)"
    using body by (auto simp: RevokeFamily_body_def split: prod.splits sum.splits)
  have "send (revoke_family_rows f) wa = (Inr n, w1)"
    using body lock by (auto simp: RevokeFamily_body_def split: prod.splits)
  then obtain wb where b: "same_tables wa wb" and r: "revoke_family_rows f wb = (Inr n, w1)"
    by (elim send_cases) auto
  have ab: "same_tables w wb"
    using 0 lockFamily_same [OF lock] b by (blast intro: same_tables_trans)
  have eq: "(\<lambda>t. rt_FamilyID t = f \<and> rt_RevokedAt t = None) = (\<lambda>t. rt_FamilyID t = f \<and> live t)"
    by (simp add: live_def)
  show "db_refresh_tokens w' = update_rows (\<lambda>t. rt_FamilyID t = f \<and> live t)
           (\<lambda>t. t\<lparr>rt_RevokedAt := Some (db_now w)\<rparr>) (db_refresh_tokens w)"
    using r 1 ab by (auto simp: revoke_family_rows_def Let_def same_tables_def eq)
  show "n = int (length (live_in_family f (db_refresh_tokens w)))"
    using r ab by (auto simp: revoke_family_rows_def Let_def same_tables_def count_rows_def live_in_family_def eq)
  show "same_tables (w'\<lparr>db_refresh_tokens := db_refresh_tokens w\<rparr>) w"
    using r 1 ab by (auto simp: revoke_family_rows_def Let_def same_tables_def)
qed

lemma RevokeFamily_Inl:
  "RefreshTokenRepository_RevokeFamily f w = (Inl e, w') \<Longrightarrow> same_tables w w'"
  unfolding RefreshTokenRepository_RevokeFamily_def by (rule in_tx_Inl_same)

lemma ByHash_same: "RefreshTokenRepository_ByHash h w = (r, w') \<Longrightarrow> same_tables w w'"
  by (auto simp: RefreshTokenRepository_ByHash_def split: prod.splits elim!: send_cases)

lemma ByHash_Inr:
  assumes "RefreshTokenRepository_ByHash h w = (Inr t, w')"
  shows "t \<in> set (db_refresh_tokens w)" and "rt_TokenHash t = h"
proof -
  obtain r where s: "send (\<lambda>w. (one_row (select_row (\<lambda>r. rt_TokenHash r = h) (db_refresh_tokens w)), w)) w
      = (r, w')" and r: "r = Inr t"
    using assms by (auto simp: RefreshTokenRepository_ByHash_def split: prod.splits)
  from s r obtain w1 where "same_tables w w1"
    and "select_row (\<lambda>r. rt_TokenHash r = h) (db_refresh_tokens w1) = Some t"
    by (elim send_cases) auto
  then show "t \<in> set (db_refresh_tokens w)" and "rt_TokenHash t = h"
    by (auto dest: select_row_Some simp: same_tables_def)
qed

lemma RevokeFamily_kills:
  assumes "RefreshTokenRepository_RevokeFamily f w = (Inr n, w')"
  shows "live_in_family f (db_refresh_tokens w') = []"
  unfolding RevokeFamily_Inr(1) [OF assms] live_in_family_def
  by (rule filter_update_rows_Nil) (simp add: live_def)

end
