(* ===== verification/OAuthRepo.thy ===== *)
theory OAuthRepo
  imports Database
begin

text \<open>
  \<open>internal/repository/google_oauth.go\<close>: the states of a running Google sign-in and the
  one-time codes it ends with. Taking a state deletes it; taking a code marks it used.
\<close>

definition insert_oauth_state :: "GoogleOAuthState \<Rightarrow> ('m db_scheme, unit) op" where
  "insert_oauth_state s w =
     (if list_ex (\<lambda>r. gs_StateHash r = gs_StateHash s) (db_oauth_states w)
      then (Inl (PgError ''23505'' ''google_oauth_states_pkey''), w)
      else (Inr (), w\<lparr>db_oauth_states := db_oauth_states w @ [s\<lparr>gs_CreatedAt := db_now w,
              gs_ExpiresAt := timestamptz (gs_ExpiresAt s)\<rparr>]\<rparr>))"

definition GoogleOAuthRepository_CreateState :: "GoogleOAuthState \<Rightarrow> ('m db_scheme, unit) op" where
  "GoogleOAuthRepository_CreateState s w =
     (case send (insert_oauth_state s) w of
        (r, w1) \<Rightarrow> (wrap_error ''repository: insert oauth state: '' r, w1))"

definition takeable_state :: "string \<Rightarrow> time \<Rightarrow> GoogleOAuthState \<Rightarrow> bool" where
  "takeable_state hash now s \<longleftrightarrow> gs_StateHash s = hash \<and> After (gs_ExpiresAt s) now"

definition take_state_row :: "string \<Rightarrow> time \<Rightarrow> ('m db_scheme, GoogleOAuthState) op" where
  "take_state_row hash now w =
     (one_row (select_row (takeable_state hash now) (db_oauth_states w)),
      w\<lparr>db_oauth_states := filter (\<lambda>s. \<not> takeable_state hash now s) (db_oauth_states w)\<rparr>)"

definition GoogleOAuthRepository_TakeState ::
    "string \<Rightarrow> time \<Rightarrow> ('m db_scheme, GoogleOAuthState) op" where
  "GoogleOAuthRepository_TakeState hash now w =
     (case send (take_state_row hash (timestamptz now)) w of
        (r, w1) \<Rightarrow> (scan ''repository: take oauth state: '' r, w1))"

definition insert_oauth_code :: "GoogleOAuthCode \<Rightarrow> ('m db_scheme, unit) op" where
  "insert_oauth_code c w =
     (if list_ex (\<lambda>r. gc_CodeHash r = gc_CodeHash c) (db_oauth_codes w)
        then (Inl (PgError ''23505'' ''google_oauth_codes_pkey''), w)
      else if \<not> list_ex (\<lambda>u. user_ID u = gc_UserID c) (db_users w)
        then (Inl (PgError ''23503'' ''google_oauth_codes_user_id_fkey''), w)
      else (Inr (), w\<lparr>db_oauth_codes := db_oauth_codes w @
              [c\<lparr>gc_CreatedAt := db_now w, gc_ExpiresAt := timestamptz (gc_ExpiresAt c),
                 gc_UsedAt := None\<rparr>]\<rparr>))"

definition GoogleOAuthRepository_CreateCode :: "GoogleOAuthCode \<Rightarrow> ('m db_scheme, unit) op" where
  "GoogleOAuthRepository_CreateCode c w =
     (case send (insert_oauth_code c) w of
        (r, w1) \<Rightarrow> (wrap_error ''repository: insert oauth code: '' r, w1))"

definition takeable_code :: "string \<Rightarrow> time \<Rightarrow> GoogleOAuthCode \<Rightarrow> bool" where
  "takeable_code hash now c \<longleftrightarrow>
     gc_CodeHash c = hash \<and> gc_UsedAt c = None \<and> After (gc_ExpiresAt c) now"

definition take_code_row :: "string \<Rightarrow> time \<Rightarrow> ('m db_scheme, int) op" where
  "take_code_row hash now w =
     (one_row (map_option gc_UserID (select_row (takeable_code hash now) (db_oauth_codes w))),
      w\<lparr>db_oauth_codes := update_rows (takeable_code hash now) (\<lambda>c. c\<lparr>gc_UsedAt := Some now\<rparr>)
          (db_oauth_codes w)\<rparr>)"

definition GoogleOAuthRepository_TakeCode :: "string \<Rightarrow> time \<Rightarrow> ('m db_scheme, int) op" where
  "GoogleOAuthRepository_TakeCode hash now w =
     (case send (take_code_row hash (timestamptz now)) w of
        (r, w1) \<Rightarrow> (scan ''repository: take oauth code: '' r, w1))"

definition delete_oauth_states :: "time \<Rightarrow> ('m db_scheme, int) op" where
  "delete_oauth_states olderThan w =
     (Inr (count_rows (\<lambda>s. gs_ExpiresAt s < olderThan) (db_oauth_states w)),
      w\<lparr>db_oauth_states := filter (\<lambda>s. \<not> gs_ExpiresAt s < olderThan) (db_oauth_states w)\<rparr>)"

definition delete_oauth_codes :: "time \<Rightarrow> ('m db_scheme, int) op" where
  "delete_oauth_codes olderThan w =
     (Inr (count_rows (\<lambda>c. gc_ExpiresAt c < olderThan) (db_oauth_codes w)),
      w\<lparr>db_oauth_codes := filter (\<lambda>c. \<not> gc_ExpiresAt c < olderThan) (db_oauth_codes w)\<rparr>)"

text \<open>
  \<open>DeleteExpired\<close> returns the count of deleted states beside the error when the second
  statement fails; the model keeps the error.
\<close>

definition GoogleOAuthRepository_DeleteExpired :: "time \<Rightarrow> ('m db_scheme, int) op" where
  "GoogleOAuthRepository_DeleteExpired olderThan w =
     (case send (delete_oauth_states (timestamptz olderThan)) w of
        (Inl err, w1) \<Rightarrow> (Inl (Wrapped ''repository: delete expired oauth states: '' err ''''), w1)
      | (Inr deleted, w1) \<Rightarrow>
          (case send (delete_oauth_codes (timestamptz olderThan)) w1 of
             (Inl err, w2) \<Rightarrow> (Inl (Wrapped ''repository: delete expired oauth codes: '' err ''''), w2)
           | (Inr n, w2) \<Rightarrow> (Inr (deleted + n), w2)))"

section \<open>A state or a code is taken once\<close>

lemma TakeState_Inr:
  assumes "GoogleOAuthRepository_TakeState h now w = (Inr s, w')"
  shows "s \<in> set (db_oauth_states w)" and "gs_StateHash s = h" and "timestamptz now < gs_ExpiresAt s"
    and "db_oauth_states w' = filter (\<lambda>s. \<not> takeable_state h (timestamptz now) s) (db_oauth_states w)"
    and "same_tables (w'\<lparr>db_oauth_states := db_oauth_states w\<rparr>) w"
proof -
  obtain r where s: "send (take_state_row h (timestamptz now)) w = (r, w')" and r: "r = Inr s"
    using assms by (auto simp: GoogleOAuthRepository_TakeState_def split: prod.splits)
  from s r obtain w1 where 1: "same_tables w w1" and t: "take_state_row h (timestamptz now) w1 = (Inr s, w')"
    by (elim send_cases) auto
  from t have sel: "select_row (takeable_state h (timestamptz now)) (db_oauth_states w1) = Some s"
    and w': "w' = w1\<lparr>db_oauth_states := filter (\<lambda>s. \<not> takeable_state h (timestamptz now) s) (db_oauth_states w1)\<rparr>"
    by (auto simp: take_state_row_def)
  show "s \<in> set (db_oauth_states w)" "gs_StateHash s = h" "timestamptz now < gs_ExpiresAt s"
    using select_row_Some [OF sel] 1 by (auto simp: takeable_state_def same_tables_def After_def)
  show "db_oauth_states w' = filter (\<lambda>s. \<not> takeable_state h (timestamptz now) s) (db_oauth_states w)"
    using w' 1 by (simp add: same_tables_def)
  show "same_tables (w'\<lparr>db_oauth_states := db_oauth_states w\<rparr>) w"
    using w' 1 by (simp add: same_tables_def)
qed

lemma TakeCode_Inr:
  assumes "GoogleOAuthRepository_TakeCode h now w = (Inr n, w')"
  shows "\<exists>c\<in>set (db_oauth_codes w). takeable_code h (timestamptz now) c \<and> gc_UserID c = n"
    and "db_oauth_codes w' = update_rows (takeable_code h (timestamptz now)) (\<lambda>c. c\<lparr>gc_UsedAt := Some (timestamptz now)\<rparr>)
           (db_oauth_codes w)"
    and "same_tables (w'\<lparr>db_oauth_codes := db_oauth_codes w\<rparr>) w"
proof -
  obtain r where s: "send (take_code_row h (timestamptz now)) w = (r, w')" and r: "r = Inr n"
    using assms by (auto simp: GoogleOAuthRepository_TakeCode_def split: prod.splits)
  from s r obtain w1 where 1: "same_tables w w1" and t: "take_code_row h (timestamptz now) w1 = (Inr n, w')"
    by (elim send_cases) auto
  from t obtain c where sel: "select_row (takeable_code h (timestamptz now)) (db_oauth_codes w1) = Some c"
    and n: "gc_UserID c = n"
    and w': "w' = w1\<lparr>db_oauth_codes := update_rows (takeable_code h (timestamptz now))
        (\<lambda>c. c\<lparr>gc_UsedAt := Some (timestamptz now)\<rparr>) (db_oauth_codes w1)\<rparr>"
    by (auto simp: take_code_row_def)
  show "\<exists>c\<in>set (db_oauth_codes w). takeable_code h (timestamptz now) c \<and> gc_UserID c = n"
    using select_row_Some [OF sel] 1 n by (auto simp: same_tables_def)
  show "db_oauth_codes w' = update_rows (takeable_code h (timestamptz now)) (\<lambda>c. c\<lparr>gc_UsedAt := Some (timestamptz now)\<rparr>)
           (db_oauth_codes w)"
    using w' 1 by (simp add: same_tables_def)
  show "same_tables (w'\<lparr>db_oauth_codes := db_oauth_codes w\<rparr>) w"
    using w' 1 by (simp add: same_tables_def)
qed

lemma TakeState_none:
  assumes "\<forall>s\<in>set (db_oauth_states w). \<not> takeable_state h (timestamptz now) s"
    and "GoogleOAuthRepository_TakeState h now w = (r, w')"
  shows "\<exists>e. r = Inl e"
proof (cases r)
  case (Inr s)
  with assms(2) have "GoogleOAuthRepository_TakeState h now w = (Inr s, w')" by simp
  then have "s \<in> set (db_oauth_states w)" "takeable_state h (timestamptz now) s"
    by (auto simp: takeable_state_def After_def dest: TakeState_Inr(1,2,3))
  with assms(1) show ?thesis by blast
qed simp

lemma TakeCode_none:
  assumes "\<forall>c\<in>set (db_oauth_codes w). \<not> takeable_code h (timestamptz now) c"
    and "GoogleOAuthRepository_TakeCode h now w = (r, w')"
  shows "\<exists>e. r = Inl e"
proof (cases r)
  case (Inr n)
  with assms(2) have "GoogleOAuthRepository_TakeCode h now w = (Inr n, w')" by simp
  then show ?thesis using TakeCode_Inr(1) assms(1) by blast
qed simp

end
