(* ===== verification/EventRepo.thy ===== *)
theory EventRepo
  imports Database
begin

text \<open>
  \<open>internal/repository/event.go\<close>: inserting events, alone and in batches, with the unique
  index on \<open>(user_id, idempotency_key)\<close>, and listing them newest first.
\<close>

record EventFilter =
  f_UserID :: int
  f_Types :: "string list"
  f_From :: "time option"
  f_To :: "time option"
  f_Limit :: int
  f_BeforeTime :: "time option"
  f_BeforeID :: "int option"

definition scanEvent :: "go_error + Event \<Rightarrow> go_error + Event" where
  "scanEvent = scan ''repository: scan event: ''"

section \<open>Inserting\<close>

definition key_taken :: "Event \<Rightarrow> Event list \<Rightarrow> bool" where
  "key_taken e rows \<longleftrightarrow> ev_IdempotencyKey e \<noteq> None \<and>
     list_ex (\<lambda>r. ev_UserID r = ev_UserID e \<and> ev_IdempotencyKey r = ev_IdempotencyKey e) rows"

definition new_event_row :: "postgres \<Rightarrow> int \<Rightarrow> time \<Rightarrow> Event \<Rightarrow> Event" where
  "new_event_row pg n now e =
     e\<lparr>ev_ID := n,
       ev_Payload := (case pg_jsonb pg (ev_Payload e) of None \<Rightarrow> ev_Payload e | Some p \<Rightarrow> p),
       ev_OccurredAt := timestamptz (ev_OccurredAt e), ev_CreatedAt := now\<rparr>"

text \<open>
  \<open>INSERT ... ON CONFLICT (user_id, idempotency_key) ... DO NOTHING RETURNING\<close>: no row when
  the key is taken. The identity sequence moves on once the document is a \<open>jsonb\<close>.
\<close>

definition insert_event :: "postgres \<Rightarrow> Event \<Rightarrow> ('m db_scheme, Event) op" where
  "insert_event pg e w =
     (let n = db_events_seq w + 1;
          w1 = w\<lparr>db_events_seq := n\<rparr>;
          row = new_event_row pg n (db_now w) e
      in if pg_jsonb pg (ev_Payload e) = None then (Inl (PgError ''22P05'' ''''), w)
         else if ev_Type e = '''' \<or> char_length (ev_Type e) > 64
           then (Inl (PgError ''23514'' ''events_type_check''), w1)
         else if key_taken e (db_events w) then (Inl Pgx_ErrNoRows, w1)
         else if \<not> list_ex (\<lambda>u. user_ID u = ev_UserID e) (db_users w)
           then (Inl (PgError ''23503'' ''events_user_id_fkey''), w1)
         else (Inr row, w1\<lparr>db_events := db_events w @ [row]\<rparr>))"

definition byIdempotencyKey :: "int \<Rightarrow> string \<Rightarrow> ('m db_scheme, Event) op" where
  "byIdempotencyKey userID key w =
     (case send (\<lambda>w. (one_row (select_row
              (\<lambda>r. ev_UserID r = userID \<and> ev_IdempotencyKey r = Some key) (db_events w)), w)) w of
        (r, w1) \<Rightarrow> (scanEvent r, w1))"

definition EventRepository_Create :: "postgres \<Rightarrow> Event \<Rightarrow> ('m db_scheme, Event \<times> bool) op" where
  "EventRepository_Create pg e w =
     (case send (insert_event pg e) w of
        (r, w1) \<Rightarrow>
          (case scanEvent r of
             Inr created \<Rightarrow> (Inr (created, True), w1)
           | Inl err \<Rightarrow>
               (case ev_IdempotencyKey e of
                  None \<Rightarrow> (Inl err, w1)
                | Some key \<Rightarrow>
                    if \<not> errors_Is err Repo_ErrNotFound then (Inl err, w1)
                    else (case byIdempotencyKey (ev_UserID e) key w1 of
                            (Inl err2, w2) \<Rightarrow> (Inl err2, w2)
                          | (Inr existing, w2) \<Rightarrow> (Inr (existing, False), w2)))))"

text \<open>The loop of \<open>CreateBatch\<close>, inside its transaction.\<close>

fun batch_loop :: "postgres \<Rightarrow> Event list \<Rightarrow> Event list \<Rightarrow> int \<Rightarrow> ('m db_scheme, Event list \<times> int) op" where
  "batch_loop pg [] stored duplicates w = (Inr (stored, duplicates), w)"
| "batch_loop pg (e # es) stored duplicates w =
     (case send (insert_event pg e) w of
        (r, w1) \<Rightarrow>
          (case scanEvent r of
             Inr created \<Rightarrow> batch_loop pg es (stored @ [created]) duplicates w1
           | Inl err \<Rightarrow>
               if errors_Is err Repo_ErrNotFound
               then batch_loop pg es stored (duplicates + 1) w1
               else (Inl err, w1)))"

definition EventRepository_CreateBatch ::
    "postgres \<Rightarrow> Event list \<Rightarrow> ('m db_scheme, Event list \<times> int) op" where
  "EventRepository_CreateBatch pg events w =
     (if events = [] then (Inr ([], 0), w)
      else in_tx ''repository: begin event batch: '' ''repository: commit event batch: ''
             (batch_loop pg events [] 0) w)"

section \<open>Listing\<close>

definition event_key :: "Event \<Rightarrow> time \<times> int" where
  "event_key e = (ev_OccurredAt e, ev_ID e)"

text \<open>
  The \<open>WHERE\<close> clause. A nil \<open>[]string\<close> is SQL's NULL, so no types means any type. A row
  comparison with a NULL id is true only where the times already decide it.
\<close>

definition before_cursor :: "time option \<Rightarrow> int option \<Rightarrow> Event \<Rightarrow> bool" where
  "before_cursor bt bid e =
     (case bt of
        None \<Rightarrow> True
      | Some t \<Rightarrow>
          (case bid of
             None \<Rightarrow> ev_OccurredAt e < t
           | Some i \<Rightarrow> ev_OccurredAt e < t \<or> (ev_OccurredAt e = t \<and> ev_ID e < i)))"

definition matches :: "EventFilter \<Rightarrow> Event \<Rightarrow> bool" where
  "matches f e \<longleftrightarrow>
     ev_UserID e = f_UserID f \<and>
     (f_Types f = [] \<or> list_ex (\<lambda>t. t = ev_Type e) (f_Types f)) \<and>
     opt_all (\<lambda>t. ev_OccurredAt e \<ge> timestamptz t) (f_From f) \<and>
     opt_all (\<lambda>t. ev_OccurredAt e < timestamptz t) (f_To f) \<and>
     before_cursor (map_option timestamptz (f_BeforeTime f)) (f_BeforeID f) e"

definition EventRepository_List :: "EventFilter \<Rightarrow> ('m db_scheme, Event list) op" where
  "EventRepository_List f w =
     (case send (\<lambda>w. (limit_rows (f_Limit f)
              (sort_desc event_key (filter (matches f) (db_events w))), w)) w of
        (r, w1) \<Rightarrow> (wrap_error ''repository: list events: '' r, w1))"

section \<open>The table's invariant\<close>

text \<open>
  What the schema promises of \<open>events\<close>: ids are distinct and not above the sequence, times
  have microseconds, and a
  user's idempotency key occurs once.
\<close>

definition idem_key :: "Event \<Rightarrow> (int \<times> string) option" where
  "idem_key e = map_option (\<lambda>k. (ev_UserID e, k)) (ev_IdempotencyKey e)"

definition keys_unique :: "Event list \<Rightarrow> bool" where
  "keys_unique rows \<longleftrightarrow> distinct (map idem_key (filter (\<lambda>e. ev_IdempotencyKey e \<noteq> None) rows))"

definition events_ok :: "'m db_scheme \<Rightarrow> bool" where
  "events_ok w \<longleftrightarrow>
     distinct (map ev_ID (db_events w)) \<and>
     (\<forall>e\<in>set (db_events w). ev_ID e \<le> db_events_seq w \<and>
        timestamptz (ev_OccurredAt e) = ev_OccurredAt e) \<and>
     keys_unique (db_events w)"

lemma key_taken_iff:
  "key_taken e rows \<longleftrightarrow> (\<exists>r\<in>set rows. ev_IdempotencyKey r \<noteq> None \<and> idem_key r = idem_key e)"
  by (cases "ev_IdempotencyKey e") (auto simp: key_taken_def list_ex_iff idem_key_def)

lemma keys_unique_snoc:
  "keys_unique (rows @ [e]) \<longleftrightarrow> keys_unique rows \<and> \<not> key_taken e rows"
proof (cases "ev_IdempotencyKey e")
  case None
  then show ?thesis by (simp add: keys_unique_def key_taken_def)
next
  case (Some k)
  have "idem_key e \<in> idem_key ` {r \<in> set rows. ev_IdempotencyKey r \<noteq> None} \<longleftrightarrow> key_taken e rows"
    unfolding key_taken_iff by (auto simp: image_iff)
  with Some show ?thesis by (auto simp: keys_unique_def)
qed

lemma new_event_row_sel [simp]:
  "ev_ID (new_event_row pg n now e) = n"
  "ev_UserID (new_event_row pg n now e) = ev_UserID e"
  "ev_Type (new_event_row pg n now e) = ev_Type e"
  "ev_OccurredAt (new_event_row pg n now e) = timestamptz (ev_OccurredAt e)"
  "ev_CreatedAt (new_event_row pg n now e) = now"
  "ev_IdempotencyKey (new_event_row pg n now e) = ev_IdempotencyKey e"
  "key_taken (new_event_row pg n now e) rows = key_taken e rows"
  by (simp_all add: new_event_row_def key_taken_def)

lemma round_trip_seq: "round_trip w = (f, w') \<Longrightarrow> db_events_seq w' = db_events_seq w"
  by (auto simp: round_trip_def split: list.splits)

text \<open>A statement either changes no event row, or adds one row at the end.\<close>

lemma insert_event_Inr:
  assumes "insert_event pg e w = (Inr row, w')"
  shows "row = new_event_row pg (db_events_seq w + 1) (db_now w) e"
    and "db_events w' = db_events w @ [row]" and "db_events_seq w' = db_events_seq w + 1"
    and "\<not> key_taken e (db_events w)" and "\<exists>u\<in>set (db_users w). user_ID u = ev_UserID e"
    and "same_tables (w'\<lparr>db_events := db_events w\<rparr>) w" and "db_faults w' = db_faults w"
  using assms by (auto simp: insert_event_def Let_def list_ex_iff same_tables_def split: if_splits)

lemma insert_event_Inl:
  assumes "insert_event pg e w = (Inl err, w')"
  shows "same_tables w w'" and "db_events_seq w \<le> db_events_seq w'"
    and "err = Pgx_ErrNoRows \<Longrightarrow> key_taken e (db_events w)"
    and "err = Pgx_ErrNoRows \<or> (\<exists>c k. err = PgError c k)"
  using assms by (auto simp: insert_event_def Let_def same_tables_def split: if_splits)

lemma events_ok_insert:
  assumes "events_ok w" and "insert_event pg e w = (Inr row, w')"
  shows "events_ok w'"
proof -
  have rows: "db_events w' = db_events w @ [row]" and sq: "db_events_seq w' = db_events_seq w + 1"
    and row: "row = new_event_row pg (db_events_seq w + 1) (db_now w) e"
    and free: "\<not> key_taken e (db_events w)"
    using insert_event_Inr [OF assms(2)] by blast+
  have "\<forall>r\<in>set (db_events w). ev_ID r \<noteq> ev_ID row"
    using assms(1) by (auto simp: events_ok_def row)
  moreover have "\<forall>r\<in>set (db_events w). ev_ID r \<le> db_events_seq w'"
    using assms(1) sq by (auto simp: events_ok_def)
  ultimately show ?thesis
    using assms(1) free by (auto simp: events_ok_def rows sq row keys_unique_snoc)
qed

lemma events_ok_seq:
  assumes "events_ok w" and "db_events w' = db_events w" and "db_events_seq w \<le> db_events_seq w'"
  shows "events_ok w'"
  using assms by (auto simp: events_ok_def)

lemma send_insert_ok:
  assumes "events_ok w" and "send (insert_event pg e) w = (r, w')"
  shows "events_ok w'" and "db_events_seq w \<le> db_events_seq w'"
proof -
  have "events_ok w' \<and> db_events_seq w \<le> db_events_seq w'"
  proof (cases "round_trip w")
    case (Pair f w1)
    have 1: "db_events w1 = db_events w" "db_events_seq w1 = db_events_seq w"
      using round_trip_same [OF Pair] round_trip_seq [OF Pair] by (auto simp: same_tables_def)
    have ok1: "events_ok w1" using assms(1) 1 by (auto intro: events_ok_seq)
    show ?thesis
    proof (cases f)
      case None
      then have i: "insert_event pg e w1 = (r, w')"
        using assms(2) Pair by (simp add: send_def)
      show ?thesis
      proof (cases r)
        case (Inl err)
        then show ?thesis
          using insert_event_Inl(1,2) [of pg e w1 err w'] i 1 assms(1)
          by (auto simp: same_tables_def intro: events_ok_seq)
      next
        case (Inr row)
        then show ?thesis
          using insert_event_Inr(3) [of pg e w1 row w'] events_ok_insert [OF ok1] i 1 by auto
      qed
    next
      case (Some x)
      then show ?thesis using assms Pair ok1 1 by (auto simp: send_def)
    qed
  qed
  then show "events_ok w'" and "db_events_seq w \<le> db_events_seq w'" by auto
qed

text \<open>\<open>Create\<close>: what it returns and what it does to the table.\<close>

lemma Create_new:
  assumes "EventRepository_Create pg e w = (Inr (row, True), w')"
  shows "\<exists>n. row = new_event_row pg n (db_now w) e"
    and "db_events w' = db_events w @ [row]" and "\<not> key_taken e (db_events w)"
proof -
  obtain w1 where s: "send (insert_event pg e) w = (Inr row, w')"
    using assms by (auto simp: EventRepository_Create_def scanEvent_def
        split: prod.splits sum.splits option.splits if_splits)
  then obtain w2 where 2: "same_tables w w2" and i: "insert_event pg e w2 = (Inr row, w')"
    by (elim send_cases) auto
  show "\<exists>n. row = new_event_row pg n (db_now w) e" "db_events w' = db_events w @ [row]"
    "\<not> key_taken e (db_events w)"
    using insert_event_Inr [OF i] 2 by (auto simp: same_tables_def)
qed

lemma byIdempotencyKey_same: "byIdempotencyKey u k w = (r, w') \<Longrightarrow> same_tables w w'"
  by (auto simp: byIdempotencyKey_def split: prod.splits elim!: send_cases)

lemma byIdempotencyKey_Inr:
  assumes "byIdempotencyKey u k w = (Inr row, w')"
  shows "row \<in> set (db_events w)" and "ev_UserID row = u" and "ev_IdempotencyKey row = Some k"
proof -
  obtain w1 where "same_tables w w1"
    and "select_row (\<lambda>r. ev_UserID r = u \<and> ev_IdempotencyKey r = Some k) (db_events w1) = Some row"
    using assms by (auto simp: byIdempotencyKey_def scanEvent_def split: prod.splits elim!: send_cases)
  then show "row \<in> set (db_events w)" "ev_UserID row = u" "ev_IdempotencyKey row = Some k"
    by (auto dest: select_row_Some simp: same_tables_def)
qed

lemma Create_repeat:
  assumes "EventRepository_Create pg e w = (Inr (row, False), w')"
  shows "db_events w' = db_events w" and "row \<in> set (db_events w)"
    and "ev_UserID row = ev_UserID e" and "ev_IdempotencyKey row = ev_IdempotencyKey e"
proof -
  obtain err w1 key where s: "send (insert_event pg e) w = (Inl err, w1)"
    and k: "ev_IdempotencyKey e = Some key"
    and b: "byIdempotencyKey (ev_UserID e) key w1 = (Inr row, w')"
    using assms by (auto simp: EventRepository_Create_def scanEvent_def scan_def
        split: prod.splits sum.splits option.splits if_splits)
  have 1: "same_tables w w1"
    using s by (auto elim!: send_cases dest: insert_event_Inl(1) intro: same_tables_trans)
  show "db_events w' = db_events w"
    using 1 byIdempotencyKey_same [OF b] by (simp add: same_tables_def)
  show "row \<in> set (db_events w)" "ev_UserID row = ev_UserID e"
    "ev_IdempotencyKey row = ev_IdempotencyKey e"
    using byIdempotencyKey_Inr [OF b] 1 k by (auto simp: same_tables_def)
qed

lemma Create_error:
  assumes "EventRepository_Create pg e w = (Inl err, w')"
  shows "db_events w' = db_events w"
proof -
  obtain r w1 where s: "send (insert_event pg e) w = (r, w1)" by fastforce
  have r: "\<exists>x. r = Inl x"
    using assms s by (cases r) (auto simp: EventRepository_Create_def scanEvent_def)
  then have 1: "same_tables w w1"
    using s by (auto elim!: send_cases dest: insert_event_Inl(1) intro: same_tables_trans)
  have "w' = w1 \<or> (\<exists>k r2. byIdempotencyKey (ev_UserID e) k w1 = (r2, w'))"
    using assms s by (auto simp: EventRepository_Create_def
        split: sum.splits option.splits if_splits prod.splits)
  then show ?thesis
    using same_tablesD(5) [OF 1] by (metis byIdempotencyKey_same same_tablesD(5))
qed

lemma Create_ok: "events_ok w \<Longrightarrow> EventRepository_Create pg e w = (r, w') \<Longrightarrow> events_ok w'"
proof -
  assume ok: "events_ok w" and c: "EventRepository_Create pg e w = (r, w')"
  obtain x w1 where s: "send (insert_event pg e) w = (x, w1)" by fastforce
  have ok1: "events_ok w1" using send_insert_ok(1) [OF ok s] .
  have "w' = w1 \<or> (\<exists>k r2. byIdempotencyKey (ev_UserID e) k w1 = (r2, w'))"
    using c s by (auto simp: EventRepository_Create_def
        split: sum.splits option.splits if_splits prod.splits)
  moreover have "events_ok w2" if "byIdempotencyKey u k w1 = (r2, w2)" for u k r2 w2
  proof -
    have "db_events_seq w2 = db_events_seq w1"
      using that by (auto simp: byIdempotencyKey_def send_def round_trip_def
          split: prod.splits option.splits list.splits)
    then show ?thesis
      using ok1 byIdempotencyKey_same [OF that] by (auto simp: same_tables_def intro: events_ok_seq)
  qed
  ultimately show "events_ok w'" using ok1 by blast
qed

section \<open>What \<open>List\<close> returns\<close>

lemma List_same: "EventRepository_List f w = (r, w') \<Longrightarrow> same_tables w w'"
  by (auto simp: EventRepository_List_def limit_rows_def split: prod.splits elim!: send_cases)

lemma List_Inr:
  assumes "EventRepository_List f w = (Inr es, w')"
  shows "es = take (nat (f_Limit f)) (sort_desc event_key (filter (matches f) (db_events w)))"
    and "0 \<le> f_Limit f"
proof -
  obtain w1 where "same_tables w w1"
    and "limit_rows (f_Limit f) (sort_desc event_key (filter (matches f) (db_events w1))) = Inr es"
    using assms by (auto simp: EventRepository_List_def split: prod.splits elim!: send_cases)
  then show "es = take (nat (f_Limit f)) (sort_desc event_key (filter (matches f) (db_events w)))"
    and "0 \<le> f_Limit f"
    by (auto simp: limit_rows_def same_tables_def split: if_splits)
qed

end
