(* ===== verification/GoBase64.thy ===== *)
theory GoBase64
  imports GoStrings
begin

text \<open>
  Go's \<open>base64.RawURLEncoding\<close>: the URL alphabet without padding. The decoder ignores
  carriage returns and line feeds, refuses any other byte outside the alphabet (the
  padding sign included), refuses a single left-over digit, and does not look at the
  unused bits of the last digit.
\<close>

definition b64_char :: "nat \<Rightarrow> char" where
  "b64_char n =
     (if n < 26 then char_of (65 + n)
      else if n < 52 then char_of (71 + n)
      else if n < 62 then char_of (n - 4)
      else if n = 62 then CHR ''-'' else CHR ''_'')"

definition b64_value :: "char \<Rightarrow> nat option" where
  "b64_value c =
     (let n = (of_char c :: nat)
      in if 65 \<le> n \<and> n \<le> 90 then Some (n - 65)
         else if 97 \<le> n \<and> n \<le> 122 then Some (n - 71)
         else if 48 \<le> n \<and> n \<le> 57 then Some (n + 4)
         else if n = 45 then Some 62
         else if n = 95 then Some 63
         else None)"

fun b64_encode :: "nat list \<Rightarrow> string" where
  "b64_encode [] = []"
| "b64_encode [a] = [b64_char (a div 4), b64_char (a mod 4 * 16)]"
| "b64_encode [a, b] =
     [b64_char (a div 4), b64_char (a mod 4 * 16 + b div 16), b64_char (b mod 16 * 4)]"
| "b64_encode (a # b # c # r) =
     b64_char (a div 4) # b64_char (a mod 4 * 16 + b div 16)
     # b64_char (b mod 16 * 4 + c div 64) # b64_char (c mod 64) # b64_encode r"

fun b64_decode :: "nat list \<Rightarrow> nat list option" where
  "b64_decode [] = Some []"
| "b64_decode [w] = None"
| "b64_decode [w, x] = Some [w * 4 + x div 16]"
| "b64_decode [w, x, y] = Some [w * 4 + x div 16, x mod 16 * 16 + y div 4]"
| "b64_decode (w # x # y # z # r) =
     map_option (\<lambda>out. (w * 4 + x div 16) # (x mod 16 * 16 + y div 4) # (y mod 4 * 64 + z) # out)
       (b64_decode r)"

fun b64_values :: "string \<Rightarrow> nat list option" where
  "b64_values [] = Some []"
| "b64_values (c # s) =
     (case b64_value c of
        None \<Rightarrow> None
      | Some v \<Rightarrow> map_option ((#) v) (b64_values s))"

definition RawURL_EncodeToString :: "string \<Rightarrow> string" where
  "RawURL_EncodeToString s = b64_encode (map of_char s)"

definition not_newline :: "char \<Rightarrow> bool" where
  "not_newline c \<longleftrightarrow> c \<noteq> char_of (10 :: nat) \<and> c \<noteq> char_of (13 :: nat)"

definition RawURL_DecodeString :: "string \<Rightarrow> string option" where
  "RawURL_DecodeString s =
     (case b64_values (filter not_newline s) of
        None \<Rightarrow> None
      | Some vs \<Rightarrow> map_option (map char_of) (b64_decode vs))"

text \<open>
  \<open>base64.URLEncoding.DecodeString\<close>: the same alphabet with padding. Groups of four; only
  the last one may be padded, with one or two \<open>=\<close>, and nothing may follow it.
\<close>

fun padded_decode :: "string \<Rightarrow> nat list option" where
  "padded_decode [] = Some []"
| "padded_decode [a, b, c, d] =
     (if d = CHR ''='' then
        (if c = CHR ''='' then Option.bind (b64_values [a, b]) b64_decode
         else Option.bind (b64_values [a, b, c]) b64_decode)
      else Option.bind (b64_values [a, b, c, d]) b64_decode)"
| "padded_decode (a # b # c # d # r) =
     (case Option.bind (b64_values [a, b, c, d]) b64_decode of
        None \<Rightarrow> None
      | Some bs \<Rightarrow> map_option ((@) bs) (padded_decode r))"
| "padded_decode _ = None"

definition URL_DecodeString :: "string \<Rightarrow> string option" where
  "URL_DecodeString s = map_option (map char_of) (padded_decode (filter not_newline s))"

section \<open>Decoding inverts encoding\<close>

lemma b64_value_char: "n < 64 \<Longrightarrow> b64_value (b64_char n) = Some n"
  by (auto simp: b64_char_def b64_value_def Let_def)

lemma b64_char_not_newline: "n < 64 \<Longrightarrow> not_newline (b64_char n)"
  by (auto simp: b64_char_def not_newline_def dest: arg_cong [where f = "of_char :: char \<Rightarrow> nat"])

fun b64_digits :: "nat list \<Rightarrow> nat list" where
  "b64_digits [] = []"
| "b64_digits [a] = [a div 4, a mod 4 * 16]"
| "b64_digits [a, b] = [a div 4, a mod 4 * 16 + b div 16, b mod 16 * 4]"
| "b64_digits (a # b # c # r) =
     (a div 4) # (a mod 4 * 16 + b div 16) # (b mod 16 * 4 + c div 64) # (c mod 64) # b64_digits r"

lemma b64_encode_digits: "b64_encode bs = map b64_char (b64_digits bs)"
  by (induction bs rule: b64_digits.induct) auto

lemma byte_split:
  "(a::nat) < 256 \<Longrightarrow> a div 4 < 64"
  "a mod 4 * 16 < (64::nat)"
  "b < 256 \<Longrightarrow> a mod 4 * 16 + b div 16 < (64::nat)"
  "b mod 16 * 4 < (64::nat)"
  "c < 256 \<Longrightarrow> b mod 16 * 4 + c div 64 < (64::nat)"
  "c mod 64 < (64::nat)"
proof -
  have m4: "a mod 4 < 4" and m16: "b mod 16 < 16" by simp_all
  show "a < 256 \<Longrightarrow> a div 4 < 64" by linarith
  show "a mod 4 * 16 < 64" using m4 by linarith
  show "b < 256 \<Longrightarrow> a mod 4 * 16 + b div 16 < 64"
  proof -
    assume "b < 256"
    then have "b div 16 < 16" by linarith
    with m4 show ?thesis by linarith
  qed
  show "b mod 16 * 4 < 64" using m16 by linarith
  show "c < 256 \<Longrightarrow> b mod 16 * 4 + c div 64 < 64"
  proof -
    assume "c < 256"
    then have "c div 64 < 4" by linarith
    with m16 show ?thesis by linarith
  qed
  show "c mod 64 < 64" by simp
qed

lemma b64_digits_range: "\<forall>b\<in>set bs. b < 256 \<Longrightarrow> \<forall>d\<in>set (b64_digits bs). d < 64"
  by (induction bs rule: b64_digits.induct) (simp_all add: byte_split)

lemma pack_div: "q < k \<Longrightarrow> (m * k + q) div k = (m::nat)"
  by simp

lemma pack_mod: "q < k \<Longrightarrow> (m * k + q) mod k = (q::nat)"
  by simp

lemma b64_join:
  "a div 4 * 4 + a mod 4 * 16 div 16 = (a::nat)"
  "b < 256 \<Longrightarrow> a div 4 * 4 + (a mod 4 * 16 + b div 16) div 16 = (a::nat)"
  "b < 256 \<Longrightarrow> (a mod 4 * 16 + b div 16) mod 16 * 16 + b mod 16 * 4 div 4 = (b::nat)"
  "b < 256 \<Longrightarrow> c < 256 \<Longrightarrow>
     (a mod 4 * 16 + b div 16) mod 16 * 16 + (b mod 16 * 4 + c div 64) div 4 = (b::nat)"
  "c < 256 \<Longrightarrow> (b mod 16 * 4 + c div 64) mod 4 * 64 + c mod 64 = (c::nat)"
proof -
  have b: "b div 16 < 16" if "b < 256" using that by linarith
  have c: "c div 64 < 4" if "c < 256" using that by linarith
  show "a div 4 * 4 + a mod 4 * 16 div 16 = a" by simp
  show "b < 256 \<Longrightarrow> a div 4 * 4 + (a mod 4 * 16 + b div 16) div 16 = a"
    using b by (simp only: pack_div div_mult_mod_eq)
  show "b < 256 \<Longrightarrow> (a mod 4 * 16 + b div 16) mod 16 * 16 + b mod 16 * 4 div 4 = b"
    using b by (simp only: pack_mod nonzero_mult_div_cancel_right div_mult_mod_eq)
  show "b < 256 \<Longrightarrow> c < 256 \<Longrightarrow>
     (a mod 4 * 16 + b div 16) mod 16 * 16 + (b mod 16 * 4 + c div 64) div 4 = b"
    using b c by (simp only: pack_mod pack_div div_mult_mod_eq)
  show "c < 256 \<Longrightarrow> (b mod 16 * 4 + c div 64) mod 4 * 64 + c mod 64 = c"
    using c by (simp only: pack_mod div_mult_mod_eq)
qed

lemma b64_decode_digits: "\<forall>b\<in>set bs. b < 256 \<Longrightarrow> b64_decode (b64_digits bs) = Some bs"
proof (induction bs rule: b64_digits.induct)
  case (2 a)
  show ?case by (simp only: b64_digits.simps b64_decode.simps b64_join)
next
  case (3 a b)
  then have "b < 256" by simp
  then show ?case by (simp only: b64_digits.simps b64_decode.simps b64_join)
next
  case (4 a b c r)
  then have bc: "b < 256" "c < 256" and r: "b64_decode (b64_digits r) = Some r" by simp_all
  show ?case
    by (simp only: b64_digits.simps b64_decode.simps r option.map b64_join bc)
qed simp

lemma b64_values_chars: "\<forall>d\<in>set ds. d < 64 \<Longrightarrow> b64_values (map b64_char ds) = Some ds"
  by (induction ds) (simp_all add: b64_value_char)

lemma b64_chars_not_newline:
  "\<forall>d\<in>set ds. d < 64 \<Longrightarrow> filter not_newline (map b64_char ds) = map b64_char ds"
  by (induction ds) (simp_all add: b64_char_not_newline)

lemma DecodeString_EncodeToString:
  "RawURL_DecodeString (RawURL_EncodeToString s) = Some s"
proof -
  have bytes: "\<forall>b\<in>set (map of_char s). b < (256::nat)"
    by (simp add: of_char_less_256)
  have "b64_encode (map of_char s) = map b64_char (b64_digits (map of_char s))"
    by (rule b64_encode_digits)
  then show ?thesis
    using b64_digits_range [OF bytes]
    by (simp add: RawURL_DecodeString_def RawURL_EncodeToString_def b64_chars_not_newline
        b64_values_chars b64_decode_digits [OF bytes] o_def)
qed

end
