(* ===== verification/GoJSON.thy ===== *)
theory GoJSON
  imports GoStrings
begin

text \<open>
  What \<open>json.Unmarshal(data, &object)\<close> into a \<open>map[string]any\<close> accepts. Go's decoder runs
  its scanner over every byte first: a state machine with a stack of what is being parsed,
  one step per byte. \<open>jscan\<close> is that machine, with the number literals collected on the way,
  because a number too large for a \<open>float64\<close> is an error as well. The nesting limit of
  10000 is out of reach of the payloads the program passes, which have 8192 bytes at most.
\<close>

datatype jctx = ObjectKey | ObjectValue | ArrayValue

datatype jstate =
    BeginValue
  | BeginValueOrEmpty
  | BeginString
  | BeginStringOrEmpty
  | InString
  | InStringEsc
  | InStringEscU nat
  | Neg
  | Digits0
  | Digits1
  | Dot
  | Dot0
  | Exp
  | ExpSign
  | Exp0
  | Literal string
  | EndValue
  | EndTop
  | Failed

record scanner =
  sc_step :: jstate
  sc_stack :: "jctx list"
  sc_number :: string
  sc_numbers :: "string list"

definition json_space :: "char \<Rightarrow> bool" where
  "json_space c \<longleftrightarrow> c = CHR '' '' \<or> c = CHR 0x09 \<or> c = CHR 0x0D \<or> c = CHR 0x0A"

definition is_hex :: "char \<Rightarrow> bool" where
  "is_hex c \<longleftrightarrow> is_digit c \<or> (let n = (of_char c :: nat) in (97 \<le> n \<and> n \<le> 102) \<or> (65 \<le> n \<and> n \<le> 70))"

definition goto :: "jstate \<Rightarrow> scanner \<Rightarrow> scanner" where
  "goto st s = s\<lparr>sc_step := st\<rparr>"

text \<open>\<open>stateEndValue\<close>: a value has ended and \<open>c\<close> is the byte after it.\<close>

definition end_value :: "char \<Rightarrow> scanner \<Rightarrow> scanner" where
  "end_value c s =
     (case sc_stack s of
        [] \<Rightarrow> goto (if json_space c then EndTop else Failed) s
      | ctx # rest \<Rightarrow>
          if json_space c then goto EndValue s
          else (case ctx of
                  ObjectKey \<Rightarrow>
                    if c = CHR '':'' then goto BeginValue (s\<lparr>sc_stack := ObjectValue # rest\<rparr>)
                    else goto Failed s
                | ObjectValue \<Rightarrow>
                    if c = CHR '','' then goto BeginString (s\<lparr>sc_stack := ObjectKey # rest\<rparr>)
                    else if c = CHR ''}'' then goto EndValue (s\<lparr>sc_stack := rest\<rparr>)
                    else goto Failed s
                | ArrayValue \<Rightarrow>
                    if c = CHR '','' then goto BeginValue s
                    else if c = CHR '']'' then goto EndValue (s\<lparr>sc_stack := rest\<rparr>)
                    else goto Failed s))"

definition begin_value :: "char \<Rightarrow> scanner \<Rightarrow> scanner" where
  "begin_value c s =
     (if json_space c then s
      else if c = CHR ''{'' then goto BeginStringOrEmpty (s\<lparr>sc_stack := ObjectKey # sc_stack s\<rparr>)
      else if c = CHR ''['' then goto BeginValueOrEmpty (s\<lparr>sc_stack := ArrayValue # sc_stack s\<rparr>)
      else if c = CHR 0x22 then goto InString s
      else if c = CHR ''-'' then goto Neg (s\<lparr>sc_number := [c]\<rparr>)
      else if c = CHR ''0'' then goto Digits0 (s\<lparr>sc_number := [c]\<rparr>)
      else if is_digit c then goto Digits1 (s\<lparr>sc_number := [c]\<rparr>)
      else if c = CHR ''t'' then goto (Literal ''rue'') s
      else if c = CHR ''f'' then goto (Literal ''alse'') s
      else if c = CHR ''n'' then goto (Literal ''ull'') s
      else goto Failed s)"

definition begin_string :: "char \<Rightarrow> scanner \<Rightarrow> scanner" where
  "begin_string c s =
     (if json_space c then s else if c = CHR 0x22 then goto InString s else goto Failed s)"

text \<open>One more byte of a number, and the byte after a number.\<close>

definition grow :: "jstate \<Rightarrow> char \<Rightarrow> scanner \<Rightarrow> scanner" where
  "grow st c s = goto st (s\<lparr>sc_number := sc_number s @ [c]\<rparr>)"

definition end_number :: "char \<Rightarrow> scanner \<Rightarrow> scanner" where
  "end_number c s =
     end_value c (s\<lparr>sc_number := [], sc_numbers := sc_numbers s @ [sc_number s]\<rparr>)"

definition is_e :: "char \<Rightarrow> bool" where
  "is_e c \<longleftrightarrow> c = CHR ''e'' \<or> c = CHR ''E''"

definition after_digits :: "char \<Rightarrow> scanner \<Rightarrow> scanner" where
  "after_digits c s =
     (if c = CHR ''.'' then grow Dot c s else if is_e c then grow Exp c s else end_number c s)"

fun jstep :: "jstate \<Rightarrow> char \<Rightarrow> scanner \<Rightarrow> scanner" where
  "jstep BeginValue c s = begin_value c s"
| "jstep BeginValueOrEmpty c s =
     (if json_space c then s
      else if c = CHR '']'' then end_value c s else begin_value c (goto BeginValue s))"
| "jstep BeginString c s = begin_string c s"
| "jstep BeginStringOrEmpty c s =
     (if json_space c then s
      else if c = CHR ''}'' then end_value c (s\<lparr>sc_stack := ObjectValue # tl (sc_stack s)\<rparr>)
      else begin_string c s)"
| "jstep InString c s =
     (if c = CHR 0x22 then goto EndValue s
      else if c = CHR 0x5C then goto InStringEsc s
      else if (of_char c :: nat) < 32 then goto Failed s
      else s)"
| "jstep InStringEsc c s =
     (if c \<in> {CHR ''b'', CHR ''f'', CHR ''n'', CHR ''r'', CHR ''t'', CHR 0x5C, CHR ''/'', CHR 0x22}
        then goto InString s
      else if c = CHR ''u'' then goto (InStringEscU 3) s
      else goto Failed s)"
| "jstep (InStringEscU n) c s =
     (if is_hex c then goto (case n of 0 \<Rightarrow> InString | Suc m \<Rightarrow> InStringEscU m) s else goto Failed s)"
| "jstep Neg c s =
     (if c = CHR ''0'' then grow Digits0 c s
      else if is_digit c then grow Digits1 c s else goto Failed s)"
| "jstep Digits1 c s = (if is_digit c then grow Digits1 c s else after_digits c s)"
| "jstep Digits0 c s = after_digits c s"
| "jstep Dot c s = (if is_digit c then grow Dot0 c s else goto Failed s)"
| "jstep Dot0 c s =
     (if is_digit c then grow Dot0 c s else if is_e c then grow Exp c s else end_number c s)"
| "jstep Exp c s =
     (if c = CHR ''+'' \<or> c = CHR ''-'' then grow ExpSign c s
      else if is_digit c then grow Exp0 c s else goto Failed s)"
| "jstep ExpSign c s = (if is_digit c then grow Exp0 c s else goto Failed s)"
| "jstep Exp0 c s = (if is_digit c then grow Exp0 c s else end_number c s)"
| "jstep (Literal cs) c s =
     (case cs of
        [] \<Rightarrow> goto Failed s
      | d # ds \<Rightarrow> if c \<noteq> d then goto Failed s else goto (if ds = [] then EndValue else Literal ds) s)"
| "jstep EndValue c s = end_value c s"
| "jstep EndTop c s = (if json_space c then s else goto Failed s)"
| "jstep Failed c s = s"

definition jscan :: "string \<Rightarrow> scanner" where
  "jscan data =
     foldl (\<lambda>s c. jstep (sc_step s) c s)
       \<lparr>sc_step = BeginValue, sc_stack = [], sc_number = [], sc_numbers = []\<rparr>
       (data @ '' '')"

text \<open>The space at the end is \<open>scanner.eof\<close>, which feeds one to see whether a value ended.\<close>

definition json_valid :: "string \<Rightarrow> bool" where
  "json_valid data \<longleftrightarrow> sc_step (jscan data) = EndTop"

section \<open>Numbers\<close>

text \<open>
  \<open>strconv.ParseFloat\<close> reports a range error when the value rounds to infinity: from
  \<open>2 ^ 1024 - 2 ^ 970\<close> on, half a unit above the largest \<open>float64\<close>. The literal is read as
  \<open>d * 10 ^ e\<close>; its number of digits decides first, so that no power gets out of hand.
\<close>

definition decimal :: "string \<Rightarrow> int" where
  "decimal s = foldl (\<lambda>a c. 10 * a + (of_char c - 48)) 0 (filter is_digit s)"

text \<open>The digits of the mantissa and the exponent that belongs to its last digit.\<close>

definition number_parts :: "string \<Rightarrow> string \<times> int" where
  "number_parts lit =
     (let (mant, ex) = (takeWhile (\<lambda>c. \<not> is_e c) lit, drop 1 (dropWhile (\<lambda>c. \<not> is_e c) lit));
          (whole, frac, _) = Cut mant (CHR ''.'');
          e = (if HasPrefix ex ''-'' then - decimal ex else decimal ex)
      in (dropWhile (\<lambda>c. c = CHR ''0'') (filter is_digit (whole @ frac)), e - int (length frac)))"

definition float64_overflow :: "string \<Rightarrow> bool" where
  "float64_overflow lit =
     (let (ds, e) = number_parts lit;
          n = int (length ds) + e;
          bound = 2 ^ 1024 - 2 ^ 970
      in if ds = [] \<or> n < 300 then False
         else if n > 400 then True
         else if 0 \<le> e then decimal ds * 10 ^ nat e \<ge> bound
         else decimal ds \<ge> bound * 10 ^ nat (- e))"

text \<open>\<open>json.Unmarshal\<close> into a \<open>map[string]any\<close> returns no error.\<close>

definition Unmarshal_object_ok :: "string \<Rightarrow> bool" where
  "Unmarshal_object_ok data \<longleftrightarrow>
     json_valid data \<and> HasPrefix (dropWhile json_space data) ''{'' \<and>
     list_all (\<lambda>lit. \<not> float64_overflow lit) (sc_numbers (jscan data))"

end
