(* ===== verification/EventService.thy ===== *)
theory EventService
  imports EventRepo GoBase64 GoJSON
begin

text \<open>
  \<open>internal/service/event.go\<close>: recording events, alone and in batches, and paging through
  them. The service talks to a repository, a publisher, the metrics and the clock through
  interfaces; an interface is the record of its methods over the state \<open>'w\<close> of whatever
  stands behind it. Nil publishers and metrics are \<open>None\<close>. What the service logs changes no
  state and is left out.
\<close>

definition MaxBatchEvents :: int where "MaxBatchEvents = 100"
definition DefaultPageSize :: int where "DefaultPageSize = 50"
definition MaxPageSize :: int where "MaxPageSize = 200"
definition maxIdempotencyKeyLen :: nat where "maxIdempotencyKeyLen = 128"
definition maxClockSkew :: duration where "maxClockSkew = 5 * Minute"
definition maxEventAge :: duration where "maxEventAge = 90 * 24 * Hour"

record 'w EventRepository =
  er_Create :: "Event \<Rightarrow> ('w, Event \<times> bool) op"
  er_CreateBatch :: "Event list \<Rightarrow> ('w, Event list \<times> int) op"
  er_List :: "EventFilter \<Rightarrow> ('w, Event list) op"

record 'w EventService =
  es_events :: "'w EventRepository"
  es_publisher :: "(Event \<Rightarrow> 'w \<Rightarrow> 'w) option"
  es_metrics :: "(bool \<Rightarrow> 'w \<Rightarrow> 'w) option"
  es_now :: "'w \<Rightarrow> time \<times> 'w"

record EventInput =
  ei_Type :: string
  ei_Payload :: string
  ei_OccurredAt :: "time option"
  ei_IdempotencyKey :: string

record EventQuery =
  eq_UserID :: int
  eq_Types :: "string list"
  eq_From :: "time option"
  eq_To :: "time option"
  eq_Limit :: int
  eq_Cursor :: string

record EventPage =
  ep_Items :: "Event list"
  ep_NextCursor :: string

record BatchResult =
  br_Created :: "Event list"
  br_Duplicates :: int

section \<open>Cursors and page sizes\<close>

definition pageSize :: "int \<Rightarrow> int" where
  "pageSize limit =
     (if limit \<le> 0 then DefaultPageSize
      else if limit > MaxPageSize then MaxPageSize else limit)"

definition encodeCursor :: "Event \<Rightarrow> string" where
  "encodeCursor e =
     (let raw = FormatInt (UnixNano (UTC (ev_OccurredAt e))) @ '':'' @ FormatInt (ev_ID e)
      in RawURL_EncodeToString raw)"

definition decodeCursor :: "string \<Rightarrow> go_error + (time \<times> int)" where
  "decodeCursor cursor =
     (case RawURL_DecodeString cursor of
        None \<Rightarrow> Inl Svc_ErrInvalidCursor
      | Some raw \<Rightarrow>
          (case Cut raw (CHR '':'') of
             (occurredAt, i, found) \<Rightarrow>
               if \<not> found then Inl Svc_ErrInvalidCursor
               else (case ParseInt occurredAt of
                       None \<Rightarrow> Inl Svc_ErrInvalidCursor
                     | Some nanos \<Rightarrow>
                         (case ParseInt i of
                            None \<Rightarrow> Inl Svc_ErrInvalidCursor
                          | Some parsedID \<Rightarrow> Inr (UTC (time_Unix 0 nanos), parsedID)))))"

section \<open>Normalising an input\<close>

definition normalizePayload :: "string \<Rightarrow> go_error + string" where
  "normalizePayload payload =
     (let trimmed = TrimSpace payload
      in if length trimmed = 0 \<or> trimmed = ''null'' then Inr ''{}''
         else if length trimmed > MaxPayloadBytes then Inl Svc_ErrInvalidEventPayload
         else if \<not> Unmarshal_object_ok trimmed then Inl Svc_ErrInvalidEventPayload
         else Inr trimmed)"

definition normalize ::
    "(string \<Rightarrow> string) \<Rightarrow> 'w EventService \<Rightarrow> int \<Rightarrow> EventInput \<Rightarrow> ('w, Event) op" where
  "normalize uni s userID inp w =
     (let eventType = NormalizeEventType uni (ei_Type inp)
      in if eventType = '''' \<or> length eventType > MaxEventTypeLen
           then (Inl Svc_ErrInvalidEventType, w)
         else (case normalizePayload (ei_Payload inp) of
                 Inl err \<Rightarrow> (Inl err, w)
               | Inr payload \<Rightarrow>
                   (case es_now s w of
                      (now, w1) \<Rightarrow>
                        (let occurredAt = (case ei_OccurredAt inp of None \<Rightarrow> now | Some t \<Rightarrow> UTC t)
                         in if After occurredAt (Add now maxClockSkew) \<or>
                               Before occurredAt (Add now (- maxEventAge))
                              then (Inl Svc_ErrEventTimeOutOfRange, w1)
                            else
                              (let event = \<lparr>ev_ID = 0, ev_UserID = userID, ev_Type = eventType,
                                     ev_Payload = payload, ev_OccurredAt = occurredAt,
                                     ev_CreatedAt = 0, ev_IdempotencyKey = None\<rparr>;
                                   key = TrimSpace (ei_IdempotencyKey inp)
                               in if key \<noteq> '''' then
                                    (if length key > maxIdempotencyKeyLen
                                       then (Inl Svc_ErrInvalidIdempotencyKey, w1)
                                     else (Inr (event\<lparr>ev_IdempotencyKey := Some key\<rparr>), w1))
                                  else (Inr event, w1))))))"

section \<open>Recording\<close>

definition publish :: "'w EventService \<Rightarrow> Event \<Rightarrow> 'w \<Rightarrow> 'w" where
  "publish s e w = (case es_publisher s of None \<Rightarrow> w | Some p \<Rightarrow> p e w)"

definition record_metric :: "'w EventService \<Rightarrow> bool \<Rightarrow> 'w \<Rightarrow> 'w" where
  "record_metric s created w = (case es_metrics s of None \<Rightarrow> w | Some m \<Rightarrow> m created w)"

definition Event_Record ::
    "(string \<Rightarrow> string) \<Rightarrow> 'w EventService \<Rightarrow> int \<Rightarrow> EventInput \<Rightarrow> ('w, Event \<times> bool) op" where
  "Event_Record uni s userID inp w =
     (case normalize uni s userID inp w of
        (Inl err, w1) \<Rightarrow> (Inl err, w1)
      | (Inr event, w1) \<Rightarrow>
          (case er_Create (es_events s) event w1 of
             (Inl err, w2) \<Rightarrow> (Inl err, w2)
           | (Inr (stored, created), w2) \<Rightarrow>
               (let w3 = record_metric s created w2
                in (Inr (stored, created), if created then publish s stored w3 else w3))))"

text \<open>
  The loop over a batch: \<open>i\<close> is the index of the next item, \<open>keys\<close> the map of keys seen so
  far, \<open>events\<close> what has been normalised.
\<close>

fun normalize_batch ::
    "(string \<Rightarrow> string) \<Rightarrow> 'w EventService \<Rightarrow> int \<Rightarrow> int \<Rightarrow> string list \<Rightarrow> Event list \<Rightarrow>
     EventInput list \<Rightarrow> ('w, Event list) op" where
  "normalize_batch uni s userID i keys events [] w = (Inr events, w)"
| "normalize_batch uni s userID i keys events (item # items) w =
     (case normalize uni s userID item w of
        (Inl err, w1) \<Rightarrow> (Inl (Wrapped (''event '' @ FormatInt i @ '': '') err ''''), w1)
      | (Inr event, w1) \<Rightarrow>
          (case ev_IdempotencyKey event of
             None \<Rightarrow> normalize_batch uni s userID (i + 1) keys (events @ [event]) items w1
           | Some key \<Rightarrow>
               if key \<in> set keys
               then (Inl (Wrapped (''event '' @ FormatInt i @ '': '')
                       Svc_ErrDuplicateIdempotencyKey ''''), w1)
               else normalize_batch uni s userID (i + 1) (keys @ [key]) (events @ [event]) items w1))"

definition RecordBatch ::
    "(string \<Rightarrow> string) \<Rightarrow> 'w EventService \<Rightarrow> int \<Rightarrow> EventInput list \<Rightarrow> ('w, BatchResult) op" where
  "RecordBatch uni s userID inputs w =
     (if length inputs = 0 then (Inl Svc_ErrEmptyBatch, w)
      else if int (length inputs) > MaxBatchEvents
        then (Inl (Wrapped '''' Svc_ErrBatchTooLarge ('': '' @ FormatInt (int (length inputs)) @
                '' events, the limit is '' @ FormatInt MaxBatchEvents)), w)
      else (case normalize_batch uni s userID 0 [] [] inputs w of
              (Inl err, w1) \<Rightarrow> (Inl err, w1)
            | (Inr events, w1) \<Rightarrow>
                (case er_CreateBatch (es_events s) events w1 of
                   (Inl err, w2) \<Rightarrow> (Inl err, w2)
                 | (Inr (created, duplicates), w2) \<Rightarrow>
                     (let w3 = fold (\<lambda>e w. publish s e (record_metric s True w)) created w2;
                          w4 = ((record_metric s False) ^^ nat duplicates) w3
                      in (Inr \<lparr>br_Created = created, br_Duplicates = duplicates\<rparr>, w4)))))"

section \<open>Listing\<close>

definition query_types :: "(string \<Rightarrow> string) \<Rightarrow> string list \<Rightarrow> string list" where
  "query_types uni types = filter (\<lambda>t. t \<noteq> '''') (map (NormalizeEventType uni) types)"

definition Event_List ::
    "(string \<Rightarrow> string) \<Rightarrow> 'w EventService \<Rightarrow> EventQuery \<Rightarrow> ('w, EventPage) op" where
  "Event_List uni s q w =
     (let flt = \<lparr>f_UserID = eq_UserID q, f_Types = [], f_From = eq_From q, f_To = eq_To q,
                 f_Limit = pageSize (eq_Limit q), f_BeforeTime = None, f_BeforeID = None\<rparr>
      in if (case (eq_From q, eq_To q) of (Some from, Some to) \<Rightarrow> \<not> Before from to | _ \<Rightarrow> False)
           then (Inl Svc_ErrInvalidTimeRange, w)
         else
           (let flt = flt\<lparr>f_Types := query_types uni (eq_Types q)\<rparr>
            in case (if eq_Cursor q \<noteq> ''''
                     then (case decodeCursor (eq_Cursor q) of
                             Inl err \<Rightarrow> Inl err
                           | Inr (occurredAt, i) \<Rightarrow>
                               Inr (flt\<lparr>f_BeforeTime := Some occurredAt, f_BeforeID := Some i\<rparr>))
                     else Inr flt) of
                 Inl err \<Rightarrow> (Inl err, w)
               | Inr flt \<Rightarrow>
                   (let flt = flt\<lparr>f_Limit := f_Limit flt + 1\<rparr>
                    in case er_List (es_events s) flt w of
                         (Inl err, w1) \<Rightarrow> (Inl err, w1)
                       | (Inr events, w1) \<Rightarrow>
                           (if int (length events) = f_Limit flt
                            then (let items = take (nat (f_Limit flt - 1)) events
                                  in (Inr \<lparr>ep_Items = items,
                                           ep_NextCursor = encodeCursor (last items)\<rparr>, w1))
                            else (Inr \<lparr>ep_Items = events, ep_NextCursor = ''''\<rparr>, w1)))))"

text \<open>The repository of this program behind the interface.\<close>

definition event_repository :: "postgres \<Rightarrow> 'm db_scheme EventRepository" where
  "event_repository pg =
     \<lparr>er_Create = EventRepository_Create pg, er_CreateBatch = EventRepository_CreateBatch pg,
      er_List = EventRepository_List\<rparr>"

end
