(* ===== verification/AggRepo.thy ===== *)
theory AggRepo
  imports Database
begin

text \<open>
  \<open>internal/repository/aggregation.go\<close>: folding the events of one window into
  \<open>activity_buckets\<close>, the history of runs, and the two read sides, per window and per day.
\<close>

section \<open>Aggregating one window\<close>

definition bucket_key :: "ActivityBucket \<Rightarrow> int \<times> time" where
  "bucket_key b = (ab_UserID b, ab_BucketStart b)"

record per_type_row =
  pt_user :: int
  pt_type :: string
  pt_cnt :: int
  pt_first :: time
  pt_last :: time

definition in_window :: "time \<Rightarrow> time \<Rightarrow> Event \<Rightarrow> bool" where
  "in_window start fin e \<longleftrightarrow> start \<le> ev_OccurredAt e \<and> ev_OccurredAt e < fin"

definition user_type :: "Event \<Rightarrow> int \<times> string" where
  "user_type e = (ev_UserID e, ev_Type e)"

text \<open>\<open>min\<close> and \<open>max\<close> over a group, which has a row.\<close>

definition group_min :: "time list \<Rightarrow> time" where
  "group_min ts = fold min (tl ts) (hd ts)"

definition group_max :: "time list \<Rightarrow> time" where
  "group_max ts = fold max (tl ts) (hd ts)"

definition per_type :: "time \<Rightarrow> time \<Rightarrow> Event list \<Rightarrow> per_type_row list" where
  "per_type start fin events =
     (let rows = filter (in_window start fin) events
      in map (\<lambda>k. let g = group user_type k rows
                  in \<lparr>pt_user = fst k, pt_type = snd k, pt_cnt = int (length g),
                      pt_first = group_min (map ev_OccurredAt g),
                      pt_last = group_max (map ev_OccurredAt g)\<rparr>)
             (group_keys user_type rows))"

definition rolled :: "time \<Rightarrow> time \<Rightarrow> per_type_row list \<Rightarrow> ActivityBucket list" where
  "rolled start now rows =
     map (\<lambda>u. let g = group pt_user u rows
              in \<lparr>ab_UserID = u, ab_BucketStart = start,
                  ab_EventCount = sum_list (map pt_cnt g),
                  ab_TypeCounts = map (\<lambda>r. (pt_type r, pt_cnt r)) g,
                  ab_FirstEventAt = group_min (map pt_first g),
                  ab_LastEventAt = group_max (map pt_last g),
                  ab_ComputedAt = now\<rparr>)
         (group_keys pt_user rows)"

text \<open>\<open>INSERT ... ON CONFLICT (user_id, bucket_start) DO UPDATE\<close>.\<close>

fun upsert_bucket :: "ActivityBucket \<Rightarrow> ActivityBucket list \<Rightarrow> ActivityBucket list" where
  "upsert_bucket b [] = [b]"
| "upsert_bucket b (r # rows) =
     (if bucket_key r = bucket_key b
      then r\<lparr>ab_EventCount := ab_EventCount b, ab_TypeCounts := ab_TypeCounts b,
             ab_FirstEventAt := ab_FirstEventAt b, ab_LastEventAt := ab_LastEventAt b,
             ab_ComputedAt := ab_ComputedAt b\<rparr> # rows
      else r # upsert_bucket b rows)"

definition aggregate_rows :: "time \<Rightarrow> time \<Rightarrow> ('m db_scheme, int) op" where
  "aggregate_rows start fin w =
     (let bs = rolled start (db_now w) (per_type start fin (db_events w))
      in (Inr (int (length bs)),
          w\<lparr>db_activity_buckets := fold upsert_bucket bs (db_activity_buckets w)\<rparr>))"

text \<open>
  \<open>pg_try_advisory_xact_lock\<close> on the hash of \<open>aggregation:\<close> and the window's start in RFC 3339,
  which has seconds: false when another transaction holds the lock of that key.
\<close>

definition tryLockBucket :: "time \<Rightarrow> ('m db_scheme, bool) op" where
  "tryLockBucket bucket w =
     (case send (\<lambda>w. (Inr (\<not> list_ex (\<lambda>b. b = Truncate bucket Second) (db_locked_buckets w)), w)) w of
        (r, w1) \<Rightarrow> (wrap_error ''repository: lock aggregation bucket: '' r, w1))"

definition Aggregate_body :: "time \<Rightarrow> time \<Rightarrow> ('m db_scheme, int) op" where
  "Aggregate_body start fin w =
     (case tryLockBucket start w of
        (Inl err, w1) \<Rightarrow> (Inl err, w1)
      | (Inr locked, w1) \<Rightarrow>
          if \<not> locked then (Inl Repo_ErrBucketLocked, w1)
          else (case send (aggregate_rows start fin) w1 of
                  (r, w2) \<Rightarrow> (wrap_error ''repository: aggregate bucket: '' r, w2)))"

definition Aggregate_tx :: "time \<Rightarrow> time \<Rightarrow> ('m db_scheme, int) op" where
  "Aggregate_tx start fin =
     in_tx ''repository: begin aggregation: '' ''repository: commit aggregation: ''
       (Aggregate_body start fin)"

definition AggregationRepository_Aggregate :: "time \<Rightarrow> time \<Rightarrow> ('m db_scheme, int) op" where
  "AggregationRepository_Aggregate start fin = Aggregate_tx (timestamptz start) (timestamptz fin)"

section \<open>The history of runs\<close>

definition scanRun :: "go_error + AggregationRun \<Rightarrow> go_error + AggregationRun" where
  "scanRun = scan ''repository: scan aggregation run: ''"

definition stored_run :: "int \<Rightarrow> AggregationRun \<Rightarrow> AggregationRun" where
  "stored_run n run =
     run\<lparr>run_ID := n, run_BucketStart := timestamptz (run_BucketStart run),
         run_BucketEnd := timestamptz (run_BucketEnd run),
         run_StartedAt := timestamptz (run_StartedAt run),
         run_FinishedAt := map_option timestamptz (run_FinishedAt run)\<rparr>"

definition insert_run :: "AggregationRun \<Rightarrow> ('m db_scheme, AggregationRun) op" where
  "insert_run run w =
     (let n = db_runs_seq w + 1;
          w1 = w\<lparr>db_runs_seq := n\<rparr>;
          row = stored_run n run
      in if \<not> After (run_BucketEnd row) (run_BucketStart row)
           then (Inl (PgError ''23514'' ''aggregation_runs_window_check''), w1)
         else (Inr row, w1\<lparr>db_aggregation_runs := db_aggregation_runs w @ [row]\<rparr>))"

definition AggregationRepository_RecordRun :: "AggregationRun \<Rightarrow> ('m db_scheme, AggregationRun) op" where
  "AggregationRepository_RecordRun run w =
     (case send (insert_run run) w of (r, w1) \<Rightarrow> (scanRun r, w1))"

definition succeeded :: "AggregationRun \<Rightarrow> bool" where
  "succeeded r \<longleftrightarrow> run_Status r = RunSucceeded"

definition last_succeeded :: "AggregationRun list \<Rightarrow> time option" where
  "last_succeeded runs = max_time (map run_BucketStart (filter succeeded runs))"

definition AggregationRepository_LastSucceededBucket :: "('m db_scheme, time option) op" where
  "AggregationRepository_LastSucceededBucket w =
     (case send (\<lambda>w. (Inr (last_succeeded (db_aggregation_runs w)), w)) w of
        (r, w1) \<Rightarrow> (wrap_error ''repository: read last aggregated bucket: '' r, w1))"

definition AggregationRepository_EarliestEvent :: "('m db_scheme, time option) op" where
  "AggregationRepository_EarliestEvent w =
     (case send (\<lambda>w. (Inr (min_time (map ev_OccurredAt (db_events w))), w)) w of
        (r, w1) \<Rightarrow> (wrap_error ''repository: read earliest event: '' r, w1))"

definition run_key :: "AggregationRun \<Rightarrow> time \<times> int" where
  "run_key r = (run_StartedAt r, run_ID r)"

definition AggregationRepository_ListRuns :: "int \<Rightarrow> ('m db_scheme, AggregationRun list) op" where
  "AggregationRepository_ListRuns limit w =
     (case send (\<lambda>w. (limit_rows limit (sort_desc run_key (db_aggregation_runs w)), w)) w of
        (r, w1) \<Rightarrow> (wrap_error ''repository: list aggregation runs: '' r, w1))"

section \<open>Reading the buckets\<close>

definition bucket_in_range :: "int \<Rightarrow> time \<Rightarrow> time \<Rightarrow> ActivityBucket \<Rightarrow> bool" where
  "bucket_in_range userID from to b \<longleftrightarrow>
     ab_UserID b = userID \<and> from \<le> ab_BucketStart b \<and> ab_BucketStart b < to"

definition AggregationRepository_Buckets ::
    "int \<Rightarrow> time \<Rightarrow> time \<Rightarrow> ('m db_scheme, ActivityBucket list) op" where
  "AggregationRepository_Buckets userID from to w =
     (case send (\<lambda>w. (Inr (sort_desc ab_BucketStart
              (filter (bucket_in_range userID (timestamptz from) (timestamptz to))
                (db_activity_buckets w))), w)) w of
        (r, w1) \<Rightarrow> (wrap_error ''repository: list activity buckets: '' r, w1))"

text \<open>
  \<open>Daily\<close>: \<open>jsonb_each_text\<close> turns every bucket into one row per type, with the UTC day of
  its start; the rows are summed up per day and type, and those per day.
\<close>

definition day_of :: "time \<Rightarrow> time" where
  "day_of t = Truncate t (24 * Hour)"

definition day_type_rows :: "ActivityBucket list \<Rightarrow> ((time \<times> string) \<times> int) list" where
  "day_type_rows bs =
     concat (map (\<lambda>b. map (\<lambda>(t, n). ((day_of (ab_BucketStart b), t), n)) (ab_TypeCounts b)) bs)"

definition per_day_type :: "ActivityBucket list \<Rightarrow> ((time \<times> string) \<times> int) list" where
  "per_day_type bs =
     map (\<lambda>k. (k, sum_list (map snd (group fst k (day_type_rows bs)))))
       (group_keys fst (day_type_rows bs))"

definition days_of :: "((time \<times> string) \<times> int) list \<Rightarrow> DailyActivity list" where
  "days_of rows =
     sort_desc da_Day
       (map (\<lambda>d. let g = group (\<lambda>r. fst (fst r)) d rows
                 in \<lparr>da_Day = d, da_EventCount = sum_list (map snd g),
                     da_TypeCounts = map (\<lambda>r. (snd (fst r), snd r)) g\<rparr>)
            (group_keys (\<lambda>r. fst (fst r)) rows))"

definition AggregationRepository_Daily ::
    "int \<Rightarrow> time \<Rightarrow> time \<Rightarrow> ('m db_scheme, DailyActivity list) op" where
  "AggregationRepository_Daily userID from to w =
     (case send (\<lambda>w. (Inr (days_of (per_day_type
              (filter (bucket_in_range userID (timestamptz from) (timestamptz to))
                (db_activity_buckets w)))), w)) w of
        (r, w1) \<Rightarrow> (wrap_error ''repository: roll buckets up into days: '' r, w1))"

section \<open>What the aggregation query computes\<close>

text \<open>The events of one user in the window, and the bucket that describes them.\<close>

definition user_window :: "time \<Rightarrow> time \<Rightarrow> int \<Rightarrow> Event list \<Rightarrow> Event list" where
  "user_window start fin u events =
     filter (\<lambda>e. ev_UserID e = u \<and> start \<le> ev_OccurredAt e \<and> ev_OccurredAt e < fin) events"

definition describes :: "ActivityBucket \<Rightarrow> Event list \<Rightarrow> bool" where
  "describes b evs \<longleftrightarrow>
     ab_EventCount b = int (length evs) \<and>
     distinct (map fst (ab_TypeCounts b)) \<and>
     (\<forall>t. map_of (ab_TypeCounts b) t =
        (let n = length (filter (\<lambda>e. ev_Type e = t) evs)
         in if n = 0 then None else Some (int n))) \<and>
     ab_FirstEventAt b = Min (ev_OccurredAt ` set evs) \<and>
     ab_LastEventAt b = Max (ev_OccurredAt ` set evs)"

definition bucket_at :: "int \<Rightarrow> time \<Rightarrow> ActivityBucket list \<Rightarrow> ActivityBucket option" where
  "bucket_at u s rows = select_row (\<lambda>b. bucket_key b = (u, s)) rows"

lemma group_min_Min: "ts \<noteq> [] \<Longrightarrow> group_min ts = Min (set ts)"
  by (cases ts) (simp_all add: group_min_def Min.set_eq_fold [symmetric])

lemma group_max_Max: "ts \<noteq> [] \<Longrightarrow> group_max ts = Max (set ts)"
  by (cases ts) (simp_all add: group_max_def Max.set_eq_fold [symmetric])

lemma Min_of_Mins:
  assumes "finite S" and "S \<noteq> {}" and "\<And>k. k \<in> f ` S \<Longrightarrow> m k = Min (g ` {x \<in> S. f x = k})"
  shows "Min (m ` f ` S) = (Min (g ` S) :: int)"
proof (rule Min_eqI)
  show "finite (m ` f ` S)" using assms(1) by simp
  show "Min (g ` S) \<le> y" if y: "y \<in> m ` f ` S" for y
  proof -
    obtain x where x: "x \<in> S" "y = m (f x)" using y by auto
    have "Min (g ` {z \<in> S. f z = f x}) \<in> g ` {z \<in> S. f z = f x}"
      using assms(1) x by (intro Min_in) auto
    with x assms show ?thesis by auto
  qed
  have "Min (g ` S) \<in> g ` S" using assms by (intro Min_in) auto
  then obtain x where x: "x \<in> S" "g x = Min (g ` S)" by auto
  have "m (f x) = Min (g ` {z \<in> S. f z = f x})" using x assms(3) by blast
  also have "\<dots> = Min (g ` S)"
    using x assms(1) by (intro Min_eqI) (auto intro: image_eqI [where x = x])
  finally show "Min (g ` S) \<in> m ` f ` S" using x(1) by (metis imageI)
qed

lemma Max_of_Maxs:
  assumes "finite S" and "S \<noteq> {}" and "\<And>k. k \<in> f ` S \<Longrightarrow> m k = Max (g ` {x \<in> S. f x = k})"
  shows "Max (m ` f ` S) = (Max (g ` S) :: int)"
proof (rule Max_eqI)
  show "finite (m ` f ` S)" using assms(1) by simp
  show "y \<le> Max (g ` S)" if y: "y \<in> m ` f ` S" for y
  proof -
    obtain x where x: "x \<in> S" "y = m (f x)" using y by auto
    have "Max (g ` {z \<in> S. f z = f x}) \<in> g ` {z \<in> S. f z = f x}"
      using assms(1) x by (intro Max_in) auto
    with x assms show ?thesis by auto
  qed
  have "Max (g ` S) \<in> g ` S" using assms by (intro Max_in) auto
  then obtain x where x: "x \<in> S" "g x = Max (g ` S)" by auto
  have "m (f x) = Max (g ` {z \<in> S. f z = f x})" using x assms(3) by blast
  also have "\<dots> = Max (g ` S)"
    using x assms(1) by (intro Max_eqI) (auto intro: image_eqI [where x = x])
  finally show "Max (g ` S) \<in> m ` f ` S" using x(1) by (metis imageI)
qed

text \<open>The rows of \<open>per_type\<close> for one user are one row per type of that user's events.\<close>

definition type_row :: "int \<Rightarrow> Event list \<Rightarrow> string \<Rightarrow> per_type_row" where
  "type_row u evs t =
     (let g = filter (\<lambda>e. ev_Type e = t) evs
      in \<lparr>pt_user = u, pt_type = t, pt_cnt = int (length g),
          pt_first = group_min (map ev_OccurredAt g), pt_last = group_max (map ev_OccurredAt g)\<rparr>)"

definition user_types :: "time \<Rightarrow> time \<Rightarrow> int \<Rightarrow> Event list \<Rightarrow> string list" where
  "user_types start fin u events =
     map snd (filter (\<lambda>k. fst k = u) (group_keys user_type (filter (in_window start fin) events)))"

lemma group_user_type:
  "group user_type (u, t) (filter (in_window start fin) events) =
     filter (\<lambda>e. ev_Type e = t) (user_window start fin u events)"
  by (auto simp: group_def user_window_def user_type_def in_window_def intro!: filter_cong)

lemma group_per_type:
  "group pt_user u (per_type start fin events) =
     map (type_row u (user_window start fin u events)) (user_types start fin u events)"
  by (auto simp: group_def per_type_def user_types_def filter_map o_def Let_def type_row_def
      group_user_type [symmetric] intro!: map_cong)

lemma distinct_user_types: "distinct (user_types start fin u events)"
  unfolding user_types_def distinct_map
  by (auto simp: inj_on_def)

lemma set_user_types:
  "set (user_types start fin u events) = ev_Type ` set (user_window start fin u events)"
  by (force simp: user_types_def user_window_def user_type_def in_window_def)

lemma describes_rolled_row:
  assumes ne: "user_window start fin u events \<noteq> []"
    and b: "b = \<lparr>ab_UserID = u, ab_BucketStart = start,
        ab_EventCount = sum_list (map pt_cnt (group pt_user u (per_type start fin events))),
        ab_TypeCounts = map (\<lambda>r. (pt_type r, pt_cnt r)) (group pt_user u (per_type start fin events)),
        ab_FirstEventAt = group_min (map pt_first (group pt_user u (per_type start fin events))),
        ab_LastEventAt = group_max (map pt_last (group pt_user u (per_type start fin events))),
        ab_ComputedAt = now\<rparr>"
  shows "describes b (user_window start fin u events)"
proof -
  let ?evs = "user_window start fin u events" and ?ts = "user_types start fin u events"
  let ?n = "\<lambda>t. length (filter (\<lambda>e. ev_Type e = t) ?evs)"
  have ts: "set ?ts = ev_Type ` set ?evs" by (rule set_user_types)
  then have ts_ne: "?ts \<noteq> []" using ne by auto
  have grp: "filter (\<lambda>e. ev_Type e = t) ?evs \<noteq> []" if "t \<in> set ?ts" for t
    using that ts by (auto simp: filter_empty_conv)
  have cnt: "ab_EventCount b = int (length ?evs)"
    using sum_list_group_length [OF distinct_user_types, of ev_Type ?evs] ts
    by (simp add: b group_per_type o_def type_row_def Let_def)
  have counts: "ab_TypeCounts b = map (\<lambda>t. (t, int (?n t))) ?ts"
    by (simp add: b group_per_type o_def type_row_def Let_def)
  have keys: "distinct (map fst (ab_TypeCounts b))"
    by (simp add: counts o_def distinct_user_types)
  have zero: "?n t = 0 \<longleftrightarrow> t \<notin> set ?ts" for t
    using ts by (auto simp: filter_empty_conv)
  have types: "map_of (ab_TypeCounts b) t = (if ?n t = 0 then None else Some (int (?n t)))" for t
    unfolding counts map_of_map_restrict zero by (simp add: restrict_map_def)
  have "ab_FirstEventAt b = Min ((\<lambda>t. group_min (map ev_OccurredAt (filter (\<lambda>e. ev_Type e = t) ?evs))) ` set ?ts)"
    using ts_ne by (simp add: b group_per_type o_def type_row_def Let_def group_min_Min)
  also have "\<dots> = Min (ev_OccurredAt ` set ?evs)"
    unfolding ts using ne grp ts by (intro Min_of_Mins) (simp_all add: group_min_Min)
  finally have first: "ab_FirstEventAt b = Min (ev_OccurredAt ` set ?evs)" .
  have "ab_LastEventAt b = Max ((\<lambda>t. group_max (map ev_OccurredAt (filter (\<lambda>e. ev_Type e = t) ?evs))) ` set ?ts)"
    using ts_ne by (simp add: b group_per_type o_def type_row_def Let_def group_max_Max)
  also have "\<dots> = Max (ev_OccurredAt ` set ?evs)"
    unfolding ts using ne grp ts by (intro Max_of_Maxs) (simp_all add: group_max_Max)
  finally have last: "ab_LastEventAt b = Max (ev_OccurredAt ` set ?evs)" .
  show ?thesis
    using cnt keys types first last by (simp add: describes_def Let_def)
qed

section \<open>The upsert\<close>

lemma upsert_merge:
  "bucket_key r = bucket_key b \<Longrightarrow>
    r\<lparr>ab_EventCount := ab_EventCount b, ab_TypeCounts := ab_TypeCounts b,
      ab_FirstEventAt := ab_FirstEventAt b, ab_LastEventAt := ab_LastEventAt b,
      ab_ComputedAt := ab_ComputedAt b\<rparr> = b"
  by (cases r; cases b) (simp add: bucket_key_def)

lemma upsert_Cons:
  "upsert_bucket b (r # rows) =
     (if bucket_key r = bucket_key b then b # rows else r # upsert_bucket b rows)"
  by (simp add: upsert_merge)

lemmas upsert_simps = upsert_bucket.simps(1) upsert_Cons

declare upsert_bucket.simps [simp del]
declare upsert_simps [simp]

lemma bucket_at_upsert:
  "bucket_at u s (upsert_bucket b rows) =
     (if bucket_key b = (u, s) then Some b else bucket_at u s rows)"
  by (induction rows) (auto simp: bucket_at_def)

lemma keys_upsert:
  "bucket_key ` set (upsert_bucket b rows) = insert (bucket_key b) (bucket_key ` set rows)"
  by (induction rows) auto

lemma distinct_upsert:
  "distinct (map bucket_key rows) \<Longrightarrow> distinct (map bucket_key (upsert_bucket b rows))"
  proof (induction rows)
  case (Cons r rows)
  have "bucket_key r \<notin> bucket_key ` set (upsert_bucket b rows)" if "bucket_key r \<noteq> bucket_key b"
    using Cons.prems that by (simp add: keys_upsert)
  with Cons show ?case by auto
qed simp

lemma set_upsert: "set (upsert_bucket b rows) \<subseteq> insert b (set rows)"
  by (induction rows) auto

lemma set_fold_upsert: "set (fold upsert_bucket bs rows) \<subseteq> set bs \<union> set rows"
proof (induction bs arbitrary: rows)
  case (Cons b bs)
  then show ?case using set_upsert [of b rows] by fastforce
qed simp

lemma distinct_fold_upsert:
  "distinct (map bucket_key rows) \<Longrightarrow> distinct (map bucket_key (fold upsert_bucket bs rows))"
  by (induction bs arbitrary: rows) (auto simp: distinct_upsert)

lemma bucket_at_None: "bucket_at u s rows = None \<longleftrightarrow> (u, s) \<notin> bucket_key ` set rows"
  unfolding bucket_at_def select_row_None by (metis imageE imageI)

lemma bucket_at_simps:
  "bucket_at u s [] = None"
  "bucket_at u s (b # bs) = (if bucket_key b = (u, s) then Some b else bucket_at u s bs)"
  by (simp_all add: bucket_at_def)

lemma bucket_at_fold:
  assumes "distinct (map bucket_key bs)"
  shows "bucket_at u s (fold upsert_bucket bs rows) =
    (case bucket_at u s bs of Some b \<Rightarrow> Some b | None \<Rightarrow> bucket_at u s rows)"
  using assms
proof (induction bs arbitrary: rows)
  case Nil
  then show ?case by (simp add: bucket_at_def)
next
  case (Cons b bs)
  have "bucket_at u s (fold upsert_bucket (b # bs) rows) =
      (case bucket_at u s bs of Some b \<Rightarrow> Some b | None \<Rightarrow> bucket_at u s (upsert_bucket b rows))"
    using Cons by simp
  moreover have "bucket_at u s bs = None" if "bucket_key b = (u, s)"
    using Cons.prems that by (auto simp: bucket_at_None)
  ultimately show ?case
    by (auto simp: bucket_at_upsert bucket_at_simps split: option.splits)
qed

lemma upsert_same: "bucket_at u s rows = Some b \<Longrightarrow> upsert_bucket b rows = rows"
proof (induction rows)
  case (Cons r rows)
  then show ?case
    by (cases "bucket_key r = (u, s)")
      (auto simp: bucket_at_def dest: select_row_Some)
qed (simp add: bucket_at_def)

lemma fold_upsert_same:
  assumes "\<forall>b\<in>set bs. bucket_at (ab_UserID b) (ab_BucketStart b) rows = Some b"
  shows "fold upsert_bucket bs rows = rows"
  using assms
proof (induction bs)
  case (Cons b bs)
  then have "upsert_bucket b rows = rows" by (auto intro: upsert_same)
  with Cons show ?case by simp
qed simp

lemma keys_rolled:
  "map bucket_key (rolled start now rows) = map (\<lambda>u. (u, start)) (group_keys pt_user rows)"
  by (simp add: rolled_def Let_def bucket_key_def o_def)

lemma distinct_rolled: "distinct (map bucket_key (rolled start now rows))"
  unfolding keys_rolled distinct_map by (auto simp: inj_on_def)

lemma users_per_type:
  "set (group_keys pt_user (per_type start fin events)) =
     {u. user_window start fin u events \<noteq> []}"
  by (force simp: per_type_def Let_def user_type_def user_window_def in_window_def filter_empty_conv)


lemma bucket_at_rolled:
  assumes "user_window start fin u events \<noteq> []"
  shows "\<exists>b. bucket_at u start (rolled start now (per_type start fin events)) = Some b \<and>
    describes b (user_window start fin u events)"
proof -
  let ?rows = "rolled start now (per_type start fin events)"
  let ?b = "\<lparr>ab_UserID = u, ab_BucketStart = start,
        ab_EventCount = sum_list (map pt_cnt (group pt_user u (per_type start fin events))),
        ab_TypeCounts = map (\<lambda>r. (pt_type r, pt_cnt r)) (group pt_user u (per_type start fin events)),
        ab_FirstEventAt = group_min (map pt_first (group pt_user u (per_type start fin events))),
        ab_LastEventAt = group_max (map pt_last (group pt_user u (per_type start fin events))),
        ab_ComputedAt = now\<rparr>"
  have "u \<in> set (group_keys pt_user (per_type start fin events))"
    using assms unfolding users_per_type by simp
  then have "?b \<in> set ?rows" unfolding rolled_def Let_def by auto
  then have "select_row (\<lambda>x. bucket_key x = bucket_key ?b) ?rows = Some ?b"
    by (rule select_row_unique [OF distinct_rolled])
  then have "bucket_at u start ?rows = Some ?b"
    by (simp add: bucket_at_def bucket_key_def)
  with describes_rolled_row [OF assms refl] show ?thesis by blast
qed

lemma bucket_at_rolled_None:
  assumes "user_window start fin u events = [] \<or> s \<noteq> start"
  shows "bucket_at u s (rolled start now (per_type start fin events)) = None"
proof -
  have "bucket_key ` set (rolled start now (per_type start fin events)) =
      (\<lambda>u. (u, start)) ` {u. user_window start fin u events \<noteq> []}"
    by (metis keys_rolled users_per_type list.set_map)
  with assms show ?thesis by (auto simp: bucket_at_None)
qed

section \<open>The transaction as a whole\<close>

lemma tryLockBucket_Inr:
  assumes "tryLockBucket b w = (Inr l, w')"
  shows "same_tables w w'" and "l \<longleftrightarrow> Truncate b Second \<notin> set (db_locked_buckets w)"
proof -
  obtain w1 where "same_tables w w1" and "w' = w1" and "l = (\<not> list_ex (\<lambda>x. x = Truncate b Second) (db_locked_buckets w1))"
    using assms by (auto simp: tryLockBucket_def split: prod.splits elim!: send_cases)
  then show "same_tables w w'" and "l \<longleftrightarrow> Truncate b Second \<notin> set (db_locked_buckets w)"
    by (auto simp: same_tables_def list_ex_iff)
qed

lemma Aggregate_Inr:
  assumes "Aggregate_tx start fin w = (Inr n, w')"
  shows "db_activity_buckets w' =
      fold upsert_bucket (rolled start (db_now w) (per_type start fin (db_events w)))
        (db_activity_buckets w)"
    and "n = int (length (rolled start (db_now w) (per_type start fin (db_events w))))"
    and "Truncate start Second \<notin> set (db_locked_buckets w)"
    and "same_tables (w'\<lparr>db_activity_buckets := db_activity_buckets w\<rparr>) w"
proof -
  obtain w0 w1 where 0: "same_tables w w0" and body: "Aggregate_body start fin w0 = (Inr n, w1)"
    and 1: "same_tables w1 w'"
    using assms unfolding Aggregate_tx_def by (elim in_tx_Inr)
  obtain l wa where lock: "tryLockBucket start w0 = (Inr l, wa)" and l: "l"
    and s: "send (aggregate_rows start fin) wa = (Inr n, w1)"
    using body by (auto simp: Aggregate_body_def split: prod.splits sum.splits if_splits)
  from s obtain wb where b: "same_tables wa wb" and r: "aggregate_rows start fin wb = (Inr n, w1)"
    by (elim send_cases) auto
  have ab: "same_tables w wb"
    using 0 tryLockBucket_Inr(1) [OF lock] b by (blast intro: same_tables_trans)
  note eqs = same_tablesD [OF ab] same_tablesD [OF 1]
  show "db_activity_buckets w' =
      fold upsert_bucket (rolled start (db_now w) (per_type start fin (db_events w)))
        (db_activity_buckets w)"
    and "n = int (length (rolled start (db_now w) (per_type start fin (db_events w))))"
    using r by (auto simp: aggregate_rows_def Let_def eqs)
  show "Truncate start Second \<notin> set (db_locked_buckets w)"
    using tryLockBucket_Inr(2) [OF lock] l same_tablesD(8) [OF 0] by simp
  show "same_tables (w'\<lparr>db_activity_buckets := db_activity_buckets w\<rparr>) w"
    using r ab 1 by (auto simp: aggregate_rows_def Let_def same_tables_def)
qed

lemma Aggregate_Inl:
  "Aggregate_tx start fin w = (Inl e, w') \<Longrightarrow> same_tables w w'"
  unfolding Aggregate_tx_def by (rule in_tx_Inl_same)

lemma Aggregate_same_events:
  assumes "Aggregate_tx start fin w = (r, w')"
  shows "db_events w' = db_events w" and "db_aggregation_runs w' = db_aggregation_runs w"
proof -
  have "db_events w' = db_events w \<and> db_aggregation_runs w' = db_aggregation_runs w"
  proof (cases r)
    case (Inl e)
    with assms show ?thesis by (auto dest: Aggregate_Inl simp: same_tables_def)
  next
    case (Inr n)
    with assms show ?thesis by (auto dest: Aggregate_Inr(4) simp: same_tables_def)
  qed
  then show "db_events w' = db_events w" and "db_aggregation_runs w' = db_aggregation_runs w"
    by auto
qed

lemma Aggregate_bucket:
  assumes "Aggregate_tx start fin w = (Inr n, w')"
  shows "user_window start fin u (db_events w) \<noteq> [] \<Longrightarrow>
      \<exists>b. bucket_at u start (db_activity_buckets w') = Some b \<and>
        describes b (user_window start fin u (db_events w))"
    and "user_window start fin u (db_events w) = [] \<or> s \<noteq> start \<Longrightarrow>
      bucket_at u s (db_activity_buckets w') = bucket_at u s (db_activity_buckets w)"
proof -
  note eq = Aggregate_Inr(1) [OF assms] bucket_at_fold [OF distinct_rolled]
  show "user_window start fin u (db_events w) \<noteq> [] \<Longrightarrow>
      \<exists>b. bucket_at u start (db_activity_buckets w') = Some b \<and>
        describes b (user_window start fin u (db_events w))"
    using bucket_at_rolled [of start fin u "db_events w" "db_now w"] by (auto simp: eq)
  show "user_window start fin u (db_events w) = [] \<or> s \<noteq> start \<Longrightarrow>
      bucket_at u s (db_activity_buckets w') = bucket_at u s (db_activity_buckets w)"
    using bucket_at_rolled_None [of start fin u "db_events w" s "db_now w"] by (simp add: eq)
qed

text \<open>The number of users touched.\<close>

lemma length_rolled_card:
  "length (rolled start now (per_type start fin events)) =
     card {u. user_window start fin u events \<noteq> []}"
proof -
  have "length (rolled start now (per_type start fin events)) =
      card (set (group_keys pt_user (per_type start fin events)))"
    unfolding rolled_def length_map by (simp only: distinct_card [OF distinct_group_keys])
  then show ?thesis by (simp only: users_per_type)
qed

text \<open>Replaying a window: the same rows, but for the time they were computed at.\<close>

definition forget_computed :: "ActivityBucket \<Rightarrow> ActivityBucket" where
  "forget_computed b = b\<lparr>ab_ComputedAt := 0\<rparr>"

lemma key_forget [simp]: "bucket_key (forget_computed b) = bucket_key b"
  by (simp add: forget_computed_def bucket_key_def)

lemma map_forget_upsert:
  "map forget_computed (upsert_bucket b rows) =
     upsert_bucket (forget_computed b) (map forget_computed rows)"
proof (induction rows)
  case (Cons r rows)
  then show ?case by (simp add: forget_computed_def bucket_key_def)
qed simp

lemma map_forget_fold:
  "map forget_computed (fold upsert_bucket bs rows) =
     fold upsert_bucket (map forget_computed bs) (map forget_computed rows)"
  by (induction bs arbitrary: rows) (simp_all add: map_forget_upsert)

lemma forget_rolled: "map forget_computed (rolled start now rows) = rolled start 0 rows"
  by (simp add: rolled_def Let_def forget_computed_def)

lemma fold_upsert_idem:
  assumes "distinct (map bucket_key bs)"
  shows "fold upsert_bucket bs (fold upsert_bucket bs rows) = fold upsert_bucket bs rows"
proof (rule fold_upsert_same, rule ballI)
  fix b
  assume "b \<in> set bs"
  then have "bucket_at (ab_UserID b) (ab_BucketStart b) bs = Some b"
    using select_row_unique [OF assms] by (simp add: bucket_at_def bucket_key_def)
  then show "bucket_at (ab_UserID b) (ab_BucketStart b) (fold upsert_bucket bs rows) = Some b"
    by (simp add: bucket_at_fold [OF assms])
qed

lemma Aggregate_replay:
  assumes "Aggregate_tx start fin w = (Inr n, w1)"
    and "db_events w2 = db_events w1" and "db_activity_buckets w2 = db_activity_buckets w1"
    and "Aggregate_tx start fin w2 = (Inr m, w3)"
  shows "map forget_computed (db_activity_buckets w3) = map forget_computed (db_activity_buckets w1)"
    and "m = n"
proof -
  let ?bs = "rolled start 0 (per_type start fin (db_events w))"
  have ev: "db_events w2 = db_events w"
    using assms(2) Aggregate_same_events(1) [OF assms(1)] by simp
  have 1: "map forget_computed (db_activity_buckets w1) =
      fold upsert_bucket ?bs (map forget_computed (db_activity_buckets w))"
    by (simp add: Aggregate_Inr(1) [OF assms(1)] map_forget_fold forget_rolled)
  have "map forget_computed (db_activity_buckets w3) =
      fold upsert_bucket ?bs (map forget_computed (db_activity_buckets w1))"
    by (simp add: Aggregate_Inr(1) [OF assms(4)] assms(3) ev map_forget_fold forget_rolled)
  then show "map forget_computed (db_activity_buckets w3) = map forget_computed (db_activity_buckets w1)"
    unfolding 1 fold_upsert_idem [OF distinct_rolled] .
  show "m = n"
    using Aggregate_Inr(2) [OF assms(1)] Aggregate_Inr(2) [OF assms(4)]
    by (simp add: ev length_rolled_card)
qed

section \<open>The daily rollup\<close>

text \<open>
  The table's invariant: one row per user and window, whose count is the sum of its counts
  by type, each type once.
\<close>

definition bucket_ok :: "ActivityBucket \<Rightarrow> bool" where
  "bucket_ok b \<longleftrightarrow> ab_EventCount b = sum_list (map snd (ab_TypeCounts b)) \<and>
     distinct (map fst (ab_TypeCounts b))"

definition buckets_ok :: "ActivityBucket list \<Rightarrow> bool" where
  "buckets_ok rows \<longleftrightarrow> distinct (map bucket_key rows) \<and> list_all bucket_ok rows"

lemma rolled_ok:
  assumes "b \<in> set (rolled start now (per_type start fin events))"
  shows "bucket_ok b"
proof -
  obtain u where "u \<in> set (group_keys pt_user (per_type start fin events))"
    and b: "b = (let g = group pt_user u (per_type start fin events)
              in \<lparr>ab_UserID = u, ab_BucketStart = start,
                  ab_EventCount = sum_list (map pt_cnt g),
                  ab_TypeCounts = map (\<lambda>r. (pt_type r, pt_cnt r)) g,
                  ab_FirstEventAt = group_min (map pt_first g),
                  ab_LastEventAt = group_max (map pt_last g),
                  ab_ComputedAt = now\<rparr>)"
    using assms unfolding rolled_def by auto
  then have ne: "user_window start fin u events \<noteq> []"
    unfolding users_per_type by simp
  have "distinct (map fst (ab_TypeCounts b))"
    using describes_rolled_row [OF ne, of b now] b by (simp add: describes_def Let_def)
  then show ?thesis by (simp add: bucket_ok_def b Let_def o_def)
qed

lemma Aggregate_buckets_ok:
  assumes "buckets_ok (db_activity_buckets w)"
    and "Aggregate_tx start fin w = (r, w')"
  shows "buckets_ok (db_activity_buckets w')"
proof (cases r)
  case (Inl e)
  with assms show ?thesis by (auto dest!: Aggregate_Inl simp: same_tables_def)
next
  case (Inr n)
  with assms(2) have eq: "db_activity_buckets w' =
      fold upsert_bucket (rolled start (db_now w) (per_type start fin (db_events w)))
        (db_activity_buckets w)"
    by (simp add: Aggregate_Inr(1))
  have "\<forall>b\<in>set (db_activity_buckets w'). bucket_ok b"
    using set_fold_upsert rolled_ok assms(1) unfolding eq buckets_ok_def list_all_iff by fast
  then show ?thesis
    using assms(1) distinct_fold_upsert unfolding eq buckets_ok_def list_all_iff by blast
qed

lemma sum_day_type_rows:
  "sum_list (map snd (filter (\<lambda>r. P (fst (fst r))) (day_type_rows bs))) =
     sum_list (map (\<lambda>b. sum_list (map snd (ab_TypeCounts b)))
       (filter (\<lambda>b. P (day_of (ab_BucketStart b))) bs))"
proof (induction bs)
  case (Cons b bs)
  have "map snd (filter (\<lambda>r. P (fst (fst r)))
      (map (\<lambda>(t, n). ((day_of (ab_BucketStart b), t), n)) (ab_TypeCounts b))) =
    (if P (day_of (ab_BucketStart b)) then map snd (ab_TypeCounts b) else [])"
    by (simp add: filter_map o_def case_prod_unfold)
  with Cons show ?case by (simp add: day_type_rows_def)
qed (simp add: day_type_rows_def)

text \<open>The events of a day in the rollup are the events of its windows.\<close>

lemma days_of_count:
  assumes "d \<in> set (days_of (per_day_type bs))" and "list_all bucket_ok bs"
  shows "da_EventCount d =
    sum_list (map ab_EventCount (filter (\<lambda>b. day_of (ab_BucketStart b) = da_Day d) bs))"
proof -
  let ?rows = "day_type_rows bs"
  let ?ks = "filter (\<lambda>k. fst k = da_Day d) (group_keys fst ?rows)"
  let ?day = "filter (\<lambda>r. fst (fst r) = da_Day d) ?rows"
  have d: "da_EventCount d = sum_list (map snd (group (\<lambda>r. fst (fst r)) (da_Day d) (per_day_type bs)))"
    using assms(1) by (auto simp: days_of_def Let_def)
  have "map snd (group (\<lambda>r. fst (fst r)) (da_Day d) (per_day_type bs)) =
      map (\<lambda>k. sum_list (map snd (group fst k ?rows))) ?ks"
    by (simp add: per_day_type_def group_def filter_map o_def)
  also have "\<dots> = map (\<lambda>k. sum_list (map snd (filter (\<lambda>r. fst r = k) ?day))) ?ks"
    by (rule map_cong [OF refl])
      (auto simp: group_def intro!: arg_cong [where f = sum_list] arg_cong [where f = "map snd"] filter_cong)
  finally have "da_EventCount d = (\<Sum>k\<leftarrow>?ks. sum_list (map snd (filter (\<lambda>r. fst r = k) ?day)))"
    by (simp add: d)
  also have "\<dots> = sum_list (map snd ?day)"
    by (rule sum_list_group) auto
  also have "\<dots> = sum_list (map (\<lambda>b. sum_list (map snd (ab_TypeCounts b)))
       (filter (\<lambda>b. day_of (ab_BucketStart b) = da_Day d) bs))"
    by (rule sum_day_type_rows)
  also have "\<dots> = sum_list (map ab_EventCount (filter (\<lambda>b. day_of (ab_BucketStart b) = da_Day d) bs))"
    using assms(2) by (auto simp: list_all_iff bucket_ok_def intro!: arg_cong [where f = sum_list])
  finally show ?thesis .
qed

lemma days_of_days:
  "da_Day ` set (days_of (per_day_type bs)) =
     {day_of (ab_BucketStart b) |b. b \<in> set bs \<and> ab_TypeCounts b \<noteq> []}"
proof -
  have "da_Day ` set (days_of (per_day_type bs)) = (\<lambda>r. fst (fst r)) ` set (day_type_rows bs)"
    by (simp add: days_of_def per_day_type_def Let_def image_image)
  also have "\<dots> = {day_of (ab_BucketStart b) |b. b \<in> set bs \<and> ab_TypeCounts b \<noteq> []}"
  proof -
    have "(\<lambda>r. fst (fst r)) ` (\<lambda>(t, n). ((D, t), n)) ` set xs = (if xs = [] then {} else {D})"
      for D :: time and xs :: counts
      by (simp add: image_image case_prod_unfold image_constant_conv)
    then have "(\<lambda>r. fst (fst r)) ` set (day_type_rows bs) =
        (\<Union>b\<in>set bs. if ab_TypeCounts b = [] then {} else {day_of (ab_BucketStart b)})"
      by (simp add: day_type_rows_def image_UN)
    then show ?thesis by (auto split: if_splits)
  qed
  finally show ?thesis .
qed

lemma Daily_Inr:
  assumes "AggregationRepository_Daily u from to w = (Inr ds, w')"
  shows "ds = days_of (per_day_type (filter (bucket_in_range u (timestamptz from) (timestamptz to)) (db_activity_buckets w)))"
    and "same_tables w w'"
  using assms by (auto simp: AggregationRepository_Daily_def same_tables_def split: prod.splits
      elim!: send_cases)

lemma Buckets_Inr:
  assumes "AggregationRepository_Buckets u from to w = (Inr bs, w')"
  shows "bs = sort_desc ab_BucketStart (filter (bucket_in_range u (timestamptz from) (timestamptz to)) (db_activity_buckets w))"
    and "same_tables w w'"
  using assms by (auto simp: AggregationRepository_Buckets_def same_tables_def split: prod.splits
      elim!: send_cases)

section \<open>The history\<close>

lemma RecordRun_Inr:
  assumes "AggregationRepository_RecordRun run w = (Inr row, w')"
  shows "db_aggregation_runs w' = db_aggregation_runs w @ [row]"
    and "\<exists>n. row = stored_run n run" and "run_BucketStart row < run_BucketEnd row"
    and "same_tables (w'\<lparr>db_aggregation_runs := db_aggregation_runs w\<rparr>) w"
proof -
  obtain w1 where 1: "same_tables w w1" and i: "insert_run run w1 = (Inr row, w')"
    using assms by (auto simp: AggregationRepository_RecordRun_def scanRun_def split: prod.splits
        elim!: send_cases)
  show "db_aggregation_runs w' = db_aggregation_runs w @ [row]"
    and "\<exists>n. row = stored_run n run" and "run_BucketStart row < run_BucketEnd row"
    and "same_tables (w'\<lparr>db_aggregation_runs := db_aggregation_runs w\<rparr>) w"
    using i 1 by (auto simp: insert_run_def Let_def same_tables_def After_def split: if_splits)
qed

lemma RecordRun_Inl:
  "AggregationRepository_RecordRun run w = (Inl e, w') \<Longrightarrow> same_tables w w'"
  by (auto simp: AggregationRepository_RecordRun_def scanRun_def insert_run_def Let_def scan_def
      same_tables_def split: prod.splits sum.splits if_splits elim!: send_cases)

lemma LastSucceededBucket_Inr:
  assumes "AggregationRepository_LastSucceededBucket w = (Inr t, w')"
  shows "t = last_succeeded (db_aggregation_runs w)" and "same_tables w w'"
  using assms by (auto simp: AggregationRepository_LastSucceededBucket_def same_tables_def
      split: prod.splits elim!: send_cases)

lemma EarliestEvent_Inr:
  assumes "AggregationRepository_EarliestEvent w = (Inr t, w')"
  shows "t = min_time (map ev_OccurredAt (db_events w))" and "same_tables w w'"
  using assms by (auto simp: AggregationRepository_EarliestEvent_def same_tables_def
      split: prod.splits elim!: send_cases)

end
