(* ===== verification/Metrics.thy ===== *)
theory Metrics
  imports Models
begin

text \<open>
  \<open>internal/metrics/metrics.go\<close>: the counters, gauges and histograms the program reports. A
  counter with labels maps the label values of a series to its count; a series exists once
  it has been asked for. A histogram is the list of what it has observed. Seconds are kept
  as the durations they are computed from. The registry, and the collectors of the Go
  runtime and the process, are Prometheus' own.
\<close>

type_synonym counter_vec = "(string list \<times> int) list"

definition WithLabelValues :: "string list \<Rightarrow> counter_vec \<Rightarrow> counter_vec" where
  "WithLabelValues labels v = (if list_ex (\<lambda>s. fst s = labels) v then v else v @ [(labels, 0)])"

definition Inc :: "string list \<Rightarrow> counter_vec \<Rightarrow> counter_vec" where
  "Inc labels v =
     map (\<lambda>s. if fst s = labels then (fst s, snd s + 1) else s) (WithLabelValues labels v)"

definition count_of :: "string list \<Rightarrow> counter_vec \<Rightarrow> int" where
  "count_of labels v = (case map_of v labels of None \<Rightarrow> 0 | Some n \<Rightarrow> n)"

record metrics =
  m_HTTPRequests :: counter_vec
  m_HTTPDuration :: "(string list \<times> duration) list"
  m_HTTPInFlight :: int
  m_AggregationRuns :: counter_vec
  m_AggregationDuration :: "duration list"
  m_AggregationRows :: int
  m_AggregationLag :: duration
  m_EventsIngested :: counter_vec
  m_StreamSubscribers :: int
  m_StreamDropped :: int

definition initSeries :: "metrics \<Rightarrow> metrics" where
  "initSeries m =
     m\<lparr>m_AggregationRuns := fold (\<lambda>status. fold (\<lambda>trigger. WithLabelValues [status, trigger])
            [''schedule'', ''manual'']) [''succeeded'', ''failed'', ''skipped''] (m_AggregationRuns m),
       m_EventsIngested := fold (\<lambda>result. WithLabelValues [result])
            [''created'', ''duplicate''] (m_EventsIngested m)\<rparr>"

definition Metrics_New :: metrics where
  "Metrics_New = initSeries \<lparr>m_HTTPRequests = [], m_HTTPDuration = [], m_HTTPInFlight = 0,
     m_AggregationRuns = [], m_AggregationDuration = [], m_AggregationRows = 0,
     m_AggregationLag = 0, m_EventsIngested = [], m_StreamSubscribers = 0, m_StreamDropped = 0\<rparr>"

definition RunFinished :: "string \<Rightarrow> string \<Rightarrow> duration \<Rightarrow> int \<Rightarrow> metrics \<Rightarrow> metrics" where
  "RunFinished status trigger d rows m =
     (let m1 = m\<lparr>m_AggregationRuns := Inc [status, trigger] (m_AggregationRuns m),
                 m_AggregationDuration := m_AggregationDuration m @ [d]\<rparr>
      in if rows > 0 then m1\<lparr>m_AggregationRows := m_AggregationRows m1 + rows\<rparr> else m1)"

definition LagSeconds :: "duration \<Rightarrow> metrics \<Rightarrow> metrics" where
  "LagSeconds lag m = m\<lparr>m_AggregationLag := lag\<rparr>"

text \<open>What the timer of \<open>NewTimer\<close> observes when it stops.\<close>

definition ObserveDuration :: "string \<Rightarrow> string \<Rightarrow> duration \<Rightarrow> metrics \<Rightarrow> metrics" where
  "ObserveDuration verb route d m = m\<lparr>m_HTTPDuration := m_HTTPDuration m @ [([verb, route], d)]\<rparr>"

definition EventIngested :: "bool \<Rightarrow> metrics \<Rightarrow> metrics" where
  "EventIngested created m =
     (let result = (if created then ''created'' else ''duplicate'')
      in m\<lparr>m_EventsIngested := Inc [result] (m_EventsIngested m)\<rparr>)"

definition SubscriberAdded :: "metrics \<Rightarrow> metrics" where
  "SubscriberAdded m = m\<lparr>m_StreamSubscribers := m_StreamSubscribers m + 1\<rparr>"

definition SubscriberRemoved :: "metrics \<Rightarrow> metrics" where
  "SubscriberRemoved m = m\<lparr>m_StreamSubscribers := m_StreamSubscribers m - 1\<rparr>"

definition EventDropped :: "metrics \<Rightarrow> metrics" where
  "EventDropped m = m\<lparr>m_StreamDropped := m_StreamDropped m + 1\<rparr>"

lemma count_WithLabelValues: "count_of k (WithLabelValues labels v) = count_of k v"
proof -
  have "map_of v k = None" if "\<forall>s\<in>set v. fst s \<noteq> k"
    using that by (auto simp: map_of_eq_None_iff)
  then show ?thesis
    by (auto simp: count_of_def WithLabelValues_def list_ex_iff map_add_def split: option.splits)
qed

lemma map_of_add_one:
  "map_of (map (\<lambda>s. if fst s = labels then (fst s, snd s + 1) else s) v) k =
     (if k = labels then map_option (\<lambda>n. n + 1) (map_of v k) else map_of v k)"
  for v :: counter_vec
  by (induction v) auto

lemma count_Inc: "count_of k (Inc labels v) = count_of k v + (if k = labels then 1 else 0)"
proof (cases "k = labels")
  case True
  obtain n where "map_of (WithLabelValues labels v) labels = Some n"
  proof (cases "map_of (WithLabelValues labels v) labels")
    case None
    then show thesis
      by (auto simp: WithLabelValues_def list_ex_iff map_of_eq_None_iff split: if_splits)
  qed blast
  with True show ?thesis
    using count_WithLabelValues [of labels labels v]
    by (auto simp: Inc_def count_of_def map_of_add_one split: option.splits)
next
  case False
  then show ?thesis
    using count_WithLabelValues [of k labels v]
    by (simp add: Inc_def count_of_def map_of_add_one)
qed

end
