(* ===== verification/Broker.thy ===== *)
theory Broker
  imports Metrics
begin

text \<open>
  \<open>internal/stream/broker.go\<close>: fan-out of new events to the open streams of their user.

  A \<open>*subscriber\<close> is an index into the heap of subscribers. A subscriber has its buffered
  channel (what is in it, whether it is closed) and what the closure \<open>cancel\<close> captured: the
  user and the \<open>sync.Once\<close>. Sending on a closed channel and closing one twice panic in Go;
  here such an operation returns \<open>None\<close>. The methods of the broker take the state of the
  broker and that of the metrics behind its interface, which may be nil.
\<close>

definition defaultBuffer :: nat where "defaultBuffer = 32"

record 'x StreamMetrics =
  sm_SubscriberAdded :: "'x \<Rightarrow> 'x"
  sm_SubscriberRemoved :: "'x \<Rightarrow> 'x"
  sm_EventDropped :: "'x \<Rightarrow> 'x"

record subscriber =
  su_events :: "Event list"
  su_capacity :: nat
  su_closed :: bool
  su_user :: int
  su_once :: bool

record broker =
  b_buffer :: nat
  b_subs :: "int \<Rightarrow> nat list option"
  b_dropped :: "64 word"
  b_heap :: "subscriber list"

definition NewBroker :: broker where
  "NewBroker = \<lparr>b_buffer = defaultBuffer, b_subs = (\<lambda>_. None), b_dropped = 0, b_heap = []\<rparr>"

definition sub_at :: "broker \<Rightarrow> nat \<Rightarrow> subscriber" where
  "sub_at b a = b_heap b ! a"

definition set_sub :: "nat \<Rightarrow> subscriber \<Rightarrow> broker \<Rightarrow> broker" where
  "set_sub a s b = b\<lparr>b_heap := (b_heap b)[a := s]\<rparr>"

definition subs_of :: "broker \<Rightarrow> int \<Rightarrow> nat list" where
  "subs_of b u = (case b_subs b u of None \<Rightarrow> [] | Some as \<Rightarrow> as)"

section \<open>The methods\<close>

definition Broker_Subscribe ::
    "'x StreamMetrics option \<Rightarrow> int \<Rightarrow> broker \<times> 'x \<Rightarrow> nat \<times> (broker \<times> 'x)" where
  "Broker_Subscribe mt userID = (\<lambda>(b, x).
     (let sub = \<lparr>su_events = [], su_capacity = b_buffer b, su_closed = False,
                 su_user = userID, su_once = False\<rparr>;
          a = length (b_heap b);
          b1 = b\<lparr>b_heap := b_heap b @ [sub]\<rparr>;
          b2 = b1\<lparr>b_subs := (b_subs b1)(userID \<mapsto> subs_of b1 userID @ [a])\<rparr>
      in (a, (b2, case mt of None \<Rightarrow> x | Some m \<Rightarrow> sm_SubscriberAdded m x))))"

text \<open>The locked part of \<open>cancel\<close>, which \<open>once.Do\<close> runs at most once.\<close>

definition cancel_remove :: "nat \<Rightarrow> broker \<Rightarrow> broker" where
  "cancel_remove a b =
     (let s = sub_at b a;
          rest = filter (\<lambda>x. x \<noteq> a) (subs_of b (su_user s));
          b1 = set_sub a (s\<lparr>su_once := True\<rparr>) b
      in b1\<lparr>b_subs := (b_subs b1)(su_user s := if rest = [] then None else Some rest)\<rparr>)"

text \<open>What follows once the lock is released: \<open>close(sub.events)\<close>, then the metric.\<close>

definition cancel_close :: "'x StreamMetrics option \<Rightarrow> nat \<Rightarrow> broker \<times> 'x \<Rightarrow> (broker \<times> 'x) option" where
  "cancel_close mt a = (\<lambda>(b, x).
     (if su_closed (sub_at b a) then None
      else Some (set_sub a ((sub_at b a)\<lparr>su_closed := True\<rparr>) b,
                 case mt of None \<Rightarrow> x | Some m \<Rightarrow> sm_SubscriberRemoved m x)))"

definition Broker_cancel :: "'x StreamMetrics option \<Rightarrow> nat \<Rightarrow> broker \<times> 'x \<Rightarrow> (broker \<times> 'x) option" where
  "Broker_cancel mt a = (\<lambda>(b, x).
     (if su_once (sub_at b a) then Some (b, x) else cancel_close mt a (cancel_remove a b, x)))"

text \<open>One turn of the loop of \<open>Publish\<close>: a send that does not block.\<close>

definition try_send :: "'x StreamMetrics option \<Rightarrow> Event \<Rightarrow> nat \<Rightarrow> broker \<times> 'x \<Rightarrow> (broker \<times> 'x) option" where
  "try_send mt e a = (\<lambda>(b, x).
     (let s = sub_at b a
      in if su_closed s then None
         else if length (su_events s) < su_capacity s
           then Some (set_sub a (s\<lparr>su_events := su_events s @ [e]\<rparr>) b, x)
         else Some (b\<lparr>b_dropped := b_dropped b + 1\<rparr>,
                    case mt of None \<Rightarrow> x | Some m \<Rightarrow> sm_EventDropped m x)))"

fun publish_loop ::
    "'x StreamMetrics option \<Rightarrow> Event \<Rightarrow> nat list \<Rightarrow> broker \<times> 'x \<Rightarrow> (broker \<times> 'x) option" where
  "publish_loop mt e [] bx = Some bx"
| "publish_loop mt e (a # as) bx =
     (case try_send mt e a bx of None \<Rightarrow> None | Some bx1 \<Rightarrow> publish_loop mt e as bx1)"

definition Broker_Publish :: "'x StreamMetrics option \<Rightarrow> Event \<Rightarrow> broker \<times> 'x \<Rightarrow> (broker \<times> 'x) option" where
  "Broker_Publish mt e bx = publish_loop mt e (subs_of (fst bx) (ev_UserID e)) bx"

definition Broker_Subscribers :: "int \<Rightarrow> broker \<Rightarrow> int" where
  "Broker_Subscribers userID b = int (length (subs_of b userID))"

definition Broker_Dropped :: "broker \<Rightarrow> 64 word" where
  "Broker_Dropped b = b_dropped b"

text \<open>A reader takes the oldest event out of its channel.\<close>

definition receive :: "nat \<Rightarrow> broker \<Rightarrow> broker" where
  "receive a b = set_sub a ((sub_at b a)\<lparr>su_events := tl (su_events (sub_at b a))\<rparr>) b"

end
