(* ===== verification/World.thy ===== *)
theory World
  imports UserRepo TokenRepo OAuthRepo EventService AggRepo Broker
begin

text \<open>
  The process around the services, as \<open>internal/app/deps.go\<close> wires them: the database, the
  broker, the metrics, and the sources of time and randomness. \<open>w_clock n\<close> is what the
  \<open>n\<close>-th reading of the clock returns, \<open>w_random n\<close> the \<open>n\<close>-th read of 32 random bytes (or
  its error), \<open>w_uuids n\<close> the \<open>n\<close>-th random UUID.
\<close>

record world = db +
  w_broker :: broker
  w_metrics :: metrics
  w_clock :: "nat \<Rightarrow> time"
  w_reads :: nat
  w_random :: "nat \<Rightarrow> string + string"
  w_draws :: nat
  w_uuids :: "nat \<Rightarrow> uuid"
  w_uuid_draws :: nat

definition world_now :: "world \<Rightarrow> time \<times> world" where
  "world_now w = (w_clock w (w_reads w), w\<lparr>w_reads := Suc (w_reads w)\<rparr>)"

definition stream_metrics :: "metrics StreamMetrics" where
  "stream_metrics = \<lparr>sm_SubscriberAdded = SubscriberAdded, sm_SubscriberRemoved = SubscriberRemoved,
     sm_EventDropped = EventDropped\<rparr>"

text \<open>
  The broker of the process behind the service's publisher. \<open>None\<close> would be a panic, which
  the theorem \<open>broker_never_panics\<close> of \<open>BrokerProps\<close> excludes.
\<close>

definition world_publish :: "Event \<Rightarrow> world \<Rightarrow> world" where
  "world_publish e w =
     (case Broker_Publish (Some stream_metrics) e (w_broker w, w_metrics w) of
        None \<Rightarrow> w
      | Some (b, m) \<Rightarrow> w\<lparr>w_broker := b, w_metrics := m\<rparr>)"

definition world_ingested :: "bool \<Rightarrow> world \<Rightarrow> world" where
  "world_ingested created w = w\<lparr>w_metrics := EventIngested created (w_metrics w)\<rparr>"

definition event_service :: "postgres \<Rightarrow> world EventService" where
  "event_service pg =
     \<lparr>es_events = event_repository pg, es_publisher = Some world_publish,
      es_metrics = Some world_ingested, es_now = world_now\<rparr>"

text \<open>What the process does to its own parts leaves the tables alone.\<close>

lemma world_now_eq: "world_now w = (t, w') \<longleftrightarrow> t = w_clock w (w_reads w) \<and> w' = w\<lparr>w_reads := Suc (w_reads w)\<rparr>"
  by (auto simp: world_now_def)

lemma world_now_frame [frame, simp]:
  "db_events (snd (world_now w)) = db_events w"
  "db_events_seq (snd (world_now w)) = db_events_seq w"
  "db_faults (snd (world_now w)) = db_faults w"
  "w_broker (snd (world_now w)) = w_broker w" "w_metrics (snd (world_now w)) = w_metrics w"
  by (simp_all add: world_now_def)

lemma world_publish_frame [frame, simp]:
  "db_events (world_publish e w) = db_events w"
  "db_events_seq (world_publish e w) = db_events_seq w"
  "db_faults (world_publish e w) = db_faults w"
  by (simp_all add: world_publish_def split: option.splits prod.splits)

lemma world_ingested_frame [frame, simp]:
  "db_events (world_ingested c w) = db_events w"
  "db_events_seq (world_ingested c w) = db_events_seq w"
  "db_faults (world_ingested c w) = db_faults w"
  "w_broker (world_ingested c w) = w_broker w"
  by (simp_all add: world_ingested_def)

end
