(* ===== verification/Examples.thy ===== *)
theory Examples
  imports World
begin

text \<open>Concrete states of the process, at which the witnesses of the properties apply them.\<close>

definition ex_user :: User where
  "ex_user = \<lparr>user_ID = 1, user_Email = ''a@b'', user_PasswordHash = Some ''h'', user_Role = RoleUser,
     user_GoogleSub = None, user_Name = None, user_EmailVerified = False, user_CreatedAt = 0,
     user_UpdatedAt = 0\<rparr>"

definition ex_event :: "int \<Rightarrow> time \<Rightarrow> string option \<Rightarrow> Event" where
  "ex_event i t key = \<lparr>ev_ID = i, ev_UserID = 1, ev_Type = ''login'', ev_Payload = ''{}'',
     ev_OccurredAt = t, ev_CreatedAt = 0, ev_IdempotencyKey = key\<rparr>"

definition ex_pg :: postgres where
  "ex_pg = \<lparr>pg_lower = map ascii_lower, pg_jsonb = Some\<rparr>"

definition ex_world :: "Event list \<Rightarrow> world" where
  "ex_world evs =
     \<lparr>db_users = [ex_user], db_users_seq = 1, db_refresh_tokens = [], db_oauth_states = [],
      db_oauth_codes = [], db_events = evs, db_events_seq = int (length evs),
      db_activity_buckets = [], db_aggregation_runs = [], db_runs_seq = 0,
      db_locked_buckets = [], db_now = unix_epoch, db_faults = [],
      w_broker = NewBroker, w_metrics = Metrics_New, w_clock = (\<lambda>_. unix_epoch), w_reads = 0,
      w_random = (\<lambda>_. Inr ''r''), w_draws = 0, w_uuids = of_nat, w_uuid_draws = 0\<rparr>"

text \<open>The same process at another time.\<close>

definition ex_world_at :: "time \<Rightarrow> Event list \<Rightarrow> world" where
  "ex_world_at now evs = (ex_world evs)\<lparr>w_clock := (\<lambda>_. now), db_now := now\<rparr>"

end
