(* ===== verification/EventProps.thy ===== *)
theory EventProps
  imports Examples
begin

text \<open>
  What the event service promises. \<open>event_store\<close> is the contract between the service and
  its repository, as far as listing goes: a listing is the first rows, newest first, of the
  ones that match. The service's paging is proved from the contract alone; PostgreSQL's
  repository is shown to fulfil it.
\<close>

section \<open>Cursors\<close>

definition in_cursor_range :: "Event \<Rightarrow> bool" where
  "in_cursor_range e \<longleftrightarrow> in_int64 (ev_OccurredAt e - unix_epoch) \<and> in_int64 (ev_ID e)"

lemma encodeCursor_ne: "encodeCursor e \<noteq> ''''"
proof
  assume "encodeCursor e = ''''"
  then have "RawURL_DecodeString (encodeCursor e) = Some ''''"
    by (simp add: RawURL_DecodeString_def)
  then show False by (simp add: encodeCursor_def DecodeString_EncodeToString)
qed

lemma decode_encode:
  assumes "in_cursor_range e"
  shows "decodeCursor (encodeCursor e) = Inr (ev_OccurredAt e, ev_ID e)"
proof -
  have "Cut (FormatInt n @ CHR '':'' # FormatInt i) (CHR '':'') = (FormatInt n, FormatInt i, True)"
    for n i
    by (rule Cut_found [OF FormatInt_no_colon])
  then show ?thesis
    using assms
    by (simp add: decodeCursor_def encodeCursor_def DecodeString_EncodeToString in_cursor_range_def
        ParseInt_FormatInt UnixNano_def wrap64_id time_Unix_def)
qed

section \<open>The listing behind the pages\<close>

text \<open>The filter that \<open>List\<close> builds from a query, without cursor and limit.\<close>

definition base_filter :: "(string \<Rightarrow> string) \<Rightarrow> EventQuery \<Rightarrow> EventFilter" where
  "base_filter uni q =
     \<lparr>f_UserID = eq_UserID q, f_Types = query_types uni (eq_Types q), f_From = eq_From q,
      f_To = eq_To q, f_Limit = pageSize (eq_Limit q) + 1, f_BeforeTime = None, f_BeforeID = None\<rparr>"

definition cursor_filter :: "(string \<Rightarrow> string) \<Rightarrow> EventQuery \<Rightarrow> go_error + EventFilter" where
  "cursor_filter uni q =
     (if eq_Cursor q = '''' then Inr (base_filter uni q)
      else (case decodeCursor (eq_Cursor q) of
              Inl err \<Rightarrow> Inl err
            | Inr (t, i) \<Rightarrow> Inr ((base_filter uni q)\<lparr>f_BeforeTime := Some t, f_BeforeID := Some i\<rparr>)))"

definition range_ok :: "EventQuery \<Rightarrow> bool" where
  "range_ok q \<longleftrightarrow> (case (eq_From q, eq_To q) of (Some from, Some to) \<Rightarrow> from < to | _ \<Rightarrow> True)"

definition page_of :: "nat \<Rightarrow> Event list \<Rightarrow> EventPage" where
  "page_of n es =
     \<lparr>ep_Items = take n es, ep_NextCursor = (if n < length es then encodeCursor (last (take n es)) else '''')\<rparr>"

lemma pageSize_bounds: "1 \<le> pageSize l" "pageSize l \<le> MaxPageSize"
  by (auto simp: pageSize_def DefaultPageSize_def MaxPageSize_def)

lemma List_eq:
  "Event_List uni s q w =
     (if \<not> range_ok q then (Inl Svc_ErrInvalidTimeRange, w)
      else (case cursor_filter uni q of
              Inl err \<Rightarrow> (Inl err, w)
            | Inr flt \<Rightarrow>
                (case er_List (es_events s) flt w of
                   (Inl err, w1) \<Rightarrow> (Inl err, w1)
                 | (Inr events, w1) \<Rightarrow>
                     (Inr (if int (length events) = pageSize (eq_Limit q) + 1
                           then \<lparr>ep_Items = take (nat (pageSize (eq_Limit q))) events,
                                 ep_NextCursor = encodeCursor (last (take (nat (pageSize (eq_Limit q))) events))\<rparr>
                           else \<lparr>ep_Items = events, ep_NextCursor = ''''\<rparr>), w1))))"
  by (auto simp: Event_List_def range_ok_def cursor_filter_def base_filter_def Let_def Before_def
      split: option.splits sum.splits prod.splits)

lemma cursor_filter_limit: "cursor_filter uni q = Inr flt \<Longrightarrow> f_Limit flt = pageSize (eq_Limit q) + 1"
  by (auto simp: cursor_filter_def base_filter_def split: if_splits sum.splits prod.splits)

text \<open>The page that \<open>take (n + 1)\<close> of the matching rows gives is the first \<open>n\<close> of them.\<close>

lemma page_of_take:
  assumes "0 < n" and "es = take (Suc n) L"
  shows "(if length es = Suc n
          then \<lparr>ep_Items = take n es, ep_NextCursor = encodeCursor (last (take n es))\<rparr>
          else \<lparr>ep_Items = es, ep_NextCursor = ''''\<rparr>) = page_of n L"
  using assms by (auto simp: page_of_def min_def)

text \<open>A row is before the cursor of \<open>e\<close> when it comes after \<open>e\<close> in the listing.\<close>

lemma matches_base:
  "matches ((base_filter uni q)\<lparr>f_BeforeTime := Some t, f_BeforeID := Some i\<rparr>) e \<longleftrightarrow>
     matches (base_filter uni q) e \<and> event_key e < (timestamptz t, i)"
  by (auto simp: matches_def base_filter_def before_cursor_def event_key_def)

section \<open>The contract of an event store\<close>

locale event_store =
  fixes repo :: "'w EventRepository"
    and rows :: "'w \<Rightarrow> Event list"
    and sound :: "'w \<Rightarrow> bool"
    and up :: "'w \<Rightarrow> bool"
  assumes list_returns: "er_List repo f w = (Inr es, w') \<Longrightarrow>
      es = take (nat (f_Limit f)) (sort_desc event_key (filter (matches f) (rows w)))"
    and list_keeps: "er_List repo f w = (r, w') \<Longrightarrow> rows w' = rows w \<and> (sound w \<longrightarrow> sound w')"
    and list_up: "up w \<Longrightarrow> 0 \<le> f_Limit f \<Longrightarrow> \<exists>es w'. er_List repo f w = (Inr es, w') \<and> up w'"
    and sound_keys: "sound w \<Longrightarrow> distinct (map event_key (rows w))"
    and sound_times: "sound w \<Longrightarrow> e \<in> set (rows w) \<Longrightarrow> timestamptz (ev_OccurredAt e) = ev_OccurredAt e"
begin

definition listing :: "EventFilter \<Rightarrow> 'w \<Rightarrow> Event list" where
  "listing f w = sort_desc event_key (filter (matches f) (rows w))"

lemma listing_strict: "sound w \<Longrightarrow> sorted_wrt (\<lambda>a b. event_key b < event_key a) (listing f w)"
  unfolding listing_def by (intro sort_desc_strict distinct_map_filter_key sound_keys)

lemma listing_cursor:
  "listing ((base_filter uni q)\<lparr>f_BeforeTime := Some t, f_BeforeID := Some i\<rparr>) w =
     filter (\<lambda>e. event_key e < (timestamptz t, i)) (listing (base_filter uni q) w)"
proof -
  have "matches ((base_filter uni q)\<lparr>f_BeforeTime := Some t, f_BeforeID := Some i\<rparr>) =
      (\<lambda>e. matches (base_filter uni q) e \<and> event_key e < (timestamptz t, i))"
    by (rule ext) (rule matches_base)
  then show ?thesis
    unfolding listing_def filter_sort_desc by (simp add: conj_commute)
qed

lemma List_page:
  assumes "es_events s = repo" and "Event_List uni s q w = (Inr page, w')"
  obtains flt where "cursor_filter uni q = Inr flt"
    and "page = page_of (nat (pageSize (eq_Limit q))) (listing flt w)"
    and "rows w' = rows w" and "sound w \<longrightarrow> sound w'"
proof -
  note eq = assms(2) [unfolded List_eq assms(1)]
  then have ok: "range_ok q" by (cases "range_ok q") simp_all
  with eq obtain flt where flt: "cursor_filter uni q = Inr flt"
    by (cases "cursor_filter uni q") simp_all
  obtain r w1 where l: "er_List repo flt w = (r, w1)" by fastforce
  obtain es where "r = Inr es" using eq ok flt l by (cases r) simp_all
  with eq ok flt l have l: "er_List repo flt w = (Inr es, w')"
    and page: "page = (if int (length es) = pageSize (eq_Limit q) + 1
        then \<lparr>ep_Items = take (nat (pageSize (eq_Limit q))) es,
              ep_NextCursor = encodeCursor (last (take (nat (pageSize (eq_Limit q))) es))\<rparr>
        else \<lparr>ep_Items = es, ep_NextCursor = ''''\<rparr>)"
    by simp_all
  have n: "0 < nat (pageSize (eq_Limit q))" "nat (pageSize (eq_Limit q) + 1) = Suc (nat (pageSize (eq_Limit q)))"
    using pageSize_bounds(1) [of "eq_Limit q"] by simp_all
  have es: "es = take (Suc (nat (pageSize (eq_Limit q)))) (listing flt w)"
    using list_returns [OF l] n(2) by (simp add: listing_def cursor_filter_limit [OF flt])
  have "int (length es) = pageSize (eq_Limit q) + 1 \<longleftrightarrow> length es = Suc (nat (pageSize (eq_Limit q)))"
    using pageSize_bounds(1) [of "eq_Limit q"] by linarith
  with page page_of_take [OF n(1) es]
  have pg: "page = page_of (nat (pageSize (eq_Limit q))) (listing flt w)"
    by simp
  show thesis
    by (rule that [OF flt pg]) (simp_all add: list_keeps [OF l])
qed

lemma List_up:
  assumes "es_events s = repo" and "up w" and "range_ok q" and "cursor_filter uni q = Inr flt"
  shows "\<exists>page w'. Event_List uni s q w = (Inr page, w') \<and> up w'"
proof -
  have "0 \<le> f_Limit flt"
    using cursor_filter_limit [OF assms(4)] pageSize_bounds(1) [of "eq_Limit q"] by simp
  then obtain es w' where "er_List repo flt w = (Inr es, w')" "up w'"
    using list_up [OF assms(2)] by blast
  with assms show ?thesis by (simp add: List_eq)
qed

text \<open>The rows after the cursor of a page are the rows after the page.\<close>

lemma next_listing:
  assumes "sound w" and "cursor_filter uni q = Inr flt" and n: "0 < n" "n < length (listing flt w)"
    and e: "e = last (take n (listing flt w))" and "in_cursor_range e"
  obtains flt' where "cursor_filter uni (q\<lparr>eq_Cursor := encodeCursor e\<rparr>) = Inr flt'"
    and "listing flt' w = drop n (listing flt w)"
proof -
  let ?L = "listing flt w" and ?F = "listing (base_filter uni q) w"
  have ne: "take n ?L \<noteq> []" using n by auto
  then have eL: "e \<in> set ?L" unfolding e by (metis in_set_takeD last_in_set)
  then have t: "timestamptz (ev_OccurredAt e) = ev_OccurredAt e"
    using sound_times [OF assms(1), of e] by (simp add: listing_def)
  let ?flt' = "(base_filter uni q)\<lparr>f_BeforeTime := Some (ev_OccurredAt e), f_BeforeID := Some (ev_ID e)\<rparr>"
  have base: "base_filter uni (q\<lparr>eq_Cursor := c\<rparr>) = base_filter uni q" for c
    by (simp add: base_filter_def)
  have 1: "cursor_filter uni (q\<lparr>eq_Cursor := encodeCursor e\<rparr>) = Inr ?flt'"
    by (simp add: cursor_filter_def encodeCursor_ne decode_encode [OF assms(6)] base)
  have key: "event_key e = (timestamptz (ev_OccurredAt e), ev_ID e)"
    by (simp add: event_key_def t)
  have "listing ?flt' w = filter (\<lambda>x. event_key x < event_key e) ?F"
    by (simp only: listing_cursor key)
  also have "\<dots> = filter (\<lambda>x. event_key x < event_key e) ?L"
  proof (cases "eq_Cursor q = ''''")
    case True
    then show ?thesis using assms(2) by (simp add: cursor_filter_def)
  next
    case False
    then obtain tc ic where "flt = (base_filter uni q)\<lparr>f_BeforeTime := Some tc, f_BeforeID := Some ic\<rparr>"
      using assms(2) by (auto simp: cursor_filter_def split: sum.splits)
    then have L: "?L = filter (\<lambda>x. event_key x < (timestamptz tc, ic)) ?F"
      by (simp only: listing_cursor)
    with eL have "event_key e < (timestamptz tc, ic)" by simp
    then show ?thesis
      unfolding L filter_filter by (metis (no_types, lifting) order.strict_trans)
  qed
  also have "\<dots> = drop n ?L"
    unfolding e by (rule filter_below_last_page) (use assms(1) n listing_strict in auto)
  finally show thesis using 1 that by blast
qed

end

text \<open>A client that follows the cursors, page after page; \<open>None\<close> when a page fails.\<close>

fun walk ::
    "nat \<Rightarrow> (string \<Rightarrow> string) \<Rightarrow> 'w EventService \<Rightarrow> EventQuery \<Rightarrow> 'w \<Rightarrow> Event list option" where
  "walk 0 uni s q w = None"
| "walk (Suc fuel) uni s q w =
     (case Event_List uni s q w of
        (Inl err, w1) \<Rightarrow> None
      | (Inr page, w1) \<Rightarrow>
          if ep_NextCursor page = '''' then Some (ep_Items page)
          else map_option (\<lambda>es. ep_Items page @ es)
                 (walk fuel uni s (q\<lparr>eq_Cursor := ep_NextCursor page\<rparr>) w1))"

context event_store
begin

lemma walk_listing:
  assumes "es_events s = repo" and "up w" and "sound w" and "range_ok q"
    and "cursor_filter uni q = Inr flt" and "\<forall>e\<in>set (rows w). in_cursor_range e"
    and "length (listing flt w) < fuel"
  shows "walk fuel uni s q w = Some (listing flt w)"
  using assms
proof (induction fuel arbitrary: q flt w)
  case 0
  then show ?case by simp
next
  case (Suc fuel)
  let ?n = "nat (pageSize (eq_Limit q))" and ?L = "listing flt w"
  obtain page w' where l: "Event_List uni s q w = (Inr page, w')" and up': "up w'"
    using List_up [OF Suc.prems(1,2,4,5)] by blast
  obtain flt2 where flt2: "cursor_filter uni q = Inr flt2" and page2: "page = page_of ?n (listing flt2 w)"
    and rows': "rows w' = rows w" and sound': "sound w'"
    by (rule List_page [OF Suc.prems(1) l]) (use Suc.prems(3) in blast)
  have page: "page = page_of ?n ?L" using page2 flt2 Suc.prems(5) by simp
  have n: "0 < ?n" using pageSize_bounds(1) [of "eq_Limit q"] by simp
  show ?case
  proof (cases "?n < length ?L")
    case False
    then show ?thesis using l page by (simp add: page_of_def)
  next
    case True
    let ?e = "last (take ?n ?L)"
    have "take ?n ?L \<noteq> []" using n True by auto
    then have "?e \<in> set ?L" by (metis in_set_takeD last_in_set)
    then have "in_cursor_range ?e" using Suc.prems(6) by (simp add: listing_def)
    then obtain flt' where flt': "cursor_filter uni (q\<lparr>eq_Cursor := encodeCursor ?e\<rparr>) = Inr flt'"
      and rest: "listing flt' w = drop ?n ?L"
      by (rule next_listing [OF Suc.prems(3,5) n True refl])
    have rest': "listing flt' w' = drop ?n ?L" using rest rows' by (simp add: listing_def)
    have "walk fuel uni s (q\<lparr>eq_Cursor := encodeCursor ?e\<rparr>) w' = Some (listing flt' w')"
    proof (rule Suc.IH [OF Suc.prems(1) up' sound' _ flt'])
      show "range_ok (q\<lparr>eq_Cursor := encodeCursor ?e\<rparr>)"
        using Suc.prems(4) by (simp add: range_ok_def)
      show "\<forall>e\<in>set (rows w'). in_cursor_range e" using Suc.prems(6) rows' by simp
      show "length (listing flt' w') < fuel" using rest' n True Suc.prems(7) by simp
    qed
    with True l page show ?thesis
      by (simp add: page_of_def encodeCursor_ne rest')
  qed
qed

end

section \<open>The repository fulfils the contract\<close>

lemma event_key_distinct:
  assumes "events_ok w"
  shows "distinct (map event_key (db_events w))"
proof -
  have "distinct (map ev_ID (db_events w))" using assms by (simp add: events_ok_def)
  then have "distinct (map (snd \<circ> event_key) (db_events w))"
    by (simp add: event_key_def comp_def)
  then show ?thesis by (metis distinct_map map_map)
qed

lemma List_events_ok:
  assumes "EventRepository_List f w = (r, w')" and "events_ok w"
  shows "events_ok w'"
proof -
  have "db_events_seq w' = db_events_seq w"
    using assms(1) by (auto simp: EventRepository_List_def send_def round_trip_def limit_rows_def
        split: prod.splits option.splits list.splits)
  then show ?thesis
    using assms(2) List_same [OF assms(1)] by (auto simp: same_tables_def intro: events_ok_seq)
qed

interpretation pg_events: event_store "event_repository pg" db_events events_ok "\<lambda>w. db_faults w = []"
  for pg :: postgres
proof unfold_locales
  fix f :: EventFilter and w w' :: "'a db_scheme" and es r e
  show "er_List (event_repository pg) f w = (Inr es, w') \<Longrightarrow>
      es = take (nat (f_Limit f)) (sort_desc event_key (filter (matches f) (db_events w)))"
    by (auto simp: event_repository_def dest: List_Inr(1))
  show "er_List (event_repository pg) f w = (r, w') \<Longrightarrow>
      db_events w' = db_events w \<and> (events_ok w \<longrightarrow> events_ok w')"
    by (auto simp: event_repository_def dest: List_same same_tablesD(5) List_events_ok)
  show "db_faults w = [] \<Longrightarrow> 0 \<le> f_Limit f \<Longrightarrow>
      \<exists>es w'. er_List (event_repository pg) f w = (Inr es, w') \<and> db_faults w' = []"
    by (simp add: event_repository_def EventRepository_List_def limit_rows_def)
  show "events_ok w \<Longrightarrow> distinct (map event_key (db_events w))"
    by (rule event_key_distinct)
  show "events_ok w \<Longrightarrow> e \<in> set (db_events w) \<Longrightarrow> timestamptz (ev_OccurredAt e) = ev_OccurredAt e"
    by (simp add: events_ok_def)
qed

section \<open>The rest of the state\<close>





lemma world_events_ok [simp]:
  "events_ok (snd (world_now w)) = events_ok w"
  "events_ok (world_publish e w) = events_ok w"
  "events_ok (world_ingested c w) = events_ok w"
  by (simp_all add: events_ok_def)



lemma normalize_Inr:
  assumes "normalize uni s u inp w = (Inr e, w')" and "es_now s w = (now, w1)"
  shows "ev_UserID e = u \<and> ev_Type e = NormalizeEventType uni (ei_Type inp) \<and> ev_Type e \<noteq> '''' \<and>
    length (ev_Type e) \<le> MaxEventTypeLen \<and> normalizePayload (ei_Payload inp) = Inr (ev_Payload e) \<and>
    ev_OccurredAt e = (case ei_OccurredAt inp of None \<Rightarrow> now | Some t \<Rightarrow> t) \<and>
    now - maxEventAge \<le> ev_OccurredAt e \<and> ev_OccurredAt e \<le> now + maxClockSkew \<and>
    ev_IdempotencyKey e = (if TrimSpace (ei_IdempotencyKey inp) = '''' then None
                           else Some (TrimSpace (ei_IdempotencyKey inp))) \<and>
    opt_all (\<lambda>k. length k \<le> maxIdempotencyKeyLen) (ev_IdempotencyKey e)"
  using assms
  by (auto simp: normalize_def Let_def After_def Before_def Add_def
      split: if_splits sum.splits prod.splits option.splits)

section \<open>Batches\<close>



lemma idem_key_new_event_row [simp]: "idem_key (new_event_row pg n now e) = idem_key e"
  by (simp add: idem_key_def)











section \<open>A concrete table, for the witnesses\<close>

definition ex_query :: EventQuery where
  "ex_query = \<lparr>eq_UserID = 1, eq_Types = [], eq_From = None, eq_To = None, eq_Limit = 1,
     eq_Cursor = ''''\<rparr>"

definition ex_input :: "string \<Rightarrow> EventInput" where
  "ex_input key = \<lparr>ei_Type = '' Login '', ei_Payload = '''', ei_OccurredAt = None,
     ei_IdempotencyKey = key\<rparr>"

lemma ex_events_ok:
  "events_ok (ex_world [ex_event 1 unix_epoch (Some ''k''), ex_event 2 (unix_epoch + 1000) None])"
  by (simp add: events_ok_def ex_world_def ex_event_def keys_unique_def timestamptz_def
      Truncate_def unix_epoch_def Second_def Microsecond_def)

section \<open>Properties\<close>

text \<open>C9:
  A cursor decodes to the time and the id of the event it was made from, whenever the time
  has a nanosecond count that fits 64 bits (the years 1678 to 2262).
\<close>

theorem cursor_roundtrip:
  assumes "in_cursor_range e"
  shows "decodeCursor (encodeCursor e) = Inr (ev_OccurredAt e, ev_ID e)"
  using assms by (rule decode_encode)

theorem cursor_roundtrip_witness:
  "decodeCursor (encodeCursor (ex_event 7 (unix_epoch + 12) None)) = Inr (unix_epoch + 12, 7)"
  using cursor_roundtrip [of "ex_event 7 (unix_epoch + 12) None"]
  by (simp add: in_cursor_range_def in_int64_def min_int64_def max_int64_def ex_event_def)

text \<open>C3:
  A client that asks for the first page and follows the cursors gets, in the end, exactly
  the user's matching events, newest first, each once: no event is lost or repeated at a
  page boundary, whatever the page size, also when events share a timestamp.
\<close>

theorem paging_complete:
  assumes "events_ok w" and "db_faults w = []" and "range_ok q" and "eq_Cursor q = ''''"
    and "\<forall>e\<in>set (db_events w). in_cursor_range e"
  shows "walk (Suc (length (db_events w))) uni (event_service pg) q w =
    Some (sort_desc event_key (filter (matches (base_filter uni q)) (db_events w)))"
proof -
  have "walk (Suc (length (db_events w))) uni (event_service pg) q w =
      Some (pg_events.listing (base_filter uni q) w)"
  proof (rule pg_events.walk_listing)
    show "es_events (event_service pg) = event_repository pg" by (simp add: event_service_def)
    show "cursor_filter uni q = Inr (base_filter uni q)" using assms(4) by (simp add: cursor_filter_def)
    show "length (pg_events.listing (base_filter uni q) w) < Suc (length (db_events w))"
      by (simp add: pg_events.listing_def le_imp_less_Suc)
  qed (use assms in simp_all)
  then show ?thesis by (simp add: pg_events.listing_def)
qed

theorem paging_complete_witness:
  "walk 3 (\<lambda>s. s) (event_service ex_pg) ex_query
     (ex_world [ex_event 1 unix_epoch (Some ''k''), ex_event 2 (unix_epoch + 1000) None]) =
   Some [ex_event 2 (unix_epoch + 1000) None, ex_event 1 unix_epoch (Some ''k'')]"
proof -
  let ?w = "ex_world [ex_event 1 unix_epoch (Some ''k''), ex_event 2 (unix_epoch + 1000) None]"
  have "walk (Suc (length (db_events ?w))) (\<lambda>s. s) (event_service ex_pg) ex_query ?w =
    Some (sort_desc event_key (filter (matches (base_filter (\<lambda>s. s) ex_query)) (db_events ?w)))"
    by (rule paging_complete [OF ex_events_ok])
      (simp_all add: ex_world_def ex_query_def range_ok_def ex_event_def in_cursor_range_def
        in_int64_def min_int64_def max_int64_def)
  then show ?thesis
    by (simp add: ex_world_def ex_event_def sort_desc_def matches_def base_filter_def ex_query_def
        query_types_def before_cursor_def event_key_def eval_nat_numeral)
qed



text \<open>C10:
  What \<open>normalize\<close> lets through: the caller's id, a trimmed lower-case type of 1 to 64 bytes,
  a payload that is a JSON object of at most 8 KiB, a time between 90 days before and 5
  minutes after the clock reading, and a trimmed key of at most 128 bytes, or none when
  nothing is left of it. A new event has the reading itself as its time by default.
\<close>

lemma normalizePayload_Inr:
  assumes "normalizePayload p = Inr p'"
  shows "length p' \<le> MaxPayloadBytes \<and> Unmarshal_object_ok p'"
proof -
  have "Unmarshal_object_ok ''{}''" by code_simp
  then show ?thesis
    using assms by (auto simp: normalizePayload_def Let_def MaxPayloadBytes_def split: if_splits)
qed

theorem normalize_bounds:
  assumes "normalize uni s u inp w = (Inr e, w')"
  shows "ev_UserID e = u \<and> ev_Type e = ToLower uni (TrimSpace (ei_Type inp)) \<and>
    1 \<le> length (ev_Type e) \<and> length (ev_Type e) \<le> 64 \<and>
    length (ev_Payload e) \<le> 8192 \<and> Unmarshal_object_ok (ev_Payload e) \<and>
    ev_OccurredAt e = (case ei_OccurredAt inp of None \<Rightarrow> fst (es_now s w) | Some t \<Rightarrow> t) \<and>
    fst (es_now s w) - 90 * 24 * Hour \<le> ev_OccurredAt e \<and>
    ev_OccurredAt e \<le> fst (es_now s w) + 5 * Minute \<and>
    ev_IdempotencyKey e =
      (let key = TrimSpace (ei_IdempotencyKey inp) in if key = '''' then None else Some key) \<and>
    opt_all (\<lambda>k. length k \<le> 128) (ev_IdempotencyKey e)"
proof -
  obtain now w1 where now: "es_now s w = (now, w1)" by fastforce
  note e = normalize_Inr [OF assms now]
  have "normalizePayload (ei_Payload inp) = Inr (ev_Payload e)" using e by simp
  note p = normalizePayload_Inr [OF this]
  have "ev_Type e \<noteq> ''''" using e by blast
  then have "1 \<le> length (ev_Type e)" by (simp add: Suc_leI)
  moreover have "fst (es_now s w) = now" using now by simp
  ultimately show ?thesis
    using e p
    by (auto simp: NormalizeEventType_def MaxEventTypeLen_def MaxPayloadBytes_def maxEventAge_def
        maxClockSkew_def maxIdempotencyKeyLen_def Let_def)
qed

definition ex_recorded :: Event where
  "ex_recorded = \<lparr>ev_ID = 0, ev_UserID = 1, ev_Type = ''login'', ev_Payload = ''{}'',
     ev_OccurredAt = unix_epoch, ev_CreatedAt = 0, ev_IdempotencyKey = Some ''k''\<rparr>"

lemma ex_trim [simp]: "TrimSpace '' k '' = ''k''" "ToLower (\<lambda>s. s) (TrimSpace '' Login '') = ''login''"
  by code_simp+

lemma ex_payload [simp]: "normalizePayload '''' = Inr ''{}''"
  by (simp add: normalizePayload_def TrimSpace_def trim_front.simps white_space_def)

lemma ex_normalized:
  "fst (normalize (\<lambda>s. s) (event_service ex_pg) 1 (ex_input '' k '') (ex_world [])) = Inr ex_recorded"
  by (simp add: normalize_def Let_def ex_input_def NormalizeEventType_def ex_trim MaxEventTypeLen_def
      event_service_def world_now_def ex_world_def time_defs maxClockSkew_def maxEventAge_def
      maxIdempotencyKeyLen_def duration_units ex_recorded_def)

theorem normalize_bounds_witness:
  "length (ev_Type ex_recorded) \<le> 64 \<and> ev_OccurredAt ex_recorded \<le> unix_epoch + 5 * Minute"
proof -
  obtain w' where "normalize (\<lambda>s. s) (event_service ex_pg) 1 (ex_input '' k '') (ex_world []) =
      (Inr ex_recorded, w')"
    using ex_normalized by (metis eq_fst_iff)
  moreover have "fst (es_now (event_service ex_pg) (ex_world [])) = unix_epoch"
    by (simp add: event_service_def world_now_def ex_world_def)
  ultimately show ?thesis using normalize_bounds by metis
qed



end
