(* ===== verification/BrokerProps.thy ===== *)
theory BrokerProps
  imports Broker
begin

text \<open>
  The broker as a state machine: its methods, called in any order by any number of
  goroutines. \<open>Publish\<close> runs under the read lock, so it is one step against the writers;
  \<open>cancel\<close> is two, because it closes the channel after it has released the lock. The
  invariant \<open>broker_ok\<close> holds in every reachable state, and with it no operation panics.
\<close>

section \<open>Steps\<close>

inductive broker_step :: "'x StreamMetrics option \<Rightarrow> broker \<times> 'x \<Rightarrow> broker \<times> 'x \<Rightarrow> bool"
  for mt :: "'x StreamMetrics option" where
  subscribe: "snd (Broker_Subscribe mt u bx) = bx' \<Longrightarrow> broker_step mt bx bx'"
| cancel_begin: "a < length (b_heap b) \<Longrightarrow> \<not> su_once (sub_at b a) \<Longrightarrow>
    broker_step mt (b, x) (cancel_remove a b, x)"
| cancel_end: "a < length (b_heap b) \<Longrightarrow> su_once (sub_at b a) \<Longrightarrow> \<not> su_closed (sub_at b a) \<Longrightarrow>
    cancel_close mt a (b, x) = Some bx' \<Longrightarrow> broker_step mt (b, x) bx'"
| publish: "Broker_Publish mt e bx = Some bx' \<Longrightarrow> broker_step mt bx bx'"
| receive: "a < length (b_heap b) \<Longrightarrow> su_events (sub_at b a) \<noteq> [] \<Longrightarrow>
    broker_step mt (b, x) (receive a b, x)"

inductive_cases broker_stepE: "broker_step mt bx bx'"

definition broker_reachable :: "'x StreamMetrics option \<Rightarrow> 'x \<Rightarrow> broker \<times> 'x \<Rightarrow> bool" where
  "broker_reachable mt x0 bx \<longleftrightarrow> (broker_step mt)\<^sup>*\<^sup>* (NewBroker, x0) bx"

section \<open>The invariant\<close>

definition registered :: "broker \<Rightarrow> int \<Rightarrow> nat \<Rightarrow> bool" where
  "registered b u a \<longleftrightarrow> a \<in> set (subs_of b u)"

definition sub_ok :: "broker \<Rightarrow> nat \<Rightarrow> bool" where
  "sub_ok b a \<longleftrightarrow>
     (su_closed (sub_at b a) \<longrightarrow> su_once (sub_at b a)) \<and>
     length (su_events (sub_at b a)) \<le> su_capacity (sub_at b a) \<and>
     su_capacity (sub_at b a) = defaultBuffer \<and>
     (\<forall>u. registered b u a \<longleftrightarrow> u = su_user (sub_at b a) \<and> \<not> su_once (sub_at b a))"

definition broker_ok :: "broker \<Rightarrow> bool" where
  "broker_ok b \<longleftrightarrow>
     b_buffer b = defaultBuffer \<and>
     (\<forall>a<length (b_heap b). sub_ok b a) \<and>
     (\<forall>u a. registered b u a \<longrightarrow> a < length (b_heap b)) \<and>
     (\<forall>u. distinct (subs_of b u)) \<and> (\<forall>u. b_subs b u \<noteq> Some [])"

lemma sub_at_set_sub [simp]:
  "a < length (b_heap b) \<Longrightarrow> sub_at (set_sub a s b) c = (if c = a then s else sub_at b c)"
  by (simp add: sub_at_def set_sub_def)

lemma sub_at_dropped [simp]: "sub_at (b\<lparr>b_dropped := n\<rparr>) c = sub_at b c"
  by (simp add: sub_at_def)

lemma set_sub_frame [simp]:
  "b_subs (set_sub a s b) = b_subs b" "b_buffer (set_sub a s b) = b_buffer b"
  "b_dropped (set_sub a s b) = b_dropped b" "length (b_heap (set_sub a s b)) = length (b_heap b)"
  "subs_of (set_sub a s b) u = subs_of b u" "registered (set_sub a s b) u c = registered b u c"
  by (simp_all add: set_sub_def subs_of_def registered_def)

lemma broker_okD:
  assumes "broker_ok b" and "registered b u a"
  shows "a < length (b_heap b)" and "su_user (sub_at b a) = u" and "\<not> su_once (sub_at b a)"
    and "\<not> su_closed (sub_at b a)"
proof -
  show a: "a < length (b_heap b)" using assms by (auto simp: broker_ok_def)
  then have "sub_ok b a" using assms(1) by (simp add: broker_ok_def)
  with assms(2) show "su_user (sub_at b a) = u" and "\<not> su_once (sub_at b a)"
    and "\<not> su_closed (sub_at b a)"
    by (auto simp: sub_ok_def)
qed

lemma broker_ok_change:
  assumes "broker_ok b" and "b_buffer b' = b_buffer b" and "b_subs b' = b_subs b"
    and "length (b_heap b') = length (b_heap b)"
    and "\<And>a. a < length (b_heap b) \<Longrightarrow>
      su_user (sub_at b' a) = su_user (sub_at b a) \<and> su_once (sub_at b' a) = su_once (sub_at b a) \<and>
      su_capacity (sub_at b' a) = su_capacity (sub_at b a) \<and>
      (su_closed (sub_at b' a) \<longrightarrow> su_once (sub_at b a)) \<and>
      length (su_events (sub_at b' a)) \<le> su_capacity (sub_at b a)"
  shows "broker_ok b'"
proof -
  have subs: "subs_of b' u = subs_of b u" and reg: "registered b' u a = registered b u a" for u a
    by (simp_all add: subs_of_def registered_def assms(3))
  have "sub_ok b' a" if a: "a < length (b_heap b)" for a
  proof -
    have "sub_ok b a" using a assms(1) by (simp add: broker_ok_def)
    then show ?thesis using assms(5) [OF a] by (simp add: sub_ok_def reg)
  qed
  then show ?thesis
    using assms(1) unfolding broker_ok_def by (simp add: assms(2,3,4) subs reg)
qed

lemma broker_ok_New: "broker_ok NewBroker"
  by (simp add: broker_ok_def NewBroker_def subs_of_def registered_def)

lemma broker_ok_subscribe:
  assumes "broker_ok b" and "Broker_Subscribe mt u (b, x) = (a, (b', x'))"
  shows "broker_ok b'" and "a = length (b_heap b)"
    and "subs_of b' v = (if v = u then subs_of b u @ [a] else subs_of b v)"
    and "length (b_heap b') = Suc (length (b_heap b))"
    and "c < length (b_heap b) \<Longrightarrow> sub_at b' c = sub_at b c"
    and "sub_at b' a = \<lparr>su_events = [], su_capacity = b_buffer b, su_closed = False,
           su_user = u, su_once = False\<rparr>"
proof -
  have b': "b_heap b' = b_heap b @ [\<lparr>su_events = [], su_capacity = b_buffer b, su_closed = False,
      su_user = u, su_once = False\<rparr>]"
    and subs: "b_subs b' = (b_subs b)(u \<mapsto> subs_of b u @ [a])" and a: "a = length (b_heap b)"
    and buf: "b_buffer b' = b_buffer b"
    using assms(2) by (auto simp: Broker_Subscribe_def Let_def subs_of_def)
  show a': "a = length (b_heap b)" by fact
  have sub: "subs_of b' v = (if v = u then subs_of b u @ [a] else subs_of b v)" for v
    by (simp add: subs_of_def subs)
  then show "subs_of b' v = (if v = u then subs_of b u @ [a] else subs_of b v)" .
  show len: "length (b_heap b') = Suc (length (b_heap b))" by (simp add: b')
  have old: "sub_at b' c = sub_at b c" if "c < length (b_heap b)" for c
    using that by (simp add: sub_at_def b' nth_append)
  then show "c < length (b_heap b) \<Longrightarrow> sub_at b' c = sub_at b c" .
  show new: "sub_at b' a = \<lparr>su_events = [], su_capacity = b_buffer b, su_closed = False,
           su_user = u, su_once = False\<rparr>"
    by (simp add: sub_at_def b' a)
  have reg: "registered b' v c \<longleftrightarrow> registered b v c \<or> (v = u \<and> c = a)" for v c
    by (auto simp: registered_def sub)
  have nreg: "\<not> registered b v a" for v
    using assms(1) a by (auto simp: broker_ok_def)
  show "broker_ok b'"
    unfolding broker_ok_def
  proof (intro conjI allI impI)
    show "b_buffer b' = defaultBuffer" using assms(1) buf by (simp add: broker_ok_def)
    show "sub_ok b' c" if "c < length (b_heap b')" for c
    proof (cases "c = a")
      case True
      then show ?thesis
        using nreg assms(1) by (auto simp: sub_ok_def new reg broker_ok_def defaultBuffer_def)
    next
      case False
      with that a len have "c < length (b_heap b)" by simp
      moreover from this have "sub_ok b c" using assms(1) by (simp add: broker_ok_def)
      ultimately show ?thesis
        using False by (simp add: sub_ok_def old reg)
    qed
    show "c < length (b_heap b')" if "registered b' v c" for v c
      using that assms(1) a len by (auto simp: reg broker_ok_def less_Suc_eq)
    show "distinct (subs_of b' v)" for v
      using assms(1) nreg by (auto simp: sub broker_ok_def registered_def)
    show "b_subs b' v \<noteq> Some []" for v
      using assms(1) by (simp add: subs broker_ok_def)
  qed
qed

lemma subs_of_cancel_remove:
  "subs_of (cancel_remove a b) v =
     (if v = su_user (sub_at b a) then filter (\<lambda>x. x \<noteq> a) (subs_of b v) else subs_of b v)"
  by (simp add: cancel_remove_def Let_def subs_of_def split: option.splits)

lemma cancel_remove_frame:
  "b_buffer (cancel_remove a b) = b_buffer b"
  "length (b_heap (cancel_remove a b)) = length (b_heap b)"
  "a < length (b_heap b) \<Longrightarrow> sub_at (cancel_remove a b) c =
     (if c = a then (sub_at b a)\<lparr>su_once := True\<rparr> else sub_at b c)"
  by (simp_all add: cancel_remove_def Let_def set_sub_def sub_at_def)

lemma broker_ok_cancel_remove:
  assumes "broker_ok b" and "a < length (b_heap b)"
  shows "broker_ok (cancel_remove a b)"
proof -
  have reg: "registered (cancel_remove a b) v c \<longleftrightarrow> registered b v c \<and> c \<noteq> a" for v c
    using broker_okD(2) [OF assms(1), of v a]
    by (auto simp: registered_def subs_of_cancel_remove)
  show ?thesis
    unfolding broker_ok_def
  proof (intro conjI allI impI)
    show "b_buffer (cancel_remove a b) = defaultBuffer"
      using assms(1) by (simp add: cancel_remove_frame broker_ok_def)
    show "sub_ok (cancel_remove a b) c" if "c < length (b_heap (cancel_remove a b))" for c
      using that assms by (auto simp: sub_ok_def reg cancel_remove_frame broker_ok_def)
    show "c < length (b_heap (cancel_remove a b))" if "registered (cancel_remove a b) v c" for v c
      using that assms(1) by (auto simp: reg cancel_remove_frame broker_ok_def)
    show "distinct (subs_of (cancel_remove a b) v)" for v
      using assms(1) by (simp add: subs_of_cancel_remove broker_ok_def)
    show "b_subs (cancel_remove a b) v \<noteq> Some []" for v
      using assms(1) by (simp add: cancel_remove_def Let_def broker_ok_def)
  qed
qed

section \<open>Publishing\<close>

definition full :: "subscriber \<Rightarrow> bool" where
  "full s \<longleftrightarrow> su_capacity s \<le> length (su_events s)"

definition deliver :: "Event \<Rightarrow> subscriber \<Rightarrow> subscriber" where
  "deliver e s = (if full s then s else s\<lparr>su_events := su_events s @ [e]\<rparr>)"

lemma deliver_frame [simp]:
  "su_user (deliver e s) = su_user s" "su_once (deliver e s) = su_once s"
  "su_closed (deliver e s) = su_closed s" "su_capacity (deliver e s) = su_capacity s"
  by (simp_all add: deliver_def)

lemma try_send_open:
  assumes "a < length (b_heap b)" and "\<not> su_closed (sub_at b a)"
  shows "\<exists>b' x'. try_send mt e a (b, x) = Some (b', x') \<and> b_subs b' = b_subs b \<and>
    b_buffer b' = b_buffer b \<and> length (b_heap b') = length (b_heap b) \<and>
    (\<forall>c. sub_at b' c = (if c = a then deliver e (sub_at b a) else sub_at b c)) \<and>
    b_dropped b' = b_dropped b + (if full (sub_at b a) then 1 else 0)"
  using assms
  by (cases "full (sub_at b a)")
    (auto simp: try_send_def Let_def full_def deliver_def)

lemma publish_loop_open:
  assumes "distinct as" and "\<forall>a\<in>set as. a < length (b_heap b) \<and> \<not> su_closed (sub_at b a)"
  shows "\<exists>b' x'. publish_loop mt e as (b, x) = Some (b', x') \<and> b_subs b' = b_subs b \<and>
    b_buffer b' = b_buffer b \<and> length (b_heap b') = length (b_heap b) \<and>
    (\<forall>c. sub_at b' c = (if c \<in> set as then deliver e (sub_at b c) else sub_at b c)) \<and>
    b_dropped b' = b_dropped b + of_nat (length (filter (\<lambda>a. full (sub_at b a)) as))"
  using assms
proof (induction as arbitrary: b x)
  case Nil
  then show ?case by simp
next
  case (Cons a as)
  obtain b1 x1 where 1: "try_send mt e a (b, x) = Some (b1, x1)" "b_subs b1 = b_subs b"
    "b_buffer b1 = b_buffer b" "length (b_heap b1) = length (b_heap b)"
    "\<forall>c. sub_at b1 c = (if c = a then deliver e (sub_at b a) else sub_at b c)"
    "b_dropped b1 = b_dropped b + (if full (sub_at b a) then 1 else 0)"
    using try_send_open [of a b mt e x] Cons.prems by auto
  have same: "sub_at b1 c = sub_at b c" if "c \<in> set as" for c
    using that 1(5) Cons.prems(1) by auto
  have "\<forall>c\<in>set as. c < length (b_heap b1) \<and> \<not> su_closed (sub_at b1 c)"
    using Cons.prems(2) 1(4) same by simp
  then obtain b2 x2 where 2: "publish_loop mt e as (b1, x1) = Some (b2, x2)" "b_subs b2 = b_subs b1"
    "b_buffer b2 = b_buffer b1" "length (b_heap b2) = length (b_heap b1)"
    "\<forall>c. sub_at b2 c = (if c \<in> set as then deliver e (sub_at b1 c) else sub_at b1 c)"
    "b_dropped b2 = b_dropped b1 + of_nat (length (filter (\<lambda>a. full (sub_at b1 a)) as))"
    using Cons.IH [of b1 x1] Cons.prems(1) by auto
  have flt: "filter (\<lambda>a. full (sub_at b1 a)) as = filter (\<lambda>a. full (sub_at b a)) as"
    using same by (auto intro: filter_cong)
  note n = 2(6) [unfolded flt 1(6)]
  have at: "sub_at b2 c = (if c \<in> set (a # as) then deliver e (sub_at b c) else sub_at b c)" for c
    using 2(5) 1(5) same Cons.prems(1) by auto
  show ?case
    using 1(1-4) 2(1-4) at n by (intro exI [of _ b2] exI [of _ x2]) simp
qed

lemma Publish_open:
  assumes "broker_ok b"
  obtains b' x' where "Broker_Publish mt e (b, x) = Some (b', x')"
    and "b_subs b' = b_subs b" and "b_buffer b' = b_buffer b"
    and "length (b_heap b') = length (b_heap b)"
    and "\<And>c. sub_at b' c = (if registered b (ev_UserID e) c then deliver e (sub_at b c) else sub_at b c)"
    and "b_dropped b' = b_dropped b +
           of_nat (length (filter (\<lambda>a. full (sub_at b a)) (subs_of b (ev_UserID e))))"
proof -
  have "distinct (subs_of b (ev_UserID e))" using assms by (simp add: broker_ok_def)
  moreover have "\<forall>a\<in>set (subs_of b (ev_UserID e)). a < length (b_heap b) \<and> \<not> su_closed (sub_at b a)"
    using broker_okD [OF assms] by (auto simp: registered_def)
  ultimately show thesis
    using publish_loop_open [of "subs_of b (ev_UserID e)" b mt e x] that
    by (auto simp: Broker_Publish_def registered_def)
qed

lemma broker_ok_publish:
  assumes "broker_ok b" and "Broker_Publish mt e (b, x) = Some (b', x')"
  shows "broker_ok b'"
proof -
  obtain b2 x2 where p: "Broker_Publish mt e (b, x) = Some (b2, x2)" "b_subs b2 = b_subs b"
    "b_buffer b2 = b_buffer b" "length (b_heap b2) = length (b_heap b)"
    "\<And>c. sub_at b2 c = (if registered b (ev_UserID e) c then deliver e (sub_at b c) else sub_at b c)"
    by (rule Publish_open [OF assms(1), of mt e x]) blast
  have [simp]: "b' = b2" using assms(2) p(1) by simp
  show ?thesis
  proof (rule broker_ok_change [OF assms(1) _ _ _])
    fix a
    assume "a < length (b_heap b)"
    then have "sub_ok b a" using assms(1) by (simp add: broker_ok_def)
    then show "su_user (sub_at b' a) = su_user (sub_at b a) \<and>
      su_once (sub_at b' a) = su_once (sub_at b a) \<and>
      su_capacity (sub_at b' a) = su_capacity (sub_at b a) \<and>
      (su_closed (sub_at b' a) \<longrightarrow> su_once (sub_at b a)) \<and>
      length (su_events (sub_at b' a)) \<le> su_capacity (sub_at b a)"
      by (auto simp: p(5) sub_ok_def deliver_def full_def)
  qed (simp_all add: p)
qed

lemma broker_ok_step:
  assumes "broker_step mt bx bx'" and "broker_ok (fst bx)"
  shows "broker_ok (fst bx')"
  using assms
proof cases
  case (subscribe u)
  obtain b x a b' x' where "bx = (b, x)" and "Broker_Subscribe mt u (b, x) = (a, (b', x'))"
    by (metis prod.exhaust)
  with subscribe assms(2) show ?thesis using broker_ok_subscribe(1) by auto
next
  case (cancel_begin a b x)
  with assms(2) show ?thesis by (simp add: broker_ok_cancel_remove)
next
  case (cancel_end a b x)
  then have "fst bx' = set_sub a ((sub_at b a)\<lparr>su_closed := True\<rparr>) b"
    by (auto simp: cancel_close_def)
  moreover have "broker_ok (set_sub a ((sub_at b a)\<lparr>su_closed := True\<rparr>) b)"
  proof (rule broker_ok_change)
    show "broker_ok b" using cancel_end(1) assms(2) by simp
    then have ok: "sub_ok b c" if "c < length (b_heap b)" for c
      using that by (simp add: broker_ok_def)
    show "su_user (sub_at (set_sub a ((sub_at b a)\<lparr>su_closed := True\<rparr>) b) c) = su_user (sub_at b c) \<and>
        su_once (sub_at (set_sub a ((sub_at b a)\<lparr>su_closed := True\<rparr>) b) c) = su_once (sub_at b c) \<and>
        su_capacity (sub_at (set_sub a ((sub_at b a)\<lparr>su_closed := True\<rparr>) b) c) = su_capacity (sub_at b c) \<and>
        (su_closed (sub_at (set_sub a ((sub_at b a)\<lparr>su_closed := True\<rparr>) b) c) \<longrightarrow> su_once (sub_at b c)) \<and>
        length (su_events (sub_at (set_sub a ((sub_at b a)\<lparr>su_closed := True\<rparr>) b) c)) \<le> su_capacity (sub_at b c)"
      if "c < length (b_heap b)" for c
      using ok [OF that] cancel_end(2,3) by (auto simp: sub_ok_def)
  qed simp_all
  ultimately show ?thesis by simp
next
  case (publish e)
  then show ?thesis
    using assms(2) broker_ok_publish by (cases bx; cases bx') auto
next
  case (receive a b x)
  then have ok: "sub_ok b c" if "c < length (b_heap b)" for c
    using that assms(2) by (simp add: broker_ok_def)
  have "broker_ok (Broker.receive a b)"
  proof (rule broker_ok_change)
    show "broker_ok b" using receive(1) assms(2) by simp
    fix c
    assume "c < length (b_heap b)"
    then show "su_user (sub_at (Broker.receive a b) c) = su_user (sub_at b c) \<and>
        su_once (sub_at (Broker.receive a b) c) = su_once (sub_at b c) \<and>
        su_capacity (sub_at (Broker.receive a b) c) = su_capacity (sub_at b c) \<and>
        (su_closed (sub_at (Broker.receive a b) c) \<longrightarrow> su_once (sub_at b c)) \<and>
        length (su_events (sub_at (Broker.receive a b) c)) \<le> su_capacity (sub_at b c)"
      using ok [of c] receive(3) by (auto simp: receive_def sub_ok_def)
  qed (simp_all add: receive_def)
  with receive show ?thesis by simp
qed

lemma broker_reachable_ok: "broker_reachable mt x0 bx \<Longrightarrow> broker_ok (fst bx)"
  unfolding broker_reachable_def
proof (induction rule: rtranclp_induct)
  case base
  show ?case by (simp add: broker_ok_New)
next
  case (step bx bx')
  then show ?case by (blast intro: broker_ok_step)
qed

section \<open>Properties\<close>

text \<open>C6:
  In every state that any interleaving of subscriptions, cancellations, publications and
  reads reaches, publishing an event does not panic (no send on a closed channel), and
  neither does \<open>cancel\<close>, called for the first time or again (no channel is closed twice).
\<close>

theorem broker_never_panics:
  assumes "broker_reachable mt x0 (b, x)" and "a < length (b_heap b)"
  shows "Broker_Publish mt e (b, x) \<noteq> None \<and> Broker_cancel mt a (b, x) \<noteq> None"
proof -
  have ok: "broker_ok b" using broker_reachable_ok [OF assms(1)] by simp
  obtain bx' where "Broker_Publish mt e (b, x) = Some bx'"
    by (rule Publish_open [OF ok, of mt e x]) blast
  moreover have "sub_ok b a" using ok assms(2) by (simp add: broker_ok_def)
  then have "Broker_cancel mt a (b, x) \<noteq> None"
    using assms(2) by (auto simp: Broker_cancel_def cancel_close_def cancel_remove_frame sub_ok_def)
  ultimately show ?thesis by simp
qed

text \<open>C7:
  \<open>Publish\<close> puts the event at the end of the channel of every current subscriber of the
  event's user that has room, leaves every other channel, the map of subscribers and the
  open channels alone, and counts one dropped event for every full channel. No channel
  ever holds more than \<open>defaultBuffer\<close> events.
\<close>

theorem publish_delivers:
  assumes "broker_reachable mt x0 (b, x)" and "Broker_Publish mt e (b, x) = Some (b', x')"
  shows "b_subs b' = b_subs b \<and> length (b_heap b') = length (b_heap b) \<and>
    (\<forall>a<length (b_heap b).
       length (su_events (sub_at b' a)) \<le> defaultBuffer \<and>
       sub_at b' a =
         (if a \<in> set (subs_of b (ev_UserID e)) \<and> length (su_events (sub_at b a)) < defaultBuffer
          then (sub_at b a)\<lparr>su_events := su_events (sub_at b a) @ [e]\<rparr> else sub_at b a)) \<and>
    Broker_Dropped b' = Broker_Dropped b + of_nat (length
      (filter (\<lambda>a. length (su_events (sub_at b a)) = defaultBuffer) (subs_of b (ev_UserID e))))"
proof -
  have ok: "broker_ok b" using broker_reachable_ok [OF assms(1)] by simp
  have cap: "su_capacity (sub_at b a) = defaultBuffer \<and> length (su_events (sub_at b a)) \<le> defaultBuffer"
    if "a < length (b_heap b)" for a
    using ok that by (auto simp: broker_ok_def sub_ok_def)
  have reg: "a < length (b_heap b)" if "a \<in> set (subs_of b u)" for a u
    using ok that by (auto simp: broker_ok_def registered_def)
  have full: "full (sub_at b a) \<longleftrightarrow> length (su_events (sub_at b a)) = defaultBuffer"
    if "a < length (b_heap b)" for a
    using cap [OF that] by (auto simp: full_def)
  have flt: "filter (\<lambda>a. full (sub_at b a)) (subs_of b u) =
      filter (\<lambda>a. length (su_events (sub_at b a)) = defaultBuffer) (subs_of b u)" for u
    using full reg by (auto intro: filter_cong)
  obtain b2 x2 where p: "Broker_Publish mt e (b, x) = Some (b2, x2)" "b_subs b2 = b_subs b"
    "length (b_heap b2) = length (b_heap b)"
    "\<And>c. sub_at b2 c = (if registered b (ev_UserID e) c then deliver e (sub_at b c) else sub_at b c)"
    "b_dropped b2 = b_dropped b + of_nat (length (filter (\<lambda>a. full (sub_at b a)) (subs_of b (ev_UserID e))))"
    by (rule Publish_open [OF ok, of mt e x]) blast
  have eq: "b' = b2" using assms(2) p(1) by simp
  have "length (su_events (sub_at b' a)) \<le> defaultBuffer \<and>
       sub_at b' a =
         (if a \<in> set (subs_of b (ev_UserID e)) \<and> length (su_events (sub_at b a)) < defaultBuffer
          then (sub_at b a)\<lparr>su_events := su_events (sub_at b a) @ [e]\<rparr> else sub_at b a)"
    if "a < length (b_heap b)" for a
    using cap [OF that] full [OF that] by (auto simp: eq p(4) deliver_def registered_def)
  then show ?thesis using p(2,3,5) unfolding flt Broker_Dropped_def eq by blast
qed

text \<open>C8:
  The first call of \<open>cancel\<close> takes the subscriber, and only that one, out of its user's
  subscribers (and the user out of the map with its last subscriber) and closes the channel;
  every later call changes nothing.
\<close>

theorem cancel_once:
  assumes "broker_reachable mt x0 (b, x)" and "a < length (b_heap b)"
    and "Broker_cancel mt a (b, x) = Some (b1, x1)"
  shows "Broker_cancel mt a (b1, x1) = Some (b1, x1) \<and>
    subs_of b1 u = filter (\<lambda>c. c \<noteq> a) (subs_of b u) \<and> b_subs b1 u \<noteq> Some [] \<and>
    (\<not> su_once (sub_at b a) \<longrightarrow> su_closed (sub_at b1 a))"
proof -
  have ok: "broker_ok b" using broker_reachable_ok [OF assms(1)] by simp
  then have sub: "sub_ok b a" using assms(2) by (simp add: broker_ok_def)
  have reg: "a \<notin> set (subs_of b v)" if "su_once (sub_at b a) \<or> v \<noteq> su_user (sub_at b a)" for v
    using sub that by (auto simp: sub_ok_def registered_def)
  then have same: "filter (\<lambda>c. c \<noteq> a) (subs_of b v) = subs_of b v"
    if "su_once (sub_at b a) \<or> v \<noteq> su_user (sub_at b a)" for v
    using that by (metis (mono_tags, lifting) filter_True)
  show ?thesis
  proof (cases "su_once (sub_at b a)")
    case True
    then show ?thesis
      using assms(3) same ok by (auto simp: Broker_cancel_def broker_ok_def)
  next
    case False
    then have b1: "b1 = set_sub a ((sub_at (cancel_remove a b) a)\<lparr>su_closed := True\<rparr>) (cancel_remove a b)"
      using assms(3) by (auto simp: Broker_cancel_def cancel_close_def split: if_splits)
    have at: "sub_at b1 a = (sub_at b a)\<lparr>su_once := True, su_closed := True\<rparr>"
      using assms(2) by (simp add: b1 cancel_remove_frame)
    have "subs_of b1 u = filter (\<lambda>c. c \<noteq> a) (subs_of b u)"
      using same [of u] by (simp add: b1 subs_of_cancel_remove)
    moreover have "b_subs b1 u \<noteq> Some []"
      using broker_ok_cancel_remove [OF ok assms(2)] by (simp add: b1 broker_ok_def)
    ultimately show ?thesis by (simp add: Broker_cancel_def at)
  qed
qed

section \<open>Witnesses\<close>

text \<open>One subscription of user 1 on a fresh broker, without metrics.\<close>

definition ex_broker :: broker where
  "ex_broker = fst (snd (Broker_Subscribe None 1 (NewBroker, ())))"

definition ex_broker_event :: Event where
  "ex_broker_event = \<lparr>ev_ID = 1, ev_UserID = 1, ev_Type = ''t'', ev_Payload = ''{}'',
     ev_OccurredAt = 0, ev_CreatedAt = 0, ev_IdempotencyKey = None\<rparr>"

lemma ex_broker_reachable: "broker_reachable None () (ex_broker, ())"
  unfolding broker_reachable_def
  by (rule r_into_rtranclp, rule broker_step.subscribe [of _ 1])
    (simp add: ex_broker_def Broker_Subscribe_def NewBroker_def Let_def)

lemma ex_broker_heap: "length (b_heap ex_broker) = 1" "subs_of ex_broker 1 = [0]"
  "sub_at ex_broker 0 = \<lparr>su_events = [], su_capacity = defaultBuffer, su_closed = False,
     su_user = 1, su_once = False\<rparr>"
  by (simp_all add: ex_broker_def Broker_Subscribe_def NewBroker_def Let_def subs_of_def sub_at_def)

theorem broker_never_panics_witness:
  "Broker_Publish None ex_broker_event (ex_broker, ()) \<noteq> None \<and>
   Broker_cancel None 0 (ex_broker, ()) \<noteq> None"
  using broker_never_panics [OF ex_broker_reachable, of 0] by (simp add: ex_broker_heap)

theorem publish_delivers_witness:
  "\<exists>b'. Broker_Publish None ex_broker_event (ex_broker, ()) = Some (b', ()) \<and>
     su_events (sub_at b' 0) = [ex_broker_event]"
proof -
  obtain b' where b': "Broker_Publish None ex_broker_event (ex_broker, ()) = Some (b', ())"
    by (auto simp: Broker_Publish_def try_send_def Let_def ex_broker_event_def ex_broker_heap
        defaultBuffer_def)
  from publish_delivers [OF ex_broker_reachable b'] have "su_events (sub_at b' 0) = [ex_broker_event]"
    by (simp add: ex_broker_heap ex_broker_event_def defaultBuffer_def)
  with b' show ?thesis by blast
qed

theorem cancel_once_witness:
  "\<exists>b1. Broker_cancel None 0 (ex_broker, ()) = Some (b1, ()) \<and> subs_of b1 1 = [] \<and>
     Broker_cancel None 0 (b1, ()) = Some (b1, ())"
proof -
  obtain b1 where b1: "Broker_cancel None 0 (ex_broker, ()) = Some (b1, ())"
    by (auto simp: Broker_cancel_def cancel_close_def cancel_remove_frame ex_broker_heap)
  from cancel_once [OF ex_broker_reachable _ b1, of 1] show ?thesis
    using b1 by (simp add: ex_broker_heap)
qed

end
