(* ===== verification/AggService.thy ===== *)
theory AggService
  imports World
begin

text \<open>
  \<open>internal/service/aggregation.go\<close>: aggregating one window, catching up on the pending
  ones, and reading the results. \<open>RunPending\<close> and \<open>pendingBuckets\<close> run the loop of
  \<open>BucketsBetween\<close>, which ends only for a positive window length; their result is \<open>None\<close>
  where that loop does not end. \<open>RunPending\<close> returns the runs it made beside an error, so
  its result is a pair, like Go's.
\<close>

definition DefaultRunsLimit :: int where "DefaultRunsLimit = 20"
definition MaxRunsLimit :: int where "MaxRunsLimit = 100"
definition MaxStatsRange :: duration where "MaxStatsRange = 90 * 24 * Hour"
definition defaultBackfill :: int where "defaultBackfill = 12"
definition defaultStatsWindow :: duration where "defaultStatsWindow = 7 * 24 * Hour"

record 'w AggregationRepository =
  ar_Aggregate :: "time \<Rightarrow> time \<Rightarrow> ('w, int) op"
  ar_RecordRun :: "AggregationRun \<Rightarrow> ('w, AggregationRun) op"
  ar_LastSucceededBucket :: "('w, time option) op"
  ar_EarliestEvent :: "('w, time option) op"
  ar_ListRuns :: "int \<Rightarrow> ('w, AggregationRun list) op"
  ar_Buckets :: "int \<Rightarrow> time \<Rightarrow> time \<Rightarrow> ('w, ActivityBucket list) op"
  ar_Daily :: "int \<Rightarrow> time \<Rightarrow> time \<Rightarrow> ('w, DailyActivity list) op"

record 'w AggregationMetrics =
  am_RunFinished :: "string \<Rightarrow> string \<Rightarrow> duration \<Rightarrow> int \<Rightarrow> 'w \<Rightarrow> 'w"
  am_LagSeconds :: "duration \<Rightarrow> 'w \<Rightarrow> 'w"

record 'w Aggregation =
  ag_repo :: "'w AggregationRepository"
  ag_metrics :: "'w AggregationMetrics option"
  ag_now :: "'w \<Rightarrow> time \<times> 'w"
  ag_bucket :: duration
  ag_backfill :: int

record 'w AggregationDeps =
  ad_Repo :: "'w AggregationRepository"
  ad_Metrics :: "'w AggregationMetrics option"
  ad_Now :: "('w \<Rightarrow> time \<times> 'w) option"
  ad_Bucket :: duration
  ad_Backfill :: int

record StatsQuery =
  sq_UserID :: int
  sq_From :: time
  sq_To :: time
  sq_Daily :: bool

record Stats =
  st_Bucket :: duration
  st_From :: time
  st_To :: time
  st_Buckets :: "ActivityBucket list"
  st_Days :: "DailyActivity list"

text \<open>\<open>time_Now\<close> is the clock of the process.\<close>

definition NewAggregation :: "('w \<Rightarrow> time \<times> 'w) \<Rightarrow> 'w AggregationDeps \<Rightarrow> 'w Aggregation" where
  "NewAggregation time_Now d =
     \<lparr>ag_repo = ad_Repo d, ag_metrics = ad_Metrics d,
      ag_now = (case ad_Now d of None \<Rightarrow> time_Now | Some now \<Rightarrow> now),
      ag_bucket = (if ad_Bucket d \<le> 0 then BucketDuration else ad_Bucket d),
      ag_backfill = (if ad_Backfill d \<le> 0 then defaultBackfill else ad_Backfill d)\<rparr>"

section \<open>One window\<close>

text \<open>The \<open>switch\<close> on the error of \<open>Aggregate\<close>: status, users touched, message.\<close>

definition run_outcome :: "go_error + int \<Rightarrow> RunStatus \<times> int \<times> string option" where
  "run_outcome r =
     (case r of
        Inl err \<Rightarrow>
          if errors_Is err Repo_ErrBucketLocked then (RunSkipped, 0, None)
          else (RunFailed, 0, Some (error_text err))
      | Inr touched \<Rightarrow> (RunSucceeded, touched, None))"

definition run_finished ::
    "'w Aggregation \<Rightarrow> RunStatus \<Rightarrow> RunTrigger \<Rightarrow> duration \<Rightarrow> int \<Rightarrow> 'w \<Rightarrow> 'w" where
  "run_finished s status trigger d rows w =
     (case ag_metrics s of
        None \<Rightarrow> w
      | Some m \<Rightarrow> am_RunFinished m (RunStatus_string status) (RunTrigger_string trigger) d rows w)"

definition RunBucket :: "'w Aggregation \<Rightarrow> time \<Rightarrow> RunTrigger \<Rightarrow> ('w, AggregationRun) op" where
  "RunBucket s t trigger w =
     (let (t, w) = (if IsZero t
                    then (case ag_now s w of (now, w1) \<Rightarrow> (Add (UTC now) (- ag_bucket s), w1))
                    else (t, w));
          start = BucketStart t (ag_bucket s);
          fin = Add start (ag_bucket s)
      in case ag_now s w of
           (now2, w2) \<Rightarrow>
             (if After fin (UTC now2) then (Inl Svc_ErrBucketNotClosed, w2)
              else
                (case ag_now s w2 of
                   (startedAt, w3) \<Rightarrow>
                     (case ar_Aggregate (ag_repo s) start fin w3 of
                        (r, w4) \<Rightarrow>
                          (case run_outcome r of
                             (status, touched, message) \<Rightarrow>
                               (case ag_now s w4 of
                                  (finished, w5) \<Rightarrow>
                                    ar_RecordRun (ag_repo s)
                                      \<lparr>run_ID = 0, run_BucketStart = start, run_BucketEnd = fin,
                                       run_Status = status, run_Trigger = trigger,
                                       run_UsersTouched = touched, run_StartedAt = UTC startedAt,
                                       run_FinishedAt = Some (UTC finished), run_Error = message\<rparr>
                                      (run_finished s status trigger
                                         (Sub (UTC finished) (UTC startedAt)) touched w5)))))))"

section \<open>The pending windows\<close>

definition reportLag :: "'w Aggregation \<Rightarrow> time option \<Rightarrow> time \<Rightarrow> 'w \<Rightarrow> 'w" where
  "reportLag s newest newestClosed w =
     (case ag_metrics s of
        None \<Rightarrow> w
      | Some m \<Rightarrow>
          (case newest of
             None \<Rightarrow> am_LagSeconds m 0 w
           | Some l \<Rightarrow>
               (let lag = Sub newestClosed (UTC l)
                in am_LagSeconds m (if lag < 0 then 0 else lag) w)))"

definition pending_from :: "'w Aggregation \<Rightarrow> time \<Rightarrow> time \<Rightarrow> 'w \<Rightarrow> ((go_error + time list) \<times> 'w) option" where
  "pending_from s from newestClosed w =
     (if After from newestClosed then Some (Inr [], w)
      else (case BucketsBetween from newestClosed (ag_bucket s) of
              None \<Rightarrow> None
            | Some buckets \<Rightarrow>
                Some (Inr (if int (length buckets) > ag_backfill s
                           then take (nat (ag_backfill s)) buckets else buckets), w)))"

definition pendingBuckets :: "'w Aggregation \<Rightarrow> 'w \<Rightarrow> ((go_error + time list) \<times> 'w) option" where
  "pendingBuckets s w =
     (case ag_now s w of
        (now, w1) \<Rightarrow>
          (let newestClosed = Add (BucketStart (UTC now) (ag_bucket s)) (- ag_bucket s)
           in case ar_LastSucceededBucket (ag_repo s) w1 of
                (Inl err, w2) \<Rightarrow> Some (Inl err, w2)
              | (Inr newest, w2) \<Rightarrow>
                  (let w3 = reportLag s newest newestClosed w2
                   in case newest of
                        Some l \<Rightarrow> pending_from s (Add (UTC l) (ag_bucket s)) newestClosed w3
                      | None \<Rightarrow>
                          (case ar_EarliestEvent (ag_repo s) w3 of
                             (Inl err, w4) \<Rightarrow> Some (Inl err, w4)
                           | (Inr earliest, w4) \<Rightarrow>
                               (case earliest of
                                  None \<Rightarrow> Some (Inr [], w4)
                                | Some e \<Rightarrow>
                                    pending_from s (BucketStart e (ag_bucket s)) newestClosed w4)))))"

fun pending_loop ::
    "'w Aggregation \<Rightarrow> time list \<Rightarrow> AggregationRun list \<Rightarrow> 'w \<Rightarrow>
     (AggregationRun list \<times> go_error option) \<times> 'w" where
  "pending_loop s [] runs w = ((runs, None), w)"
| "pending_loop s (start # rest) runs w =
     (case RunBucket s start TriggerSchedule w of
        (Inl err, w1) \<Rightarrow> ((runs, Some err), w1)
      | (Inr run, w1) \<Rightarrow>
          if run_Status run \<noteq> RunSucceeded then ((runs @ [run], None), w1)
          else pending_loop s rest (runs @ [run]) w1)"

definition RunPending ::
    "'w Aggregation \<Rightarrow> 'w \<Rightarrow> ((AggregationRun list \<times> go_error option) \<times> 'w) option" where
  "RunPending s w =
     (case pendingBuckets s w of
        None \<Rightarrow> None
      | Some (Inl err, w1) \<Rightarrow> Some (([], Some err), w1)
      | Some (Inr pending, w1) \<Rightarrow>
          if pending = [] then Some (([], None), w1) else Some (pending_loop s pending [] w1))"

section \<open>Reading\<close>

definition Runs :: "'w Aggregation \<Rightarrow> int \<Rightarrow> ('w, AggregationRun list) op" where
  "Runs s limit =
     ar_ListRuns (ag_repo s)
       (if limit \<le> 0 then DefaultRunsLimit
        else if limit > MaxRunsLimit then MaxRunsLimit else limit)"

text \<open>The text of a \<open>time.Duration\<close> of whole hours, as \<open>%s\<close> prints it.\<close>

definition hours_text :: "duration \<Rightarrow> string" where
  "hours_text d = FormatInt (d div Hour) @ ''h0m0s''"

definition Aggregation_Stats :: "'w Aggregation \<Rightarrow> StatsQuery \<Rightarrow> ('w, Stats) op" where
  "Aggregation_Stats s q w =
     (let (to, w) = (if IsZero (UTC (sq_To q))
                     then (case ag_now s w of (now, w1) \<Rightarrow> (UTC now, w1)) else (UTC (sq_To q), w));
          from = (if IsZero (UTC (sq_From q)) then Add to (- defaultStatsWindow) else UTC (sq_From q))
      in if \<not> Before from to then (Inl Svc_ErrInvalidTimeRange, w)
         else if Sub to from > MaxStatsRange
           then (Inl (Wrapped '''' Svc_ErrStatsRangeTooLarge
                   ('': the window is longer than '' @ hours_text MaxStatsRange)), w)
         else
           (let from = BucketStart from (ag_bucket s);
                stats = \<lparr>st_Bucket = ag_bucket s, st_From = from, st_To = to,
                         st_Buckets = [], st_Days = []\<rparr>
            in if sq_Daily q
               then (case ar_Daily (ag_repo s) (sq_UserID q) from to w of
                       (Inl err, w1) \<Rightarrow> (Inl err, w1)
                     | (Inr days, w1) \<Rightarrow> (Inr (stats\<lparr>st_Days := days\<rparr>), w1))
               else (case ar_Buckets (ag_repo s) (sq_UserID q) from to w of
                       (Inl err, w1) \<Rightarrow> (Inl err, w1)
                     | (Inr buckets, w1) \<Rightarrow> (Inr (stats\<lparr>st_Buckets := buckets\<rparr>), w1))))"

section \<open>The service of the process\<close>

definition aggregation_repository :: "'m db_scheme AggregationRepository" where
  "aggregation_repository =
     \<lparr>ar_Aggregate = AggregationRepository_Aggregate, ar_RecordRun = AggregationRepository_RecordRun,
      ar_LastSucceededBucket = AggregationRepository_LastSucceededBucket,
      ar_EarliestEvent = AggregationRepository_EarliestEvent,
      ar_ListRuns = AggregationRepository_ListRuns, ar_Buckets = AggregationRepository_Buckets,
      ar_Daily = AggregationRepository_Daily\<rparr>"

definition aggregation_metrics :: "world AggregationMetrics" where
  "aggregation_metrics =
     \<lparr>am_RunFinished = (\<lambda>status trigger d rows w.
         w\<lparr>w_metrics := RunFinished status trigger d rows (w_metrics w)\<rparr>),
      am_LagSeconds = (\<lambda>lag w. w\<lparr>w_metrics := LagSeconds lag (w_metrics w)\<rparr>)\<rparr>"

definition aggregation_service :: "duration \<Rightarrow> int \<Rightarrow> world Aggregation" where
  "aggregation_service bucket backfill =
     NewAggregation world_now
       \<lparr>ad_Repo = aggregation_repository, ad_Metrics = Some aggregation_metrics, ad_Now = None,
        ad_Bucket = bucket, ad_Backfill = backfill\<rparr>"

end
