(* ===== verification/AggProps.thy ===== *)
theory AggProps
  imports AggService Examples
begin

text \<open>
  What the aggregation service promises. \<open>aggregation_store\<close> is the contract of its
  repository as far as the history of runs goes, \<open>aggregation_client\<close> a service over such a
  repository; the lemmas about single windows and about catching up are proved there, and
  the process of the program is shown to be an instance.
\<close>

section \<open>The contract of an aggregation store\<close>

locale aggregation_store =
  fixes repo :: "'w AggregationRepository"
    and runs :: "'w \<Rightarrow> AggregationRun list"
    and events :: "'w \<Rightarrow> Event list"
  assumes aggregate_keeps: "ar_Aggregate repo a b w = (r, w') \<Longrightarrow> runs w' = runs w \<and> events w' = events w"
    and record_Inr: "ar_RecordRun repo run w = (Inr row, w') \<Longrightarrow>
      (\<exists>n. row = stored_run n run) \<and> runs w' = runs w @ [row] \<and> events w' = events w"
    and record_Inl: "ar_RecordRun repo run w = (Inl err, w') \<Longrightarrow> runs w' = runs w \<and> events w' = events w"
    and last_Inr: "ar_LastSucceededBucket repo w = (Inr t, w') \<Longrightarrow> t = last_succeeded (runs w)"
    and last_keeps: "ar_LastSucceededBucket repo w = (r2, w') \<Longrightarrow> runs w' = runs w \<and> events w' = events w"
    and earliest_Inr: "ar_EarliestEvent repo w = (Inr t, w') \<Longrightarrow> t = min_time (map ev_OccurredAt (events w))"
    and earliest_keeps: "ar_EarliestEvent repo w = (r2, w') \<Longrightarrow> runs w' = runs w \<and> events w' = events w"

locale aggregation_client = aggregation_store repo runs events
  for repo :: "'w AggregationRepository" and runs :: "'w \<Rightarrow> AggregationRun list"
    and events :: "'w \<Rightarrow> Event list" +
  fixes s :: "'w Aggregation"
  assumes repo_s: "ag_repo s = repo"
    and bucket_pos: "0 < ag_bucket s"
    and backfill_pos: "0 < ag_backfill s"
    and now_keeps: "ag_now s w = (t, w') \<Longrightarrow> runs w' = runs w \<and> events w' = events w"
    and finished_keeps: "runs (run_finished s st tr d n w) = runs w \<and> events (run_finished s st tr d n w) = events w"
    and lag_keeps: "runs (reportLag s l c w) = runs w \<and> events (reportLag s l c w) = events w"

section \<open>One window\<close>

text \<open>
  A call of \<open>RunBucket\<close> for a given time either refuses a window that has not ended by the
  clock, or aggregates it and records what came out.
\<close>

lemma RunBucket_cases:
  assumes "RunBucket s t trigger w = (res, w')" and "t \<noteq> 0"
  obtains
    (not_closed) now where "ag_now s w = (now, w')" and "now < BucketStart t (ag_bucket s) + ag_bucket s"
      and "res = Inl Svc_ErrBucketNotClosed"
  | (closed) now w2 startedAt w3 r w4 finished w5 status touched message where
      "ag_now s w = (now, w2)" and "BucketStart t (ag_bucket s) + ag_bucket s \<le> now"
      and "ag_now s w2 = (startedAt, w3)"
      and "ar_Aggregate (ag_repo s) (BucketStart t (ag_bucket s))
             (BucketStart t (ag_bucket s) + ag_bucket s) w3 = (r, w4)"
      and "run_outcome r = (status, touched, message)"
      and "ag_now s w4 = (finished, w5)"
      and "ar_RecordRun (ag_repo s)
             \<lparr>run_ID = 0, run_BucketStart = BucketStart t (ag_bucket s),
              run_BucketEnd = BucketStart t (ag_bucket s) + ag_bucket s,
              run_Status = status, run_Trigger = trigger, run_UsersTouched = touched,
              run_StartedAt = startedAt, run_FinishedAt = Some finished, run_Error = message\<rparr>
             (run_finished s status trigger (Sub finished startedAt) touched w5) = (res, w')"
proof -
  obtain now w2 where 1: "ag_now s w = (now, w2)" by fastforce
  obtain startedAt w3 where 2: "ag_now s w2 = (startedAt, w3)" by fastforce
  obtain r w4 where 3: "ar_Aggregate (ag_repo s) (BucketStart t (ag_bucket s))
      (BucketStart t (ag_bucket s) + ag_bucket s) w3 = (r, w4)" by fastforce
  obtain status touched message where 4: "run_outcome r = (status, touched, message)"
    by (cases "run_outcome r")
  obtain finished w5 where 5: "ag_now s w4 = (finished, w5)" by fastforce
  show thesis
  proof (cases "now < BucketStart t (ag_bucket s) + ag_bucket s")
    case True
    with assms 1 show thesis
      by (intro not_closed [of now]) (simp_all add: RunBucket_def Let_def time_defs)
  next
    case False
    with assms 1 2 3 4 5 show thesis
      by (intro closed [of now w2 startedAt w3 r w4 status touched message finished w5])
        (simp_all add: RunBucket_def Let_def time_defs)
  qed
qed

context aggregation_client
begin

lemma RunBucket_Inl:
  assumes "RunBucket s t trigger w = (Inl err, w')" and "t \<noteq> 0"
  shows "runs w' = runs w \<and> events w' = events w"
  using assms
proof (cases rule: RunBucket_cases)
  case not_closed
  then show ?thesis by (simp add: now_keeps)
next
  case closed
  note closed = closed [unfolded repo_s]
  show ?thesis
    using record_Inl [OF closed(7)] now_keeps [OF closed(1)] now_keeps [OF closed(3)]
      now_keeps [OF closed(6)] aggregate_keeps [OF closed(4)] finished_keeps
    by simp
qed

lemma RunBucket_Inr:
  assumes "RunBucket s t trigger w = (Inr row, w')" and "t \<noteq> 0" and "Microsecond dvd ag_bucket s"
  shows "runs w' = runs w @ [row]" and "events w' = events w"
    and "run_BucketStart row = BucketStart t (ag_bucket s)"
    and "run_BucketEnd row = BucketStart t (ag_bucket s) + ag_bucket s"
    and "run_Trigger row = trigger"
proof -
  have "runs w' = runs w @ [row] \<and> events w' = events w \<and>
    run_BucketStart row = BucketStart t (ag_bucket s) \<and>
    run_BucketEnd row = BucketStart t (ag_bucket s) + ag_bucket s \<and> run_Trigger row = trigger"
    using assms(1,2)
  proof (cases rule: RunBucket_cases)
    case not_closed
    then show ?thesis by simp
  next
    case closed
    note closed = closed [unfolded repo_s]
    have "Microsecond dvd BucketStart t (ag_bucket s)"
      using BucketStart_dvd [OF bucket_pos] assms(3) by (rule dvd_trans [rotated])
    then have "timestamptz (BucketStart t (ag_bucket s)) = BucketStart t (ag_bucket s)"
      "timestamptz (BucketStart t (ag_bucket s) + ag_bucket s) = BucketStart t (ag_bucket s) + ag_bucket s"
      using assms(3) by (simp_all add: timestamptz_id)
    then show ?thesis
      using record_Inr [OF closed(7)] now_keeps [OF closed(1)] now_keeps [OF closed(3)]
        now_keeps [OF closed(6)] aggregate_keeps [OF closed(4)] finished_keeps
      by (auto simp: stored_run_def)
  qed
  then show "runs w' = runs w @ [row]" and "events w' = events w"
    and "run_BucketStart row = BucketStart t (ag_bucket s)"
    and "run_BucketEnd row = BucketStart t (ag_bucket s) + ag_bucket s"
    and "run_Trigger row = trigger" by auto
qed

section \<open>Which windows are pending\<close>

definition backlog_from :: "'w \<Rightarrow> time option" where
  "backlog_from w =
     (case last_succeeded (runs w) of
        Some l \<Rightarrow> Some (l + ag_bucket s)
      | None \<Rightarrow> map_option (\<lambda>e. BucketStart e (ag_bucket s)) (min_time (map ev_OccurredAt (events w))))"

definition newest_closed :: "'w \<Rightarrow> time" where
  "newest_closed w = BucketStart (fst (ag_now s w)) (ag_bucket s) - ag_bucket s"

definition backlog :: "'w \<Rightarrow> time list" where
  "backlog w =
     (case backlog_from w of
        None \<Rightarrow> []
      | Some from \<Rightarrow>
          if newest_closed w < from then []
          else windows (BucketStart from (ag_bucket s)) (ag_bucket s)
                 (window_count (BucketStart from (ag_bucket s)) (newest_closed w) (ag_bucket s)))"

lemma newest_closed_window: "BucketStart (newest_closed w) (ag_bucket s) = newest_closed w"
  unfolding newest_closed_def by (simp add: BucketStart_multiple BucketStart_dvd bucket_pos)

lemma pending_from_eq:
  "pending_from s from (newest_closed w0) w =
     Some (Inr (if newest_closed w0 < from then []
                else take (nat (ag_backfill s)) (windows (BucketStart from (ag_bucket s)) (ag_bucket s)
                   (window_count (BucketStart from (ag_bucket s)) (newest_closed w0) (ag_bucket s)))), w)"
  unfolding pending_from_def
  by (simp add: BucketsBetween_windows [OF bucket_pos] newest_closed_window After_def take_windows)

lemma pendingBuckets_returns: "\<exists>r w'. pendingBuckets s w = Some (r, w')"
  by (auto simp: pendingBuckets_def pending_from_def BucketsBetween_windows [OF bucket_pos] Let_def
      split: prod.splits sum.splits option.splits)

lemma pendingBuckets_Inr:
  assumes "pendingBuckets s w = Some (Inr ps, w')"
  shows "ps = take (nat (ag_backfill s)) (backlog w)" and "runs w' = runs w" and "events w' = events w"
proof -
  obtain now w1 where 1: "ag_now s w = (now, w1)" by fastforce
  have c: "Add (BucketStart (UTC now) (ag_bucket s)) (- ag_bucket s) = newest_closed w"
    by (simp add: newest_closed_def 1 Add_def)
  obtain l w2 where 2: "ar_LastSucceededBucket repo w1 = (Inr l, w2)"
    using assms by (auto simp: pendingBuckets_def 1 repo_s Let_def split: prod.splits sum.splits)
  let ?w3 = "reportLag s l (newest_closed w) w2"
  have k3: "runs ?w3 = runs w \<and> events ?w3 = events w"
    using now_keeps [OF 1] last_keeps [OF 2] lag_keeps by simp
  have l: "l = last_succeeded (runs w)"
    using last_Inr [OF 2] now_keeps [OF 1] by simp
  have "ps = take (nat (ag_backfill s)) (backlog w) \<and> runs w' = runs w \<and> events w' = events w"
  proof (cases l)
    case (Some t)
    then have "pending_from s (t + ag_bucket s) (newest_closed w) ?w3 = Some (Inr ps, w')"
      using assms 2 by (simp add: pendingBuckets_def 1 repo_s Let_def c [unfolded UTC_simp] Add_def
          newest_closed_def)
    moreover have "backlog_from w = Some (t + ag_bucket s)"
      by (simp add: backlog_from_def l [symmetric] Some)
    ultimately show ?thesis
      using k3 unfolding pending_from_eq backlog_def by (simp split: if_splits)
  next
    case None
    obtain e w4 where 4: "ar_EarliestEvent repo ?w3 = (Inr e, w4)"
      using assms 2 None
      by (auto simp: pendingBuckets_def 1 repo_s Let_def c [unfolded UTC_simp] split: prod.splits sum.splits)
    have k4: "runs w4 = runs w \<and> events w4 = events w" using earliest_keeps [OF 4] k3 by simp
    have e: "e = min_time (map ev_OccurredAt (events w))" using earliest_Inr [OF 4] k3 by simp
    show ?thesis
    proof (cases e)
      case None
      then show ?thesis
        using assms 2 4 \<open>l = None\<close> k4 l e
        by (auto simp: pendingBuckets_def 1 repo_s Let_def c [unfolded UTC_simp] backlog_def backlog_from_def)
    next
      case (Some t)
      then have "pending_from s (BucketStart t (ag_bucket s)) (newest_closed w) w4 = Some (Inr ps, w')"
        using assms 2 4 \<open>l = None\<close>
        by (simp add: pendingBuckets_def 1 repo_s Let_def c [unfolded UTC_simp])
      moreover have "backlog_from w = Some (BucketStart t (ag_bucket s))"
        by (simp add: backlog_from_def l [symmetric] \<open>l = None\<close> e [symmetric] Some)
      ultimately show ?thesis
        using k4 unfolding pending_from_eq backlog_def by (simp split: if_splits)
    qed
  qed
  then show "ps = take (nat (ag_backfill s)) (backlog w)" and "runs w' = runs w"
    and "events w' = events w" by auto
qed

lemma pendingBuckets_Inl:
  assumes "pendingBuckets s w = Some (Inl err, w')"
  shows "runs w' = runs w"
proof -
  obtain now w1 where 1: "ag_now s w = (now, w1)" by fastforce
  obtain l w2 where 2: "ar_LastSucceededBucket repo w1 = (l, w2)" by fastforce
  have k: "runs w2 = runs w" using now_keeps [OF 1] last_keeps [OF 2] by simp
  show ?thesis
    using assms k lag_keeps
    by (auto simp: pendingBuckets_def 1 2 repo_s Let_def pending_from_def
        BucketsBetween_windows [OF bucket_pos]
        split: sum.splits option.splits prod.splits if_splits dest!: earliest_keeps)
qed

section \<open>The loop over the pending windows\<close>

text \<open>What a pass leaves behind: the runs it made, in order, and why it stopped.\<close>

definition pass_ok :: "time list \<Rightarrow> AggregationRun list \<Rightarrow> go_error option \<Rightarrow> bool" where
  "pass_ok pending new err \<longleftrightarrow>
     length new \<le> length pending \<and> map run_BucketStart new = take (length new) pending \<and>
     (\<forall>r\<in>set new. run_BucketEnd r = run_BucketStart r + ag_bucket s \<and> run_Trigger r = TriggerSchedule) \<and>
     (\<forall>r\<in>set (butlast new). succeeded r) \<and>
     (err \<noteq> None \<longrightarrow> (\<forall>r\<in>set new. succeeded r)) \<and>
     (err = None \<and> length new < length pending \<longrightarrow> new \<noteq> [] \<and> \<not> succeeded (last new))"

lemma pending_loop_result:
  assumes "pending_loop s ps acc w = ((rs, err), w')" and "Microsecond dvd ag_bucket s"
    and "\<forall>p\<in>set ps. ag_bucket s dvd p \<and> p \<noteq> 0"
  shows "\<exists>new. rs = acc @ new \<and> runs w' = runs w @ new \<and> events w' = events w \<and> pass_ok ps new err"
  using assms(1,3)
proof (induction ps arbitrary: acc w)
  case Nil
  then show ?case by (auto simp: pass_ok_def)
next
  case (Cons p ps)
  have p: "p \<noteq> 0" "BucketStart p (ag_bucket s) = p"
    using Cons.prems(2) by (simp_all add: BucketStart_multiple)
  obtain r w1 where b: "RunBucket s p TriggerSchedule w = (r, w1)" by fastforce
  show ?case
  proof (cases r)
    case (Inl e)
    then show ?thesis
      using Cons.prems(1) b RunBucket_Inl [of p TriggerSchedule w e w1] p by (auto simp: pass_ok_def)
  next
    case (Inr row)
    note row = RunBucket_Inr [OF b [unfolded Inr] p(1) assms(2), unfolded p(2)]
    show ?thesis
    proof (cases "succeeded row")
      case False
      then have "rs = acc @ [row]" "err = None" "w' = w1"
        using Cons.prems(1) b Inr by (auto simp: succeeded_def)
      then show ?thesis using row False by (auto simp: pass_ok_def)
    next
      case True
      then have "pending_loop s ps (acc @ [row]) w1 = ((rs, err), w')"
        using Cons.prems(1) b Inr by (simp add: succeeded_def)
      from Cons.IH [OF this] Cons.prems(2) obtain new
        where new: "rs = (acc @ [row]) @ new" "runs w' = runs w1 @ new" "events w' = events w1"
          "pass_ok ps new err" by auto
      have "pass_ok (p # ps) (row # new) err"
        using new(4) row True by (auto simp: pass_ok_def)
      then show ?thesis using new row by (intro exI [of _ "row # new"]) simp
    qed
  qed
qed

lemma RunPending_returns: "\<exists>r w'. RunPending s w = Some (r, w')"
proof -
  obtain r w1 where "pendingBuckets s w = Some (r, w1)" using pendingBuckets_returns by blast
  then show ?thesis
    by (cases r; cases "pending_loop s (projr r) [] w1") (auto simp: RunPending_def)
qed

text \<open>No window of the year 1, whose start would read as "no time given".\<close>

definition in_range :: "'w \<Rightarrow> bool" where
  "in_range w \<longleftrightarrow> (\<forall>r\<in>set (runs w). 0 \<le> run_BucketStart r \<and> ag_bucket s dvd run_BucketStart r) \<and>
     (\<forall>e\<in>set (events w). ag_bucket s \<le> ev_OccurredAt e)"

lemma backlog_from_pos:
  assumes "in_range w" and "backlog_from w = Some b0"
  shows "0 < b0" and "ag_bucket s dvd b0"
proof -
  have "0 < b0 \<and> ag_bucket s dvd b0"
  proof (cases "last_succeeded (runs w)")
    case (Some l)
    then have "l \<in> run_BucketStart ` set (runs w)"
      by (auto simp: last_succeeded_def dest!: max_time_SomeD(1))
    with assms Some bucket_pos show ?thesis
      by (force simp: backlog_from_def in_range_def)
  next
    case None
    then obtain e where e: "min_time (map ev_OccurredAt (events w)) = Some e"
      and b0: "b0 = BucketStart e (ag_bucket s)"
      using assms(2) by (auto simp: backlog_from_def)
    have "e \<in> ev_OccurredAt ` set (events w)"
      using e by (auto simp: min_time_Min split: if_splits intro: Min_in)
    then have "ag_bucket s \<le> e" using assms(1) by (auto simp: in_range_def)
    then have "BucketStart (ag_bucket s) (ag_bucket s) \<le> b0"
      unfolding b0 by (rule BucketStart_mono)
    then show ?thesis
      using bucket_pos BucketStart_dvd [OF bucket_pos] by (simp add: b0 BucketStart_multiple)
  qed
  then show "0 < b0" and "ag_bucket s dvd b0" by auto
qed

lemma backlog_set:
  assumes "in_range w" and "p \<in> set (backlog w)"
  shows "ag_bucket s dvd p" and "0 < p" and "p \<le> newest_closed w"
    and "\<exists>b0. backlog_from w = Some b0 \<and> b0 \<le> p"
proof -
  obtain b0 where b0: "backlog_from w = Some b0"
    using assms(2) by (cases "backlog_from w") (auto simp: backlog_def)
  have le: "b0 \<le> newest_closed w"
    and p: "p \<in> set (windows (BucketStart b0 (ag_bucket s)) (ag_bucket s)
              (window_count (BucketStart b0 (ag_bucket s)) (newest_closed w) (ag_bucket s)))"
    using assms(2) by (auto simp: backlog_def b0 split: if_splits)
  note from_pos = backlog_from_pos [OF assms(1) b0]
  have start: "BucketStart b0 (ag_bucket s) = b0" using from_pos(2) by (rule BucketStart_multiple)
  have nc: "ag_bucket s dvd newest_closed w"
    by (metis newest_closed_window BucketStart_dvd bucket_pos)
  have "p \<in> {t. ag_bucket s dvd t \<and> b0 \<le> t \<and> t \<le> newest_closed w}"
    using p windows_between_set [OF bucket_pos from_pos(2) nc] by (simp add: start)
  then show "ag_bucket s dvd p" and "0 < p" and "p \<le> newest_closed w"
    and "\<exists>b0. backlog_from w = Some b0 \<and> b0 \<le> p"
    using from_pos b0 by auto
qed

lemma RunPending_pass:
  assumes "RunPending s w = Some ((rs, err), w')" and "Microsecond dvd ag_bucket s" and "in_range w"
  shows "runs w' = runs w @ rs" and "length rs \<le> nat (ag_backfill s)"
    and "rs \<noteq> [] \<Longrightarrow> pass_ok (take (nat (ag_backfill s)) (backlog w)) rs err"
    and "err = None \<Longrightarrow> pass_ok (take (nat (ag_backfill s)) (backlog w)) rs err"
    and "map run_BucketStart rs = take (length rs) (backlog w)"
proof -
  obtain r w1 where p: "pendingBuckets s w = Some (r, w1)" using pendingBuckets_returns by blast
  have "runs w' = runs w @ rs \<and> length rs \<le> nat (ag_backfill s) \<and>
    (rs \<noteq> [] \<longrightarrow> pass_ok (take (nat (ag_backfill s)) (backlog w)) rs err) \<and>
    (err = None \<longrightarrow> pass_ok (take (nat (ag_backfill s)) (backlog w)) rs err) \<and>
    map run_BucketStart rs = take (length rs) (backlog w)"
  proof (cases r)
    case (Inl e)
    then show ?thesis
      using assms(1) p pendingBuckets_Inl [of w e w1] by (auto simp: RunPending_def)
  next
    case (Inr ps)
    note ps = pendingBuckets_Inr [OF p [unfolded Inr]]
    have mem: "\<forall>q\<in>set ps. ag_bucket s dvd q \<and> q \<noteq> 0"
      using backlog_set(1,2) [OF assms(3)] by (metis ps(1) in_set_takeD less_irrefl)
    show ?thesis
    proof (cases "ps = []")
      case True
      then have "rs = []" "err = None" "w' = w1" using assms(1) p Inr by (auto simp: RunPending_def)
      moreover have "pass_ok ps [] None" using True by (simp add: pass_ok_def)
      ultimately show ?thesis using ps by simp
    next
      case False
      then have "pending_loop s ps [] w1 = ((rs, err), w')"
        using assms(1) p Inr by (simp add: RunPending_def)
      from pending_loop_result [OF this assms(2) mem] ps
      have ok: "runs w' = runs w @ rs" "pass_ok ps rs err" by auto
      then have "length rs \<le> length ps" "map run_BucketStart rs = take (length rs) ps"
        by (auto simp: pass_ok_def)
      moreover have "take (length rs) ps = take (length rs) (backlog w)"
        using \<open>length rs \<le> length ps\<close> by (simp add: ps(1))
      ultimately show ?thesis using ok ps(1) by auto
    qed
  qed
  then show "runs w' = runs w @ rs" and "length rs \<le> nat (ag_backfill s)"
    and "rs \<noteq> [] \<Longrightarrow> pass_ok (take (nat (ag_backfill s)) (backlog w)) rs err"
    and "err = None \<Longrightarrow> pass_ok (take (nat (ag_backfill s)) (backlog w)) rs err"
    and "map run_BucketStart rs = take (length rs) (backlog w)" by auto
qed

end

section \<open>The process is an instance\<close>

lemma aggregation_service_sel [simp]:
  "ag_repo (aggregation_service bucket backfill) = aggregation_repository"
  "ag_metrics (aggregation_service bucket backfill) = Some aggregation_metrics"
  "ag_now (aggregation_service bucket backfill) = world_now"
  "0 < bucket \<Longrightarrow> ag_bucket (aggregation_service bucket backfill) = bucket"
  "0 < backfill \<Longrightarrow> ag_backfill (aggregation_service bucket backfill) = backfill"
  by (simp_all add: aggregation_service_def NewAggregation_def)

lemma aggregation_service_pos:
  "0 < ag_bucket (aggregation_service bucket backfill)"
  "0 < ag_backfill (aggregation_service bucket backfill)"
  by (simp_all add: aggregation_service_def NewAggregation_def BucketDuration_def duration_units
      defaultBackfill_def)

lemma run_finished_world:
  "run_finished (aggregation_service bucket backfill) st tr d n w =
     w\<lparr>w_metrics := RunFinished (RunStatus_string st) (RunTrigger_string tr) d n (w_metrics w)\<rparr>"
  by (simp add: run_finished_def aggregation_metrics_def)

lemma reportLag_world:
  "\<exists>lag. reportLag (aggregation_service bucket backfill) l c w = w\<lparr>w_metrics := LagSeconds lag (w_metrics w)\<rparr>"
  by (cases l) (auto simp: reportLag_def aggregation_metrics_def Let_def)

lemma Aggregate_keeps:
  "AggregationRepository_Aggregate a b w = (r, w') \<Longrightarrow>
     db_aggregation_runs w' = db_aggregation_runs w \<and> db_events w' = db_events w"
  unfolding AggregationRepository_Aggregate_def using Aggregate_same_events by blast

lemma RecordRun_events:
  "AggregationRepository_RecordRun run w = (r, w') \<Longrightarrow> db_events w' = db_events w"
  by (cases r) (auto dest: RecordRun_Inl RecordRun_Inr(4) simp: same_tables_def)

interpretation world_aggregation: aggregation_client aggregation_repository db_aggregation_runs
  db_events "aggregation_service bucket backfill" for bucket backfill
proof unfold_locales
  fix a b :: time and w w' :: world and r :: "go_error + int" and run row err
    and t :: "time option" and r2 :: "go_error + time option" and now :: time and st tr d n l c
  show "ar_Aggregate aggregation_repository a b w = (r, w') \<Longrightarrow>
      db_aggregation_runs w' = db_aggregation_runs w \<and> db_events w' = db_events w"
    by (simp add: aggregation_repository_def Aggregate_keeps)
  show "ar_RecordRun aggregation_repository run w = (Inr row, w') \<Longrightarrow>
      (\<exists>n. row = stored_run n run) \<and> db_aggregation_runs w' = db_aggregation_runs w @ [row] \<and>
      db_events w' = db_events w"
    using RecordRun_Inr(1,2) RecordRun_events by (simp add: aggregation_repository_def) blast
  show "ar_RecordRun aggregation_repository run w = (Inl err, w') \<Longrightarrow>
      db_aggregation_runs w' = db_aggregation_runs w \<and> db_events w' = db_events w"
    by (auto simp: aggregation_repository_def same_tables_def dest: RecordRun_Inl)
  show "ar_LastSucceededBucket aggregation_repository w = (Inr t, w') \<Longrightarrow>
      t = last_succeeded (db_aggregation_runs w)"
    by (simp add: aggregation_repository_def LastSucceededBucket_Inr(1))
  show "ar_LastSucceededBucket aggregation_repository w = (r2, w') \<Longrightarrow>
      db_aggregation_runs w' = db_aggregation_runs w \<and> db_events w' = db_events w"
    by (auto simp: aggregation_repository_def AggregationRepository_LastSucceededBucket_def
        same_tables_def split: prod.splits elim!: send_cases)
  show "ar_EarliestEvent aggregation_repository w = (Inr t, w') \<Longrightarrow>
      t = min_time (map ev_OccurredAt (db_events w))"
    by (simp add: aggregation_repository_def EarliestEvent_Inr(1))
  show "ar_EarliestEvent aggregation_repository w = (r2, w') \<Longrightarrow>
      db_aggregation_runs w' = db_aggregation_runs w \<and> db_events w' = db_events w"
    by (auto simp: aggregation_repository_def AggregationRepository_EarliestEvent_def
        same_tables_def split: prod.splits elim!: send_cases)
  show "ag_repo (aggregation_service bucket backfill) = aggregation_repository" by simp
  show "0 < ag_bucket (aggregation_service bucket backfill)" by (rule aggregation_service_pos)
  show "0 < ag_backfill (aggregation_service bucket backfill)" by (rule aggregation_service_pos)
  show "ag_now (aggregation_service bucket backfill) w = (now, w') \<Longrightarrow>
      db_aggregation_runs w' = db_aggregation_runs w \<and> db_events w' = db_events w"
    by (auto simp: world_now_eq)
  show "db_aggregation_runs (run_finished (aggregation_service bucket backfill) st tr d n w) =
        db_aggregation_runs w \<and>
      db_events (run_finished (aggregation_service bucket backfill) st tr d n w) = db_events w"
    by (simp add: run_finished_world)
  show "db_aggregation_runs (reportLag (aggregation_service bucket backfill) l c w) =
        db_aggregation_runs w \<and>
      db_events (reportLag (aggregation_service bucket backfill) l c w) = db_events w"
    using reportLag_world [of bucket backfill l c w] by auto
qed

section \<open>Properties of a pass\<close>

text \<open>
  \<open>aligned\<close>: the recorded windows are windows of this length, and nothing happened in the
  first window of the year 1, whose start Go reads as "no time given". \<open>next_window\<close> is
  where a pass has to begin: after the newest aggregated window, or with the earliest event.
\<close>

definition aligned :: "duration \<Rightarrow> world \<Rightarrow> bool" where
  "aligned bucket w \<longleftrightarrow>
     (\<forall>r\<in>set (db_aggregation_runs w). 0 \<le> run_BucketStart r \<and> bucket dvd run_BucketStart r) \<and>
     (\<forall>e\<in>set (db_events w). bucket \<le> ev_OccurredAt e)"

definition next_window :: "duration \<Rightarrow> world \<Rightarrow> time option" where
  "next_window bucket w =
     (case last_succeeded (db_aggregation_runs w) of
        Some l \<Rightarrow> Some (l + bucket)
      | None \<Rightarrow> map_option (\<lambda>e. BucketStart e bucket) (min_time (map ev_OccurredAt (db_events w))))"

lemma backlog_nth:
  assumes "0 < bucket" and "aligned bucket w" and "i < length (world_aggregation.backlog bucket backfill w)"
  shows "\<exists>first. next_window bucket w = Some first \<and>
    world_aggregation.backlog bucket backfill w ! i = first + int i * bucket \<and>
    first + int i * bucket + bucket \<le> w_clock w (w_reads w)"
proof -
  let ?b = "world_aggregation.backlog bucket backfill w"
  have inr: "world_aggregation.in_range bucket backfill w"
    using assms(1,2) by (simp add: world_aggregation.in_range_def aligned_def)
  have nw: "world_aggregation.backlog_from bucket backfill w = next_window bucket w"
    using assms(1) unfolding world_aggregation.backlog_from_def next_window_def
    by (simp cong: option.case_cong)
  obtain first where first: "next_window bucket w = Some first"
    using assms(3) nw by (cases "next_window bucket w") (auto simp: world_aggregation.backlog_def)
  have "bucket dvd first"
    using world_aggregation.backlog_from_pos(2) [OF inr, of first] nw first assms(1) by simp
  then have start: "BucketStart first bucket = first" by (rule BucketStart_multiple)
  have b: "?b = (if world_aggregation.newest_closed bucket backfill w < first then []
      else windows first bucket (window_count first (world_aggregation.newest_closed bucket backfill w) bucket))"
    using assms(1) nw first start by (simp add: world_aggregation.backlog_def)
  have nth: "?b ! i = first + int i * bucket"
    using assms(3) unfolding b by (simp add: windows_nth split: if_splits)
  have "?b ! i \<le> world_aggregation.newest_closed bucket backfill w"
    using world_aggregation.backlog_set(3) [OF inr] assms(3) nth_mem by blast
  then have "first + int i * bucket + bucket \<le> BucketStart (w_clock w (w_reads w)) bucket"
    using nth assms(1) by (simp add: world_aggregation.newest_closed_def world_now_def)
  also have "\<dots> \<le> w_clock w (w_reads w)" by (rule BucketStart_le)
  finally show ?thesis using first nth by blast
qed

lemma RunPending_runs:
  assumes "0 < bucket" and "Microsecond dvd bucket" and "0 < backfill" and "aligned bucket w"
    and "RunPending (aggregation_service bucket backfill) w = Some ((rs, err), w')"
  shows "db_aggregation_runs w' = db_aggregation_runs w @ rs \<and> int (length rs) \<le> backfill \<and>
    (\<forall>i<length rs. \<exists>first. next_window bucket w = Some first \<and>
       run_BucketStart (rs ! i) = first + int i * bucket \<and>
       run_BucketEnd (rs ! i) = run_BucketStart (rs ! i) + bucket \<and>
       run_BucketEnd (rs ! i) \<le> w_clock w (w_reads w) \<and>
       run_Trigger (rs ! i) = TriggerSchedule \<and>
       (Suc i < length rs \<longrightarrow> succeeded (rs ! i)))"
proof -
  have inr: "world_aggregation.in_range bucket backfill w"
    using assms(1,4) by (simp add: world_aggregation.in_range_def aligned_def)
  have us: "Microsecond dvd ag_bucket (aggregation_service bucket backfill)" using assms(1,2) by simp
  note p = world_aggregation.RunPending_pass [OF assms(5) us inr]
  let ?b = "world_aggregation.backlog bucket backfill w"
  have len: "length rs \<le> length ?b"
    using arg_cong [OF p(5), of length] by simp
  have "\<exists>first. next_window bucket w = Some first \<and>
       run_BucketStart (rs ! i) = first + int i * bucket \<and>
       run_BucketEnd (rs ! i) = run_BucketStart (rs ! i) + bucket \<and>
       run_BucketEnd (rs ! i) \<le> w_clock w (w_reads w) \<and>
       run_Trigger (rs ! i) = TriggerSchedule \<and> (Suc i < length rs \<longrightarrow> succeeded (rs ! i))"
    if i: "i < length rs" for i
  proof -
    have ok: "world_aggregation.pass_ok bucket backfill (take (nat (ag_backfill (aggregation_service bucket backfill))) ?b) rs err"
      using p(3) i by force
    have "run_BucketStart (rs ! i) = ?b ! i"
      using arg_cong [OF p(5), of "\<lambda>l. l ! i"] i by simp
    moreover have "run_BucketEnd (rs ! i) = run_BucketStart (rs ! i) + bucket \<and>
        run_Trigger (rs ! i) = TriggerSchedule"
      using ok i assms(1) nth_mem [OF i] by (simp add: world_aggregation.pass_ok_def)
    moreover have "succeeded (rs ! i)" if "Suc i < length rs"
    proof -
      have "i < length (butlast rs)" using that by simp
      then have "butlast rs ! i \<in> set (butlast rs)" by (rule nth_mem)
      then show ?thesis
        using ok that by (simp add: world_aggregation.pass_ok_def nth_butlast)
    qed
    moreover obtain first where "next_window bucket w = Some first" "?b ! i = first + int i * bucket"
      "first + int i * bucket + bucket \<le> w_clock w (w_reads w)"
      using backlog_nth [OF assms(1,4), of i backfill] i len by auto
    ultimately show ?thesis by simp
  qed
  moreover have "int (length rs) \<le> backfill" using p(2) assms(3) by simp
  ultimately show ?thesis using p(1) by simp
qed

text \<open>C11:
  A pass over the backlog records exactly the runs it returns, at most \<open>backfill\<close> of them.
  They are consecutive windows without a gap: the first one follows the newest successful
  run (or holds the earliest event when there is none), each is one window long, has ended
  by the clock, and all before the last one succeeded - the pass stops at the first one
  that fails or is skipped, so the watermark never jumps over a window.
\<close>

theorem run_pending_contiguous:
  assumes "0 < bucket" and "Microsecond dvd bucket" and "0 < backfill" and "aligned bucket w"
    and "RunPending (aggregation_service bucket backfill) w = Some ((rs, err), w')"
  shows "db_aggregation_runs w' = db_aggregation_runs w @ rs \<and> int (length rs) \<le> backfill \<and>
    (\<forall>i<length rs. \<exists>first. next_window bucket w = Some first \<and>
       run_BucketStart (rs ! i) = first + int i * bucket \<and>
       run_BucketEnd (rs ! i) = run_BucketStart (rs ! i) + bucket \<and>
       run_BucketEnd (rs ! i) \<le> w_clock w (w_reads w) \<and>
       run_Trigger (rs ! i) = TriggerSchedule \<and>
       (Suc i < length rs \<longrightarrow> succeeded (rs ! i)))"
  using assms by (rule RunPending_runs)

text \<open>C12:
  A pass always returns, whatever window length and backfill the configuration has and
  whatever the database does: \<open>NewAggregation\<close> replaces a length that is not positive, so
  the loop over the windows ends.
\<close>

theorem run_pending_returns:
  "RunPending (aggregation_service bucket backfill) w \<noteq> None"
  using world_aggregation.RunPending_returns [of bucket backfill w] by auto

lemma last_succeeded_below:
  assumes "r \<in> set rs" and "succeeded r"
  shows "\<exists>l. last_succeeded rs = Some l \<and> run_BucketStart r \<le> l"
proof -
  have mem: "run_BucketStart r \<in> set (map run_BucketStart (filter succeeded rs))"
    using assms by auto
  then obtain l where "last_succeeded rs = Some l"
    by (cases "last_succeeded rs")
      (auto simp: last_succeeded_def max_time_Max filter_empty_conv split: if_splits)
  with mem max_time_SomeD(2) show ?thesis unfolding last_succeeded_def by blast
qed

text \<open>C13:
  The scheduler only looks past the newest successful run: once a run of some window has
  succeeded, whoever started it, no later pass works on that window or on an earlier one.
  So nothing is aggregated twice by the scheduler, but a window that was missed before a
  later one was aggregated by hand is never caught up.
\<close>

theorem scheduler_never_looks_back:
  assumes "0 < bucket" and "Microsecond dvd bucket" and "0 < backfill" and "aligned bucket w"
    and "RunPending (aggregation_service bucket backfill) w = Some ((rs, err), w')"
    and "r \<in> set (db_aggregation_runs w)" and "succeeded r" and "q \<in> set rs"
  shows "run_BucketStart r < run_BucketStart q"
proof -
  obtain i where i: "i < length rs" "q = rs ! i" using assms(8) by (auto simp: in_set_conv_nth)
  obtain first where first: "next_window bucket w = Some first" "run_BucketStart q = first + int i * bucket"
    using RunPending_runs [OF assms(1-5)] i by blast
  obtain l where l: "last_succeeded (db_aggregation_runs w) = Some l" and "run_BucketStart r \<le> l"
    using last_succeeded_below [OF assms(6,7)] by blast
  moreover have "first = l + bucket" using first(1) l by (simp add: next_window_def)
  moreover have "0 \<le> int i * bucket" using assms(1) by simp
  ultimately show ?thesis using first(2) assms(1) by linarith
qed

section \<open>A pass in good weather\<close>

text \<open>Nothing fails, no other process holds a window, and the clock does not go back.\<close>

definition healthy :: "world \<Rightarrow> bool" where
  "healthy w \<longleftrightarrow> db_faults w = [] \<and> db_locked_buckets w = [] \<and> mono (w_clock w)"

definition later :: "world \<Rightarrow> world \<Rightarrow> bool" where
  "later w w' \<longleftrightarrow> healthy w' \<and> w_clock w' = w_clock w \<and> w_reads w \<le> w_reads w'"

lemma later_trans: "later u v \<Longrightarrow> later v w \<Longrightarrow> later u w"
  by (simp add: later_def)

lemma later_clock: "later w w' \<Longrightarrow> w_clock w (w_reads w) \<le> w_clock w' (w_reads w')"
  by (auto simp: later_def healthy_def dest: monoD)

lemma later_now: "healthy w \<Longrightarrow> world_now w = (t, w') \<Longrightarrow> later w w'"
  by (auto simp: later_def healthy_def world_now_eq)

lemma later_metrics [simp]: "later w (w'\<lparr>w_metrics := m\<rparr>) = later w w'"
  by (simp add: later_def healthy_def)

lemma later_rows:
  "healthy w \<Longrightarrow> db_faults w' = [] \<Longrightarrow> db_locked_buckets w' = db_locked_buckets w \<Longrightarrow>
    db.more w' = db.more w \<Longrightarrow> later w w'"
  by (cases w; cases w') (simp add: later_def healthy_def)

lemma Aggregate_healthy:
  assumes "healthy w"
  shows "\<exists>n w'. AggregationRepository_Aggregate a b w = (Inr n, w') \<and> later w w'"
proof -
  have [simp]: "db_faults w = []" "db_locked_buckets w = []" using assms by (auto simp: healthy_def)
  have "\<exists>n w'. AggregationRepository_Aggregate a b w = (Inr n, w') \<and> db_faults w' = [] \<and>
      db_locked_buckets w' = db_locked_buckets w \<and> db.more w' = db.more w"
    by (simp add: AggregationRepository_Aggregate_def Aggregate_tx_def in_tx_no_faults
        Aggregate_body_def tryLockBucket_def aggregate_rows_def Let_def)
  then show ?thesis using later_rows [OF assms] by blast
qed

lemma RecordRun_healthy:
  assumes "healthy w" and "timestamptz (run_BucketStart run) < timestamptz (run_BucketEnd run)"
  shows "\<exists>n w'. AggregationRepository_RecordRun run w = (Inr (stored_run n run), w') \<and> later w w'"
proof -
  have [simp]: "db_faults w = []" using assms by (auto simp: healthy_def)
  have "\<exists>n w'. AggregationRepository_RecordRun run w = (Inr (stored_run n run), w') \<and> db_faults w' = [] \<and>
      db_locked_buckets w' = db_locked_buckets w \<and> db.more w' = db.more w"
    using assms(2) by (auto simp: AggregationRepository_RecordRun_def insert_run_def Let_def
        scanRun_def stored_run_def After_def)
  then show ?thesis using later_rows [OF assms(1)] by blast
qed

lemma RunBucket_healthy:
  assumes "0 < bucket" and "Microsecond dvd bucket" and "healthy w" and "t \<noteq> 0" and "bucket dvd t"
    and "t + bucket \<le> w_clock w (w_reads w)"
  shows "\<exists>row w'. RunBucket (aggregation_service bucket backfill) t trigger w = (Inr row, w') \<and>
    succeeded row \<and> later w w'"
proof -
  let ?s = "aggregation_service bucket backfill"
  have start: "BucketStart t bucket = t" using assms(5) by (rule BucketStart_multiple)
  have aligned: "Microsecond dvd t" using assms(2,5) dvd_trans by blast
  obtain t1 w1 where 1: "world_now w = (t1, w1)" by fastforce
  obtain t2 w2 where 2: "world_now w1 = (t2, w2)" by fastforce
  have l2: "later w w2" using later_now [OF assms(3) 1] later_now [OF _ 2] later_trans by (metis later_def)
  obtain n w3 where 3: "AggregationRepository_Aggregate t (t + bucket) w2 = (Inr n, w3)" "later w2 w3"
    using Aggregate_healthy l2 by (metis later_def)
  obtain t4 w4 where 4: "world_now w3 = (t4, w4)" by fastforce
  have l4: "later w w4" using l2 3(2) later_now [OF _ 4] later_trans by (metis later_def)
  define run where "run = \<lparr>run_ID = 0, run_BucketStart = t, run_BucketEnd = t + bucket,
      run_Status = RunSucceeded, run_Trigger = trigger, run_UsersTouched = n,
      run_StartedAt = t2, run_FinishedAt = Some t4, run_Error = None\<rparr>"
  define w5 where "w5 = w4\<lparr>w_metrics := RunFinished (RunStatus_string RunSucceeded)
      (RunTrigger_string trigger) (Sub t4 t2) n (w_metrics w4)\<rparr>"
  have l5: "later w w5" using l4 by (simp add: w5_def)
  have "timestamptz (run_BucketStart run) < timestamptz (run_BucketEnd run)"
    using assms(1,2) aligned by (simp add: run_def timestamptz_id)
  then obtain m w6 where 6: "AggregationRepository_RecordRun run w5 = (Inr (stored_run m run), w6)" "later w5 w6"
    using RecordRun_healthy l5 by (metis later_def)
  have t1: "t1 = w_clock w (w_reads w)" using 1 by (simp add: world_now_eq)
  have "RunBucket ?s t trigger w = (Inr (stored_run m run), w6)"
    using assms(1,4,6) 1 2 3(1) 4 6(1) t1
    by (simp add: RunBucket_def Let_def time_defs start aggregation_repository_def run_outcome_def
        run_finished_world run_def w5_def)
  moreover have "succeeded (stored_run m run)" by (simp add: succeeded_def stored_run_def run_def)
  ultimately show ?thesis using later_trans [OF l5 6(2)] by blast
qed

lemma pending_loop_healthy:
  assumes "0 < bucket" and "Microsecond dvd bucket" and "healthy w"
    and "\<forall>p\<in>set ps. bucket dvd p \<and> p \<noteq> 0 \<and> p + bucket \<le> w_clock w (w_reads w)"
  shows "\<exists>new w'. pending_loop (aggregation_service bucket backfill) ps acc w = ((acc @ new, None), w') \<and>
    length new = length ps \<and> (\<forall>r\<in>set new. succeeded r)"
  using assms(3,4)
proof (induction ps arbitrary: acc w)
  case Nil
  then show ?case by simp
next
  case (Cons p ps)
  obtain row w1 where b: "RunBucket (aggregation_service bucket backfill) p TriggerSchedule w = (Inr row, w1)"
    and ok: "succeeded row" and l: "later w w1"
    using RunBucket_healthy [OF assms(1,2) Cons.prems(1), of p backfill TriggerSchedule] Cons.prems(2)
    by auto
  have "w_clock w (w_reads w) \<le> w_clock w1 (w_reads w1)"
    using l by (rule later_clock)
  then have "\<forall>q\<in>set ps. bucket dvd q \<and> q \<noteq> 0 \<and> q + bucket \<le> w_clock w1 (w_reads w1)"
    using Cons.prems(2) by force
  then obtain new w' where "pending_loop (aggregation_service bucket backfill) ps (acc @ [row]) w1 =
      (((acc @ [row]) @ new, None), w')" "length new = length ps" "\<forall>r\<in>set new. succeeded r"
    using Cons.IH [of w1 "acc @ [row]"] l by (auto simp: later_def)
  with b ok show ?case
    by (intro exI [of _ "row # new"] exI [of _ w']) (simp add: succeeded_def)
qed

lemma pendingBuckets_healthy:
  assumes "healthy w"
  shows "\<exists>ps w1. pendingBuckets (aggregation_service bucket backfill) w = Some (Inr ps, w1) \<and> later w w1"
proof -
  let ?s = "aggregation_service bucket backfill"
  obtain t1 w1 where 1: "world_now w = (t1, w1)" by fastforce
  have l1: "later w w1" using later_now [OF assms 1] .
  then have f1: "db_faults w1 = []" by (simp add: later_def healthy_def)
  obtain lag where lag: "reportLag ?s l c w1 = w1\<lparr>w_metrics := LagSeconds (lag l c) (w_metrics w1)\<rparr>" for l c
    using reportLag_world [of bucket backfill _ _ w1] by metis
  show ?thesis
    using l1 f1
    by (auto simp: pendingBuckets_def 1 Let_def lag aggregation_repository_def
        AggregationRepository_LastSucceededBucket_def AggregationRepository_EarliestEvent_def
        pending_from_def BucketsBetween_windows aggregation_service_pos
        split: option.splits)
qed

lemma last_succeeded_windows:
  assumes "0 < bucket" and "0 < k" and starts: "map run_BucketStart rs = windows first bucket k"
    and ok: "\<forall>r\<in>set rs. succeeded r"
    and before: "\<And>r. r \<in> set old \<Longrightarrow> succeeded r \<Longrightarrow> run_BucketStart r < first"
  shows "last_succeeded (old @ rs) = Some (first + (int k - 1) * bucket)"
proof -
  let ?T = "map run_BucketStart (filter succeeded (old @ rs))"
  let ?m = "first + (int k - 1) * bucket"
  have T: "set ?T = run_BucketStart ` {r \<in> set old. succeeded r} \<union> set (windows first bucket k)"
    using ok by (simp add: starts [symmetric] filter_True image_Un)
  have mem: "?m \<in> set (windows first bucket k)"
    using assms(2) by (auto simp: windows_set intro!: exI [of _ "k - 1"] simp: of_nat_diff)
  have "t \<le> ?m" if w: "t \<in> set (windows first bucket k)" for t
  proof -
    obtain i where i: "i < k" "t = first + int i * bucket" using w windows_set by blast
    then have "int i * bucket \<le> (int k - 1) * bucket"
      using assms(1) by (intro mult_right_mono) auto
    then show ?thesis using i by simp
  qed
  moreover have "first \<le> ?m" using assms(1,2) by simp
  ultimately have "\<forall>t\<in>set ?T. t \<le> ?m" unfolding T using before by fastforce
  then have "Max (set ?T) = ?m" using mem T by (intro Max_eqI) auto
  moreover have "?T \<noteq> []" using mem T by (metis Un_iff empty_iff empty_set)
  ultimately show ?thesis by (simp add: last_succeeded_def max_time_Max)
qed

text \<open>C14:
  When nothing fails, no window is locked elsewhere and the clock does not go back, a pass
  makes all the progress it is allowed: every run succeeds and the watermark moves to the
  newest closed window, or by \<open>backfill\<close> windows if that is less. Repeated passes therefore
  catch up completely.
\<close>

theorem run_pending_progress:
  assumes "0 < bucket" and "Microsecond dvd bucket" and "0 < backfill" and "aligned bucket w"
    and "healthy w" and "next_window bucket w = Some first"
    and "newest = BucketStart (w_clock w (w_reads w)) bucket - bucket" and "first \<le> newest"
  shows "\<exists>rs w'. RunPending (aggregation_service bucket backfill) w = Some ((rs, None), w') \<and>
    (\<forall>r\<in>set rs. succeeded r) \<and>
    last_succeeded (db_aggregation_runs w') = Some (min newest (first + (backfill - 1) * bucket))"
proof -
  let ?s = "aggregation_service bucket backfill" and ?b = "world_aggregation.backlog bucket backfill w"
  have inr: "world_aggregation.in_range bucket backfill w"
    using assms(1,4) by (simp add: world_aggregation.in_range_def aligned_def)
  have nc: "world_aggregation.newest_closed bucket backfill w = newest"
    using assms(1,7) by (simp add: world_aggregation.newest_closed_def world_now_def)
  have bf: "world_aggregation.backlog_from bucket backfill w = Some first"
    using assms(1,6) unfolding world_aggregation.backlog_from_def next_window_def
    by (simp cong: option.case_cong)
  have dvd: "bucket dvd first" "0 < first"
    using world_aggregation.backlog_from_pos [OF inr bf] assms(1) by simp_all
  have dvdn: "bucket dvd newest" using assms(1,7) by (simp add: BucketStart_dvd)
  let ?n = "window_count first newest bucket"
  have b: "?b = windows first bucket ?n"
    using assms(1,8) bf nc dvd by (simp add: world_aggregation.backlog_def BucketStart_multiple)
  have newest: "newest = first + (int ?n - 1) * bucket"
    using assms(1,8) dvd dvdn by (simp add: window_count_aligned)
  then have n: "0 < ?n" using assms(1,8) by (cases "?n") (auto simp: algebra_simps)
  obtain ps w1 where ps: "pendingBuckets ?s w = Some (Inr ps, w1)" and l: "later w w1"
    using pendingBuckets_healthy [OF assms(5)] by blast
  have pse: "ps = windows first bucket (min (nat backfill) ?n)"
    using world_aggregation.pendingBuckets_Inr(1) [OF ps] assms(3) by (simp add: b take_windows)
  have mem: "\<forall>p\<in>set ps. bucket dvd p \<and> p \<noteq> 0 \<and> p + bucket \<le> w_clock w1 (w_reads w1)"
  proof
    fix p
    assume "p \<in> set ps"
    then have "p \<in> set ?b" by (auto simp: pse b windows_set)
    note p = world_aggregation.backlog_set [OF inr this]
    have "p + bucket \<le> BucketStart (w_clock w (w_reads w)) bucket" using p(3) nc assms(7) by simp
    also have "\<dots> \<le> w_clock w (w_reads w)" by (rule BucketStart_le)
    also have "\<dots> \<le> w_clock w1 (w_reads w1)" using l by (rule later_clock)
    finally show "bucket dvd p \<and> p \<noteq> 0 \<and> p + bucket \<le> w_clock w1 (w_reads w1)"
      using p(1,2) assms(1) by simp
  qed
  have h1: "healthy w1" using l by (simp add: later_def)
  obtain rs w' where loop: "pending_loop ?s ps [] w1 = ((rs, None), w')" "length rs = length ps"
    "\<forall>r\<in>set rs. succeeded r"
    using pending_loop_healthy [OF assms(1,2) h1 mem, of backfill "[]"] by auto
  have "ps \<noteq> []" using n assms(3) by (cases "min (nat backfill) ?n") (auto simp: pse)
  then have run: "RunPending ?s w = Some ((rs, None), w')" using ps loop(1) by (simp add: RunPending_def)
  have us: "Microsecond dvd ag_bucket ?s" using assms(1,2) by simp
  note pass = world_aggregation.RunPending_pass [OF run us inr]
  let ?k = "min (nat backfill) ?n"
  have k: "0 < ?k" "length rs = ?k" using n assms(3) loop(2) by (simp_all add: pse)
  have starts: "map run_BucketStart rs = windows first bucket ?k"
    using pass(5) k(2) by (simp add: b take_windows min.absorb1)
  have before: "run_BucketStart r < first" if "r \<in> set (db_aggregation_runs w)" "succeeded r" for r
    using last_succeeded_below [OF that] assms(1,6) by (auto simp: next_window_def split: option.splits)
  let ?m = "first + (int ?k - 1) * bucket"
  have "last_succeeded (db_aggregation_runs w') = Some ?m"
    unfolding pass(1) by (rule last_succeeded_windows [OF assms(1) k(1) starts loop(3) before])
  moreover have "?m = min newest (first + (backfill - 1) * bucket)"
  proof -
    have "int ?k - 1 = min (int ?n - 1) (backfill - 1)" using assms(3) by auto
    then have "(int ?k - 1) * bucket = min ((int ?n - 1) * bucket) ((backfill - 1) * bucket)"
      using assms(1) by (simp add: min_mult_distrib_right)
    then show ?thesis using newest by simp
  qed
  ultimately show ?thesis using run loop(3) by auto
qed

section \<open>Properties of one window\<close>

text \<open>C15:
  A successful \<open>RunBucket\<close> works on a window that has ended by the clock and leaves exact
  figures behind: every user with events in the window gets one bucket with their number,
  their counts by type and their first and last time, whatever the bucket held before; the
  other users and all other windows keep theirs. The run is recorded, with the number of
  users that have events in the window.
\<close>

theorem run_bucket_exact:
  assumes "0 < bucket" and "Microsecond dvd bucket" and "t \<noteq> 0"
    and "RunBucket (aggregation_service bucket backfill) t trigger w = (Inr run, w')"
    and "succeeded run" and "start = BucketStart t bucket" and "fin = start + bucket"
  shows "fin \<le> w_clock w (w_reads w) \<and> db_aggregation_runs w' = db_aggregation_runs w @ [run] \<and>
    run_BucketStart run = start \<and> run_BucketEnd run = fin \<and>
    run_UsersTouched run = int (card {u. user_window start fin u (db_events w) \<noteq> []}) \<and>
    (\<forall>u. user_window start fin u (db_events w) \<noteq> [] \<longrightarrow>
       (\<exists>b. bucket_at u start (db_activity_buckets w') = Some b \<and>
          describes b (user_window start fin u (db_events w)))) \<and>
    (\<forall>u s. user_window start fin u (db_events w) = [] \<or> s \<noteq> start \<longrightarrow>
       bucket_at u s (db_activity_buckets w') = bucket_at u s (db_activity_buckets w))"
proof -
  have us: "Microsecond dvd ag_bucket (aggregation_service bucket backfill)" using assms(1,2) by simp
  note row = world_aggregation.RunBucket_Inr [OF assms(4,3) us]
  have "Microsecond dvd start"
    using assms(1,2,6) BucketStart_dvd dvd_trans by blast
  then have al: "timestamptz start = start" "timestamptz fin = fin"
    using assms(2,7) by (simp_all add: timestamptz_id)
  show ?thesis
    using assms(4,3)
  proof (cases rule: RunBucket_cases)
    case not_closed
    then show ?thesis by simp
  next
    case (closed now w2 startedAt w3 r w4 finished w5 status touched message)
    have agg: "AggregationRepository_Aggregate start fin w3 = (r, w4)"
      using closed(4) assms(1,6,7) by (simp add: aggregation_repository_def)
    have rec: "AggregationRepository_RecordRun
        \<lparr>run_ID = 0, run_BucketStart = start, run_BucketEnd = fin, run_Status = status,
         run_Trigger = trigger, run_UsersTouched = touched, run_StartedAt = startedAt,
         run_FinishedAt = Some finished, run_Error = message\<rparr>
        (run_finished (aggregation_service bucket backfill) status trigger (Sub finished startedAt) touched w5)
        = (Inr run, w')"
      using closed(7) assms(1,6,7) by (simp add: aggregation_repository_def)
    obtain m where run: "run = stored_run m \<lparr>run_ID = 0, run_BucketStart = start, run_BucketEnd = fin,
         run_Status = status, run_Trigger = trigger, run_UsersTouched = touched,
         run_StartedAt = startedAt, run_FinishedAt = Some finished, run_Error = message\<rparr>"
      using RecordRun_Inr(2) [OF rec] by blast
    then have "status = RunSucceeded" and touched: "run_UsersTouched run = touched"
      using assms(5) by (simp_all add: succeeded_def stored_run_def)
    then have r: "r = Inr touched"
      using closed(5) by (cases r) (auto simp: run_outcome_def split: if_splits)
    have tx: "Aggregate_tx start fin w3 = (Inr touched, w4)"
      using agg r al by (simp add: AggregationRepository_Aggregate_def)
    have w3: "db_events w3 = db_events w" "db_activity_buckets w3 = db_activity_buckets w"
      using closed(1,3) by (auto simp: world_now_eq)
    have w': "db_activity_buckets w' = db_activity_buckets w4"
      using same_tablesD(6) [OF RecordRun_Inr(4) [OF rec]] closed(6)
      by (simp add: run_finished_world world_now_eq)
    have n: "touched = int (card {u. user_window start fin u (db_events w) \<noteq> []})"
      using Aggregate_Inr(2) [OF tx] by (simp only: length_rolled_card w3)
    have "fin \<le> w_clock w (w_reads w)"
      using closed(1,2) assms(1,6,7) by (simp add: world_now_eq)
    then show ?thesis
      using row(1,3,4) assms(1,6,7) touched n Aggregate_bucket [OF tx] by (simp add: w3 w')
  qed
qed


text \<open>C17:
  Aggregating a window again, with the same events, gives the same buckets (but for the time
  they were computed at) and the same number of users: a replay neither doubles a count nor
  loses one.
\<close>

theorem aggregate_replay:
  assumes "AggregationRepository_Aggregate start fin w = (Inr n, w1)"
    and "db_events w2 = db_events w1" and "db_activity_buckets w2 = db_activity_buckets w1"
    and "AggregationRepository_Aggregate start fin w2 = (Inr m, w3)"
  shows "map forget_computed (db_activity_buckets w3) = map forget_computed (db_activity_buckets w1) \<and> m = n"
  using Aggregate_replay [OF assms(1) [unfolded AggregationRepository_Aggregate_def] assms(2,3)
      assms(4) [unfolded AggregationRepository_Aggregate_def]]
  by simp

text \<open>C18:
  The daily statistics add up: every day of the answer is a day of the user's buckets in the
  range, no day appears twice and the newest comes first, and its count is the sum of the
  counts of that day's buckets. \<open>Aggregate\<close> keeps the invariant this rests on.
\<close>

theorem daily_sums:
  assumes "buckets_ok (db_activity_buckets w)"
    and "AggregationRepository_Daily u from to w = (Inr days, w')"
    and "mine = filter (\<lambda>b. ab_UserID b = u \<and> timestamptz from \<le> ab_BucketStart b \<and>
           ab_BucketStart b < timestamptz to) (db_activity_buckets w)"
  shows "sorted_wrt (\<lambda>a b. da_Day b < da_Day a) days \<and>
    da_Day ` set days = {day_of (ab_BucketStart b) |b. b \<in> set mine \<and> ab_TypeCounts b \<noteq> []} \<and>
    (\<forall>d\<in>set days. da_EventCount d =
       sum_list (map ab_EventCount (filter (\<lambda>b. day_of (ab_BucketStart b) = da_Day d) mine))) \<and>
    (\<forall>a b r v'. AggregationRepository_Aggregate a b w = (r, v') \<longrightarrow> buckets_ok (db_activity_buckets v'))"
proof -
  have mine: "mine = filter (bucket_in_range u (timestamptz from) (timestamptz to)) (db_activity_buckets w)"
    unfolding assms(3) by (rule filter_cong) (auto simp: bucket_in_range_def)
  have days: "days = days_of (per_day_type mine)"
    using Daily_Inr(1) [OF assms(2)] mine by simp
  have ok: "list_all bucket_ok mine"
    using assms(1) by (auto simp: buckets_ok_def list_all_iff assms(3))
  have "sorted_wrt (\<lambda>a b. da_Day b < da_Day a) days"
    unfolding days days_of_def
    by (rule sort_desc_strict) (simp add: Let_def o_def)
  moreover have "\<forall>a b r v'. AggregationRepository_Aggregate a b w = (r, v') \<longrightarrow> buckets_ok (db_activity_buckets v')"
    using Aggregate_buckets_ok [OF assms(1)] unfolding AggregationRepository_Aggregate_def by blast
  ultimately show ?thesis
    using days_of_days [of mine] days_of_count [of _ mine] ok unfolding days by blast
qed

section \<open>Witnesses\<close>

text \<open>
  The windows of 4 hours, a process at 09:00 on the first of January 1970, and one event of
  01:00: two windows have closed.
\<close>

definition ex_hours :: "nat \<Rightarrow> time" where
  "ex_hours n = unix_epoch + int n * Hour"

definition ex_agg :: world where
  "ex_agg = ex_world_at (ex_hours 9) [ex_event 1 (ex_hours 1) None]"

abbreviation "ex_service \<equiv> aggregation_service (4 * Hour) 12"

lemmas ex_agg_defs = ex_agg_def ex_world_at_def ex_world_def ex_event_def ex_hours_def unix_epoch_def
  duration_units

lemma ex_bucket: "0 < 4 * Hour" "Microsecond dvd 4 * Hour" "0 < (12 :: int)"
  by (simp_all add: duration_units)

lemma ex_aligned: "aligned (4 * Hour) ex_agg"
  by (simp add: aligned_def ex_agg_defs)

lemma ex_healthy: "healthy ex_agg"
  by (simp add: healthy_def ex_agg_def ex_world_at_def ex_world_def mono_def)

lemma ex_next: "next_window (4 * Hour) ex_agg = Some unix_epoch"
  by (simp add: next_window_def last_succeeded_def max_time_def min_time_def ex_agg_defs
      BucketStart_def Truncate_def)

theorem run_pending_contiguous_witness:
  "\<exists>rs err w'. RunPending ex_service ex_agg = Some ((rs, err), w') \<and>
     db_aggregation_runs w' = rs \<and> length rs \<le> 12"
proof -
  obtain rs err w' where r: "RunPending ex_service ex_agg = Some ((rs, err), w')"
    using world_aggregation.RunPending_returns by fastforce
  show ?thesis
    using r run_pending_contiguous [OF ex_bucket ex_aligned r]
    by (auto simp: ex_agg_def ex_world_at_def ex_world_def)
qed

definition ex_done :: AggregationRun where
  "ex_done = \<lparr>run_ID = 1, run_BucketStart = unix_epoch, run_BucketEnd = unix_epoch + 4 * Hour,
     run_Status = RunSucceeded, run_Trigger = TriggerManual, run_UsersTouched = 1,
     run_StartedAt = unix_epoch + 5 * Hour, run_FinishedAt = None, run_Error = None\<rparr>"

theorem scheduler_never_looks_back_witness:
  "\<exists>rs err w'. RunPending ex_service (ex_agg\<lparr>db_aggregation_runs := [ex_done]\<rparr>) = Some ((rs, err), w') \<and>
     (\<forall>q\<in>set rs. unix_epoch < run_BucketStart q)"
proof -
  let ?w = "ex_agg\<lparr>db_aggregation_runs := [ex_done]\<rparr>"
  obtain rs err w' where r: "RunPending ex_service ?w = Some ((rs, err), w')"
    using world_aggregation.RunPending_returns by fastforce
  have "aligned (4 * Hour) ?w" by (simp add: aligned_def ex_agg_defs ex_done_def)
  from scheduler_never_looks_back [OF ex_bucket this r, of ex_done] have
    "\<forall>q\<in>set rs. unix_epoch < run_BucketStart q"
    by (simp add: ex_agg_def ex_done_def succeeded_def)
  with r show ?thesis by blast
qed

theorem run_pending_progress_witness:
  "\<exists>rs w'. RunPending ex_service ex_agg = Some ((rs, None), w') \<and>
     last_succeeded (db_aggregation_runs w') = Some (ex_hours 4)"
proof -
  have c: "w_clock ex_agg (w_reads ex_agg) = ex_hours 9"
    by (simp add: ex_agg_def ex_world_at_def ex_world_def)
  have "BucketStart (ex_hours 9) (4 * Hour) - 4 * Hour = ex_hours 4"
    by (simp add: BucketStart_def Truncate_def ex_hours_def unix_epoch_def duration_units)
  moreover have "unix_epoch \<le> ex_hours 4" by (simp add: ex_hours_def duration_units)
  ultimately show ?thesis
    using run_pending_progress [OF ex_bucket ex_aligned ex_healthy ex_next, of "ex_hours 4"] c
    by (auto simp: ex_hours_def unix_epoch_def duration_units)
qed

lemma ex_start: "BucketStart (ex_hours 4) (4 * Hour) = ex_hours 4"
  by (rule BucketStart_multiple) (simp add: ex_hours_def unix_epoch_def duration_units)

lemma ex_run_bucket:
  "\<exists>run w'. RunBucket ex_service (ex_hours 4) TriggerManual ex_agg = (Inr run, w') \<and> succeeded run"
proof -
  have "4 * Hour dvd ex_hours 4" "ex_hours 4 \<noteq> 0"
    by (simp_all add: ex_hours_def unix_epoch_def duration_units)
  moreover have "ex_hours 4 + 4 * Hour \<le> w_clock ex_agg (w_reads ex_agg)"
    by (simp add: ex_agg_def ex_world_at_def ex_world_def ex_hours_def duration_units)
  ultimately show ?thesis
    using RunBucket_healthy [OF ex_bucket(1,2) ex_healthy] by blast
qed

theorem run_bucket_exact_witness:
  "\<exists>run w'. RunBucket ex_service (ex_hours 4) TriggerManual ex_agg = (Inr run, w') \<and>
     run_BucketStart run = ex_hours 4 \<and> db_aggregation_runs w' = [run]"
proof -
  obtain run w' where r: "RunBucket ex_service (ex_hours 4) TriggerManual ex_agg = (Inr run, w')" "succeeded run"
    using ex_run_bucket by blast
  have "ex_hours 4 \<noteq> 0" by (simp add: ex_hours_def unix_epoch_def duration_units)
  from run_bucket_exact [OF ex_bucket(1,2) this r refl refl] r show ?thesis
    by (auto simp: ex_start ex_agg_def ex_world_at_def ex_world_def)
qed


theorem aggregate_replay_witness:
  "\<exists>n w1 m w3. AggregationRepository_Aggregate (ex_hours 0) (ex_hours 4) ex_agg = (Inr n, w1) \<and>
     AggregationRepository_Aggregate (ex_hours 0) (ex_hours 4) w1 = (Inr m, w3) \<and> m = n"
proof -
  obtain n w1 where 1: "AggregationRepository_Aggregate (ex_hours 0) (ex_hours 4) ex_agg = (Inr n, w1)"
    and l: "later ex_agg w1"
    using Aggregate_healthy [OF ex_healthy] by blast
  then have "healthy w1" by (simp add: later_def)
  then obtain m w3 where 3: "AggregationRepository_Aggregate (ex_hours 0) (ex_hours 4) w1 = (Inr m, w3)"
    using Aggregate_healthy by blast
  from aggregate_replay [OF 1 refl refl 3] 1 3 show ?thesis by blast
qed

definition ex_bucket_row :: ActivityBucket where
  "ex_bucket_row = \<lparr>ab_UserID = 1, ab_BucketStart = unix_epoch, ab_EventCount = 3,
     ab_TypeCounts = [(''a'', 1), (''b'', 2)], ab_FirstEventAt = unix_epoch,
     ab_LastEventAt = unix_epoch, ab_ComputedAt = unix_epoch\<rparr>"

theorem daily_sums_witness:
  "\<exists>days w'. AggregationRepository_Daily 1 (ex_hours 0) (ex_hours 4)
       (ex_agg\<lparr>db_activity_buckets := [ex_bucket_row]\<rparr>) = (Inr days, w') \<and>
     (\<forall>d\<in>set days. da_EventCount d = 3)"
proof -
  let ?w = "ex_agg\<lparr>db_activity_buckets := [ex_bucket_row]\<rparr>"
  have ok: "buckets_ok (db_activity_buckets ?w)"
    by (simp add: buckets_ok_def bucket_ok_def ex_bucket_row_def)
  obtain days w' where d: "AggregationRepository_Daily 1 (ex_hours 0) (ex_hours 4) ?w = (Inr days, w')"
    by (simp add: AggregationRepository_Daily_def ex_agg_def ex_world_at_def ex_world_def)
  have al: "timestamptz (ex_hours 0) = unix_epoch" "timestamptz (ex_hours 4) = unix_epoch + 4 * Hour"
    by (simp_all add: timestamptz_def Truncate_def ex_hours_def unix_epoch_def duration_units)
  from daily_sums [OF ok d refl] have days:
    "da_Day ` set days = {day_of (ab_BucketStart b) |b. b \<in> {ex_bucket_row} \<and> ab_TypeCounts b \<noteq> []}"
    "\<forall>d\<in>set days. da_EventCount d = sum_list (map ab_EventCount
       (filter (\<lambda>b. day_of (ab_BucketStart b) = da_Day d) [ex_bucket_row]))"
    by (simp_all add: al ex_bucket_row_def duration_units)
  have "da_Day d = day_of (ab_BucketStart ex_bucket_row)" if "d \<in> set days" for d
    using imageI [OF that, of da_Day] unfolding days(1) by blast
  with days(2) have "\<forall>d\<in>set days. da_EventCount d = 3" by (simp add: ex_bucket_row_def)
  with d show ?thesis by blast
qed

end
