(* ===== verification/AuthTokens.thy ===== *)
theory AuthTokens
  imports Models GoBase64
begin

text \<open>
  Package \<open>auth\<close>, without the Google client: random tokens and their hashes, passwords, and
  the access tokens that the API signs.

  \<open>library\<close> collects what this package calls and the model does not look into: SHA-256,
  random bytes and UUIDs, bcrypt, the JWT library, the parser of IP addresses and the
  Unicode case tables. A random or salted operation reads and changes the state \<open>'w\<close>.
\<close>

record Claims =
  cl_Role :: Role
  cl_Issuer :: string
  cl_Subject :: string
  cl_ID :: string
  cl_IssuedAt :: time
  cl_NotBefore :: time
  cl_ExpiresAt :: time

text \<open>
  \<open>lib_jwt_sign secret claims\<close> is \<open>NewWithClaims(HS256, claims).SignedString(secret)\<close>.
  \<open>lib_jwt_parse secret issuer now raw\<close> is \<open>ParseWithClaims\<close> at the time \<open>now\<close> with the
  options of \<open>Parse\<close> (only HS256, this issuer, an expiry required): \<open>None\<close> for an error,
  else the claims and \<open>token.Valid\<close>. \<open>lib_numeric_date\<close> is \<open>NewNumericDate\<close>.
\<close>

record 'w library =
  lib_lower :: "string \<Rightarrow> string"
  lib_parse_addr :: "string \<Rightarrow> ip_addr option"
  lib_sha256 :: "string \<Rightarrow> string"
  lib_rand :: "nat \<Rightarrow> 'w \<Rightarrow> (string + string) \<times> 'w"
  lib_uuid :: "'w \<Rightarrow> uuid \<times> 'w"
  lib_uuid_string :: "uuid \<Rightarrow> string"
  lib_bcrypt_generate :: "string \<Rightarrow> int \<Rightarrow> 'w \<Rightarrow> (string + string) \<times> 'w"
  lib_bcrypt_compare :: "string \<Rightarrow> string \<Rightarrow> bool"
  lib_numeric_date :: "time \<Rightarrow> time"
  lib_jwt_sign :: "string \<Rightarrow> Claims \<Rightarrow> string + string"
  lib_jwt_parse :: "string \<Rightarrow> string \<Rightarrow> time \<Rightarrow> string \<Rightarrow> (Claims \<times> bool) option"

section \<open>Random tokens\<close>

definition tokenBytes :: nat where "tokenBytes = 32"

definition randomToken :: "'w library \<Rightarrow> ('w, string) op" where
  "randomToken lib w =
     (case lib_rand lib tokenBytes w of
        (Inl err, w1) \<Rightarrow> (Inl (Wrapped ''auth: generate random token: '' (OtherErr err) ''''), w1)
      | (Inr buf, w1) \<Rightarrow> (Inr (RawURL_EncodeToString buf), w1))"

definition hashToken :: "'w library \<Rightarrow> string \<Rightarrow> string" where
  "hashToken lib token = lib_sha256 lib token"

definition NewRefreshToken :: "'w library \<Rightarrow> ('w, string) op" where
  "NewRefreshToken lib = randomToken lib"

definition HashRefreshToken :: "'w library \<Rightarrow> string \<Rightarrow> string" where
  "HashRefreshToken lib token = hashToken lib token"

definition NewOAuthSecret :: "'w library \<Rightarrow> ('w, string) op" where
  "NewOAuthSecret lib = randomToken lib"

definition HashOAuthSecret :: "'w library \<Rightarrow> string \<Rightarrow> string" where
  "HashOAuthSecret lib secret = hashToken lib secret"

definition PKCEChallenge :: "'w library \<Rightarrow> string \<Rightarrow> string" where
  "PKCEChallenge lib verifier = RawURL_EncodeToString (lib_sha256 lib verifier)"

section \<open>Passwords\<close>

definition MinPasswordLen :: nat where "MinPasswordLen = 8"
definition MaxPasswordLen :: nat where "MaxPasswordLen = 72"

definition HashPassword :: "'w library \<Rightarrow> string \<Rightarrow> int \<Rightarrow> ('w, string) op" where
  "HashPassword lib plain cost w =
     (if length plain < MinPasswordLen then (Inl Auth_ErrPasswordTooShort, w)
      else if length plain > MaxPasswordLen then (Inl Auth_ErrPasswordTooLong, w)
      else (case lib_bcrypt_generate lib plain cost w of
              (Inl err, w1) \<Rightarrow> (Inl (Wrapped ''auth: hash password: '' (OtherErr err) ''''), w1)
            | (Inr hash, w1) \<Rightarrow> (Inr hash, w1)))"

definition CheckPassword :: "'w library \<Rightarrow> string \<Rightarrow> string \<Rightarrow> bool" where
  "CheckPassword lib hash plain =
     (if hash = '''' \<or> length plain > MaxPasswordLen then False
      else lib_bcrypt_compare lib hash plain)"

section \<open>Access tokens\<close>

record Manager =
  mg_secret :: string
  mg_issuer :: string
  mg_accessTTL :: duration

record Access =
  ac_Token :: string
  ac_ExpiresAt :: time

definition NewManager :: "string \<Rightarrow> string \<Rightarrow> duration \<Rightarrow> go_error + Manager" where
  "NewManager secret issuer accessTTL =
     (if secret = '''' then Inl (OtherErr ''auth: empty token signing secret'')
      else if accessTTL \<le> 0 then Inl (OtherErr ''auth: access token ttl must be positive'')
      else Inr \<lparr>mg_secret = secret, mg_issuer = issuer, mg_accessTTL = accessTTL\<rparr>)"

definition Claims_UserID :: "Claims \<Rightarrow> go_error + int" where
  "Claims_UserID c =
     (case ParseInt (cl_Subject c) of
        None \<Rightarrow> Inl Auth_ErrInvalidToken
      | Some i \<Rightarrow> if i \<le> 0 then Inl Auth_ErrInvalidToken else Inr i)"

definition Manager_Issue :: "'w library \<Rightarrow> Manager \<Rightarrow> int \<Rightarrow> Role \<Rightarrow> time \<Rightarrow> ('w, Access) op" where
  "Manager_Issue lib m userID role now w =
     (let expiresAt = Add now (mg_accessTTL m);
          (jti, w1) = lib_uuid lib w;
          claims = \<lparr>cl_Role = role, cl_Issuer = mg_issuer m, cl_Subject = FormatInt userID,
                    cl_ID = lib_uuid_string lib jti, cl_IssuedAt = lib_numeric_date lib now,
                    cl_NotBefore = lib_numeric_date lib now,
                    cl_ExpiresAt = lib_numeric_date lib expiresAt\<rparr>
      in case lib_jwt_sign lib (mg_secret m) claims of
           Inl err \<Rightarrow> (Inl (Wrapped ''auth: sign token: '' (OtherErr err) ''''), w1)
         | Inr token \<Rightarrow> (Inr \<lparr>ac_Token = token, ac_ExpiresAt = expiresAt\<rparr>, w1))"

definition Manager_Parse :: "'w library \<Rightarrow> Manager \<Rightarrow> time \<Rightarrow> string \<Rightarrow> go_error + Claims" where
  "Manager_Parse lib m now raw =
     (case lib_jwt_parse lib (mg_secret m) (mg_issuer m) now raw of
        None \<Rightarrow> Inl Auth_ErrInvalidToken
      | Some (claims, valid) \<Rightarrow>
          if \<not> valid then Inl Auth_ErrInvalidToken
          else if \<not> Role_Valid (cl_Role claims) then Inl Auth_ErrInvalidToken
          else (case Claims_UserID claims of
                  Inl err \<Rightarrow> Inl Auth_ErrInvalidToken
                | Inr i \<Rightarrow> Inr claims))"

end
