(* ===== verification/AuthService.thy ===== *)
theory AuthService
  imports AuthTokens
begin

text \<open>
  \<open>internal/service/auth.go\<close> and \<open>google_oauth.go\<close>: accounts, sessions, and signing in with
  a password or with Google. The service sees its repositories, the Google client and the
  clock through interfaces, each a record of the methods over the state \<open>'w\<close>. A nil
  interface is \<open>None\<close>. What is logged is left out.
\<close>

section \<open>Interfaces and data\<close>

record 'w UserRepository =
  ur_Create :: "User \<Rightarrow> ('w, User) op"
  ur_List :: "int \<Rightarrow> ('w, UserSummary list) op"
  ur_ByID :: "int \<Rightarrow> ('w, User) op"
  ur_ByEmail :: "string \<Rightarrow> ('w, User) op"
  ur_ByGoogleSub :: "string \<Rightarrow> ('w, User) op"
  ur_AttachGoogle :: "int \<Rightarrow> string \<Rightarrow> string option \<Rightarrow> bool \<Rightarrow> ('w, User) op"

record 'w RefreshTokenRepository =
  tr_Create :: "RefreshToken \<Rightarrow> ('w, unit) op"
  tr_ByHash :: "string \<Rightarrow> ('w, RefreshToken) op"
  tr_Rotate :: "uuid \<Rightarrow> RefreshToken \<Rightarrow> ('w, unit) op"
  tr_RevokeFamily :: "uuid \<Rightarrow> ('w, int) op"

record 'w GoogleOAuthRepository =
  or_CreateState :: "GoogleOAuthState \<Rightarrow> ('w, unit) op"
  or_TakeState :: "string \<Rightarrow> time \<Rightarrow> ('w, GoogleOAuthState) op"
  or_CreateCode :: "GoogleOAuthCode \<Rightarrow> ('w, unit) op"
  or_TakeCode :: "string \<Rightarrow> time \<Rightarrow> ('w, int) op"

record GoogleClaims =
  gl_Subject :: string
  gl_Email :: string
  gl_EmailVerified :: bool
  gl_Name :: string

record 'w GoogleVerifier =
  gv_Verify :: "string \<Rightarrow> ('w, GoogleClaims) op"

record 'w GoogleExchanger =
  ge_AuthCodeURL :: "string \<Rightarrow> string \<Rightarrow> string"
  ge_Exchange :: "string \<Rightarrow> string \<Rightarrow> ('w, string) op"

record ClientMeta =
  cm_UserAgent :: string
  cm_IP :: string

record Session =
  se_User :: User
  se_AccessToken :: string
  se_RefreshToken :: string
  se_ExpiresAt :: time
  se_ExpiresIn :: int

record 'w AuthService =
  as_users :: "'w UserRepository"
  as_tokens :: "'w RefreshTokenRepository"
  as_oauth :: "'w GoogleOAuthRepository option"
  as_jwt :: Manager
  as_google :: "'w GoogleVerifier option"
  as_exchanger :: "'w GoogleExchanger option"
  as_bcryptCost :: int
  as_refreshTTL :: duration
  as_decoyHash :: string
  as_now :: "'w \<Rightarrow> time \<times> 'w"

record 'w AuthDeps =
  dp_Users :: "'w UserRepository"
  dp_Tokens :: "'w RefreshTokenRepository"
  dp_OAuth :: "'w GoogleOAuthRepository option"
  dp_JWT :: Manager
  dp_Google :: "'w GoogleVerifier option"
  dp_Exchanger :: "'w GoogleExchanger option"
  dp_BcryptCost :: int
  dp_RefreshTTL :: duration
  dp_Now :: "('w \<Rightarrow> time \<times> 'w) option"

definition decoyPassword :: string where "decoyPassword = ''not-a-real-password''"
definition DefaultAccountsLimit :: int where "DefaultAccountsLimit = 50"
definition MaxAccountsLimit :: int where "MaxAccountsLimit = 200"

definition NewAuth :: "'w library \<Rightarrow> ('w \<Rightarrow> time \<times> 'w) \<Rightarrow> 'w AuthDeps \<Rightarrow> ('w, 'w AuthService) op" where
  "NewAuth lib time_Now d w =
     (case HashPassword lib decoyPassword (dp_BcryptCost d) w of
        (Inl err, w1) \<Rightarrow> (Inl (Wrapped ''service: prepare the login decoy hash: '' err ''''), w1)
      | (Inr decoy, w1) \<Rightarrow>
          (Inr \<lparr>as_users = dp_Users d, as_tokens = dp_Tokens d, as_oauth = dp_OAuth d,
                as_jwt = dp_JWT d, as_google = dp_Google d, as_exchanger = dp_Exchanger d,
                as_bcryptCost = dp_BcryptCost d, as_refreshTTL = dp_RefreshTTL d,
                as_decoyHash = decoy,
                as_now = (case dp_Now d of None \<Rightarrow> time_Now | Some now \<Rightarrow> now)\<rparr>, w1))"

definition normalizeEmail :: "'w library \<Rightarrow> string \<Rightarrow> go_error + string" where
  "normalizeEmail lib email =
     (let normalized = NormalizeEmail (lib_lower lib) email
      in if normalized = '''' \<or> length normalized > MaxEmailLen then Inl Svc_ErrInvalidEmail
         else Inr normalized)"

definition textPtr :: "string \<Rightarrow> string option" where
  "textPtr s = (if s = '''' then None else Some s)"

section \<open>Sessions\<close>

definition newRefreshToken ::
    "'w library \<Rightarrow> 'w AuthService \<Rightarrow> int \<Rightarrow> uuid \<Rightarrow> ClientMeta \<Rightarrow> time \<Rightarrow> ('w, RefreshToken \<times> string) op" where
  "newRefreshToken lib s userID familyID meta now w =
     (case NewRefreshToken lib w of
        (Inl err, w1) \<Rightarrow> (Inl err, w1)
      | (Inr raw, w1) \<Rightarrow>
          (case lib_uuid lib w1 of
             (i, w2) \<Rightarrow>
               (Inr (\<lparr>rt_ID = i, rt_FamilyID = familyID, rt_UserID = userID,
                      rt_TokenHash = HashRefreshToken lib raw,
                      rt_UserAgent = textPtr (cm_UserAgent meta),
                      rt_IP = ParseIP (lib_parse_addr lib) (cm_IP meta),
                      rt_CreatedAt = 0, rt_ExpiresAt = Add now (as_refreshTTL s),
                      rt_RevokedAt = None, rt_ReplacedBy = None\<rparr>, raw), w2)))"

text \<open>\<open>int(ttl.Seconds())\<close> for the positive lifetime of an access token.\<close>

definition whole_seconds :: "duration \<Rightarrow> int" where
  "whole_seconds d = d div Second"

definition issueSession ::
    "'w library \<Rightarrow> 'w AuthService \<Rightarrow> User \<Rightarrow> string \<Rightarrow> time \<Rightarrow> ('w, Session) op" where
  "issueSession lib s user refreshToken now w =
     (case Manager_Issue lib (as_jwt s) (user_ID user) (user_Role user) now w of
        (Inl err, w1) \<Rightarrow> (Inl err, w1)
      | (Inr access, w1) \<Rightarrow>
          (Inr \<lparr>se_User = user, se_AccessToken = ac_Token access, se_RefreshToken = refreshToken,
                se_ExpiresAt = ac_ExpiresAt access,
                se_ExpiresIn = whole_seconds (mg_accessTTL (as_jwt s))\<rparr>, w1))"

definition startSession ::
    "'w library \<Rightarrow> 'w AuthService \<Rightarrow> User \<Rightarrow> ClientMeta \<Rightarrow> ('w, Session) op" where
  "startSession lib s user meta w =
     (case as_now s w of
        (now, w1) \<Rightarrow>
          (case lib_uuid lib w1 of
             (family, w2) \<Rightarrow>
               (case newRefreshToken lib s (user_ID user) family meta now w2 of
                  (Inl err, w3) \<Rightarrow> (Inl err, w3)
                | (Inr (token, raw), w3) \<Rightarrow>
                    (case tr_Create (as_tokens s) token w3 of
                       (Inl err, w4) \<Rightarrow> (Inl err, w4)
                     | (Inr _, w4) \<Rightarrow> issueSession lib s user raw now w4))))"

definition revokeCompromisedFamily :: "'w AuthService \<Rightarrow> RefreshToken \<Rightarrow> 'w \<Rightarrow> 'w" where
  "revokeCompromisedFamily s token w = snd (tr_RevokeFamily (as_tokens s) (rt_FamilyID token) w)"

section \<open>Accounts and passwords\<close>

definition Accounts :: "'w AuthService \<Rightarrow> int \<Rightarrow> ('w, UserSummary list) op" where
  "Accounts s limit =
     ur_List (as_users s)
       (if limit \<le> 0 then DefaultAccountsLimit
        else if limit > MaxAccountsLimit then MaxAccountsLimit else limit)"

definition Register ::
    "'w library \<Rightarrow> 'w AuthService \<Rightarrow> string \<Rightarrow> string \<Rightarrow> ClientMeta \<Rightarrow> ('w, Session) op" where
  "Register lib s email password meta w =
     (case normalizeEmail lib email of
        Inl err \<Rightarrow> (Inl err, w)
      | Inr normalized \<Rightarrow>
          (case HashPassword lib password (as_bcryptCost s) w of
             (Inl err, w1) \<Rightarrow> (Inl err, w1)
           | (Inr hash, w1) \<Rightarrow>
               (case ur_Create (as_users s)
                       \<lparr>user_ID = 0, user_Email = normalized, user_PasswordHash = Some hash,
                        user_Role = RoleUser, user_GoogleSub = None, user_Name = None,
                        user_EmailVerified = False, user_CreatedAt = 0, user_UpdatedAt = 0\<rparr> w1 of
                  (Inl err, w2) \<Rightarrow>
                    (if errors_Is err Repo_ErrEmailTaken then (Inl Svc_ErrEmailTaken, w2)
                     else (Inl err, w2))
                | (Inr user, w2) \<Rightarrow> startSession lib s user meta w2)))"

text \<open>
  An unknown address costs one comparison with the decoy hash, like a known one; its result
  is not used.
\<close>

definition Login ::
    "'w library \<Rightarrow> 'w AuthService \<Rightarrow> string \<Rightarrow> string \<Rightarrow> ClientMeta \<Rightarrow> ('w, Session) op" where
  "Login lib s email password meta w =
     (case normalizeEmail lib email of
        Inl err \<Rightarrow> (Inl Svc_ErrInvalidCredentials, w)
      | Inr normalized \<Rightarrow>
          (case ur_ByEmail (as_users s) normalized w of
             (Inl err, w1) \<Rightarrow>
               (if errors_Is err Repo_ErrNotFound
                then (let _ = CheckPassword lib (as_decoyHash s) password
                      in (Inl Svc_ErrInvalidCredentials, w1))
                else (Inl err, w1))
           | (Inr user, w1) \<Rightarrow>
               (if \<not> HasPassword user then (Inl Svc_ErrPasswordLoginUnavailable, w1)
                else if \<not> CheckPassword lib (the (user_PasswordHash user)) password
                  then (Inl Svc_ErrInvalidCredentials, w1)
                else startSession lib s user meta w1)))"

definition AuthService_User :: "'w AuthService \<Rightarrow> int \<Rightarrow> ('w, User) op" where
  "AuthService_User s i w =
     (case ur_ByID (as_users s) i w of
        (Inl err, w1) \<Rightarrow>
          (if errors_Is err Repo_ErrNotFound then (Inl Svc_ErrUserNotFound, w1) else (Inl err, w1))
      | (Inr user, w1) \<Rightarrow> (Inr user, w1))"

section \<open>Refreshing and ending a session\<close>

definition Refresh ::
    "'w library \<Rightarrow> 'w AuthService \<Rightarrow> string \<Rightarrow> ClientMeta \<Rightarrow> ('w, Session) op" where
  "Refresh lib s rawToken meta w =
     (case tr_ByHash (as_tokens s) (HashRefreshToken lib rawToken) w of
        (Inl err, w1) \<Rightarrow>
          (if errors_Is err Repo_ErrNotFound then (Inl Svc_ErrInvalidRefreshToken, w1)
           else (Inl err, w1))
      | (Inr stored, w1) \<Rightarrow>
          (case as_now s w1 of
             (now, w2) \<Rightarrow>
               (if Revoked stored
                  then (Inl Svc_ErrInvalidRefreshToken, revokeCompromisedFamily s stored w2)
                else if Expired stored now then (Inl Svc_ErrInvalidRefreshToken, w2)
                else
                  (case ur_ByID (as_users s) (rt_UserID stored) w2 of
                     (Inl err, w3) \<Rightarrow>
                       (if errors_Is err Repo_ErrNotFound then (Inl Svc_ErrInvalidRefreshToken, w3)
                        else (Inl err, w3))
                   | (Inr user, w3) \<Rightarrow>
                       (case newRefreshToken lib s (user_ID user) (rt_FamilyID stored) meta now w3 of
                          (Inl err, w4) \<Rightarrow> (Inl err, w4)
                        | (Inr (nxt, raw), w4) \<Rightarrow>
                            (case tr_Rotate (as_tokens s) (rt_ID stored) nxt w4 of
                               (Inl err, w5) \<Rightarrow>
                                 (if errors_Is err Repo_ErrTokenAlreadyRotated
                                  then (Inl Svc_ErrInvalidRefreshToken,
                                        revokeCompromisedFamily s stored w5)
                                  else (Inl err, w5))
                             | (Inr _, w5) \<Rightarrow> issueSession lib s user raw now w5))))))"

definition Logout :: "'w library \<Rightarrow> 'w AuthService \<Rightarrow> string \<Rightarrow> ('w, unit) op" where
  "Logout lib s rawToken w =
     (case tr_ByHash (as_tokens s) (HashRefreshToken lib rawToken) w of
        (Inl err, w1) \<Rightarrow>
          (if errors_Is err Repo_ErrNotFound then (Inr (), w1) else (Inl err, w1))
      | (Inr stored, w1) \<Rightarrow>
          (case tr_RevokeFamily (as_tokens s) (rt_FamilyID stored) w1 of
             (Inl err, w2) \<Rightarrow> (Inl err, w2)
           | (Inr _, w2) \<Rightarrow> (Inr (), w2)))"

section \<open>Google accounts\<close>

definition attachGoogle :: "'w AuthService \<Rightarrow> User \<Rightarrow> GoogleClaims \<Rightarrow> ('w, User) op" where
  "attachGoogle s user claims w =
     (if HasGoogle user
      then (if the (user_GoogleSub user) \<noteq> gl_Subject claims then (Inl Svc_ErrInvalidGoogleToken, w)
            else (Inr user, w))
      else (case ur_AttachGoogle (as_users s) (user_ID user) (gl_Subject claims)
                   (textPtr (gl_Name claims)) True w of
              (Inl err, w1) \<Rightarrow>
                (if errors_Is err Repo_ErrGoogleSubTaken then (Inl Svc_ErrInvalidGoogleToken, w1)
                 else if errors_Is err Repo_ErrNotFound then (Inl Svc_ErrInvalidGoogleToken, w1)
                 else (Inl err, w1))
            | (Inr linked, w1) \<Rightarrow> (Inr linked, w1)))"

definition linkOrCreateGoogleUser ::
    "'w library \<Rightarrow> 'w AuthService \<Rightarrow> GoogleClaims \<Rightarrow> ('w, User) op" where
  "linkOrCreateGoogleUser lib s claims w =
     (case normalizeEmail lib (gl_Email claims) of
        Inl err \<Rightarrow> (Inl Svc_ErrInvalidGoogleToken, w)
      | Inr email \<Rightarrow>
          (case ur_ByEmail (as_users s) email w of
             (Inr existing, w1) \<Rightarrow> attachGoogle s existing claims w1
           | (Inl err, w1) \<Rightarrow>
               (if \<not> errors_Is err Repo_ErrNotFound then (Inl err, w1)
                else
                  (case ur_Create (as_users s)
                          \<lparr>user_ID = 0, user_Email = email, user_PasswordHash = None,
                           user_Role = RoleUser, user_GoogleSub = Some (gl_Subject claims),
                           user_Name = textPtr (gl_Name claims), user_EmailVerified = True,
                           user_CreatedAt = 0, user_UpdatedAt = 0\<rparr> w1 of
                     (Inr created, w2) \<Rightarrow> (Inr created, w2)
                   | (Inl err, w2) \<Rightarrow>
                       (if errors_Is err Repo_ErrGoogleSubTaken then (Inl Svc_ErrInvalidGoogleToken, w2)
                        else if \<not> errors_Is err Repo_ErrEmailTaken then (Inl err, w2)
                        else
                          (case ur_ByEmail (as_users s) email w2 of
                             (Inl err, w3) \<Rightarrow> (Inl err, w3)
                           | (Inr existing, w3) \<Rightarrow> attachGoogle s existing claims w3))))))"

definition resolveGoogleUser :: "'w library \<Rightarrow> 'w AuthService \<Rightarrow> GoogleClaims \<Rightarrow> ('w, User) op" where
  "resolveGoogleUser lib s claims w =
     (if \<not> gl_EmailVerified claims \<or> gl_Email claims = '''' then (Inl Svc_ErrGoogleEmailUnverified, w)
      else (case ur_ByGoogleSub (as_users s) (gl_Subject claims) w of
              (Inr user, w1) \<Rightarrow> (Inr user, w1)
            | (Inl err, w1) \<Rightarrow>
                (if errors_Is err Repo_ErrNotFound then linkOrCreateGoogleUser lib s claims w1
                 else (Inl err, w1))))"

section \<open>The authorization code flow\<close>

definition googleStateTTL :: duration where "googleStateTTL = 10 * Minute"
definition googleCodeTTL :: duration where "googleCodeTTL = Minute"

record GoogleCallback =
  cb_Code :: string
  cb_RedirectTo :: string

definition safeRedirect :: "string \<Rightarrow> string" where
  "safeRedirect path =
     (let path = TrimSpace path
      in if \<not> HasPrefix path ''/'' \<or> HasPrefix path ''//'' then '''' else path)"

definition StartGoogleFlow :: "'w library \<Rightarrow> 'w AuthService \<Rightarrow> string \<Rightarrow> ('w, string) op" where
  "StartGoogleFlow lib s redirectTo w =
     (case (as_exchanger s, as_oauth s) of
        (Some exchanger, Some oauth) \<Rightarrow>
          (case NewOAuthSecret lib w of
             (Inl err, w1) \<Rightarrow> (Inl err, w1)
           | (Inr state, w1) \<Rightarrow>
               (case NewOAuthSecret lib w1 of
                  (Inl err, w2) \<Rightarrow> (Inl err, w2)
                | (Inr verifier, w2) \<Rightarrow>
                    (case as_now s w2 of
                       (now, w3) \<Rightarrow>
                         (case or_CreateState oauth
                                 \<lparr>gs_StateHash = HashOAuthSecret lib state, gs_CodeVerifier = verifier,
                                  gs_RedirectTo = textPtr (safeRedirect redirectTo),
                                  gs_CreatedAt = 0, gs_ExpiresAt = Add now googleStateTTL\<rparr> w3 of
                            (Inl err, w4) \<Rightarrow> (Inl err, w4)
                          | (Inr _, w4) \<Rightarrow>
                              (Inr (ge_AuthCodeURL exchanger state (PKCEChallenge lib verifier)), w4)))))
      | _ \<Rightarrow> (Inl Svc_ErrGoogleDisabled, w))"

text \<open>\<open>fmt.Errorf("%w: %v", ErrInvalidGoogleToken, err)\<close>.\<close>

definition invalid_google_token :: "go_error \<Rightarrow> go_error" where
  "invalid_google_token err = Wrapped '''' Svc_ErrInvalidGoogleToken ('': '' @ error_text err)"

definition verify_google :: "'w AuthService \<Rightarrow> string \<Rightarrow> ('w, GoogleClaims) op" where
  "verify_google s idToken w =
     (case as_google s of
        None \<Rightarrow> (Inl (Panic ''nil GoogleVerifier''), w)
      | Some v \<Rightarrow>
          (case gv_Verify v idToken w of
             (Inl err, w1) \<Rightarrow> (Inl (invalid_google_token err), w1)
           | (Inr claims, w1) \<Rightarrow> (Inr claims, w1)))"

definition CompleteGoogleFlow ::
    "'w library \<Rightarrow> 'w AuthService \<Rightarrow> string \<Rightarrow> string \<Rightarrow> ('w, GoogleCallback) op" where
  "CompleteGoogleFlow lib s code state w =
     (case (as_exchanger s, as_oauth s) of
        (Some exchanger, Some oauth) \<Rightarrow>
          (if code = '''' \<or> state = '''' then (Inl Svc_ErrInvalidOAuthState, w)
           else
             (case as_now s w of
                (now, w1) \<Rightarrow>
                  (case or_TakeState oauth (HashOAuthSecret lib state) now w1 of
                     (Inl err, w2) \<Rightarrow>
                       (if errors_Is err Repo_ErrNotFound then (Inl Svc_ErrInvalidOAuthState, w2)
                        else (Inl err, w2))
                   | (Inr stored, w2) \<Rightarrow>
                       (case ge_Exchange exchanger code (gs_CodeVerifier stored) w2 of
                          (Inl err, w3) \<Rightarrow> (Inl (invalid_google_token err), w3)
                        | (Inr idToken, w3) \<Rightarrow>
                            (case verify_google s idToken w3 of
                               (Inl err, w4) \<Rightarrow> (Inl err, w4)
                             | (Inr claims, w4) \<Rightarrow>
                                 (case resolveGoogleUser lib s claims w4 of
                                    (Inl err, w5) \<Rightarrow> (Inl err, w5)
                                  | (Inr user, w5) \<Rightarrow>
                                      (case NewOAuthSecret lib w5 of
                                         (Inl err, w6) \<Rightarrow> (Inl err, w6)
                                       | (Inr oneTime, w6) \<Rightarrow>
                                           (case or_CreateCode oauth
                                                   \<lparr>gc_CodeHash = HashOAuthSecret lib oneTime,
                                                    gc_UserID = user_ID user, gc_CreatedAt = 0,
                                                    gc_ExpiresAt = Add now googleCodeTTL,
                                                    gc_UsedAt = None\<rparr> w6 of
                                              (Inl err, w7) \<Rightarrow> (Inl err, w7)
                                            | (Inr _, w7) \<Rightarrow>
                                                (Inr \<lparr>cb_Code = oneTime,
                                                      cb_RedirectTo = (case gs_RedirectTo stored of
                                                         None \<Rightarrow> '''' | Some p \<Rightarrow> p)\<rparr>, w7)))))))))
      | _ \<Rightarrow> (Inl Svc_ErrGoogleDisabled, w))"

definition ExchangeGoogleCode ::
    "'w library \<Rightarrow> 'w AuthService \<Rightarrow> string \<Rightarrow> ClientMeta \<Rightarrow> ('w, Session) op" where
  "ExchangeGoogleCode lib s code meta w =
     (case as_oauth s of
        None \<Rightarrow> (Inl Svc_ErrGoogleDisabled, w)
      | Some oauth \<Rightarrow>
          (case as_now s w of
             (now, w1) \<Rightarrow>
               (case or_TakeCode oauth (HashOAuthSecret lib code) now w1 of
                  (Inl err, w2) \<Rightarrow>
                    (if errors_Is err Repo_ErrNotFound then (Inl Svc_ErrInvalidExchangeCode, w2)
                     else (Inl err, w2))
                | (Inr userID, w2) \<Rightarrow>
                    (case ur_ByID (as_users s) userID w2 of
                       (Inl err, w3) \<Rightarrow>
                         (if errors_Is err Repo_ErrNotFound then (Inl Svc_ErrInvalidExchangeCode, w3)
                          else (Inl err, w3))
                     | (Inr user, w3) \<Rightarrow> startSession lib s user meta w3))))"

end
