(* ===== verification/TokenProtocol.thy ===== *)
theory TokenProtocol
  imports TokenRepo UserRepo
begin

text \<open>
  The life of the refresh tokens in the database, under any interleaving of the requests
  that touch them. Every transaction of the program that changes \<open>refresh_tokens\<close> is one
  step. The first component of a state is the set of families that have ever been started:
  \<open>uuid.New\<close> does not return one of them again.
\<close>

section \<open>Steps\<close>

inductive token_step :: "uuid set \<times> 'm db_scheme \<Rightarrow> uuid set \<times> 'm db_scheme \<Rightarrow> bool" where
  create: "rt_FamilyID t \<notin> F \<Longrightarrow> RefreshTokenRepository_Create t w = (r, w') \<Longrightarrow>
    token_step (F, w) (insert (rt_FamilyID t) F, w')"
| rotate: "(\<forall>row\<in>set (db_refresh_tokens w). rt_ID row = oldID \<longrightarrow> rt_FamilyID row = rt_FamilyID nxt) \<Longrightarrow>
    rt_FamilyID nxt \<in> F \<Longrightarrow> RefreshTokenRepository_Rotate oldID nxt w = (r, w') \<Longrightarrow>
    token_step (F, w) (F, w')"
| revoke: "RefreshTokenRepository_RevokeFamily f w = (n, w') \<Longrightarrow> token_step (F, w) (F, w')"
| attach: "UserRepository_AttachGoogle i sub name verified w = (u, w') \<Longrightarrow> token_step (F, w) (F, w')"
| expire: "RefreshTokenRepository_DeleteExpired t w = (n, w') \<Longrightarrow> token_step (F, w) (F, w')"
| other: "db_refresh_tokens w' = db_refresh_tokens w \<Longrightarrow> F \<subseteq> F' \<Longrightarrow> token_step (F, w) (F', w')"

inductive_cases token_stepE: "token_step s s'"

text \<open>
  In \<open>rotate\<close> the id comes from a row read earlier and the new token continues that row's
  family: \<open>Auth.Refresh\<close> passes \<open>stored.ID\<close> and \<open>stored.FamilyID\<close>, and neither column of a
  row ever changes. \<open>other\<close> is any step of the program that leaves the tokens alone; it may
  draw further UUIDs.
\<close>

definition token_inv :: "uuid set \<times> 'm db_scheme \<Rightarrow> bool" where
  "token_inv s \<longleftrightarrow>
     (\<forall>t\<in>set (db_refresh_tokens (snd s)). rt_FamilyID t \<in> fst s) \<and>
     (\<forall>f. length (live_in_family f (db_refresh_tokens (snd s))) \<le> 1)"

section \<open>What each operation does to the live tokens of a family\<close>

lemma live_in_family_append [simp]:
  "live_in_family f (xs @ ys) = live_in_family f xs @ live_in_family f ys"
  by (simp add: live_in_family_def)

lemma live_in_family_Nil [simp]: "live_in_family f [] = []"
  by (simp add: live_in_family_def)

lemma new_row_sel [simp]:
  "rt_FamilyID (new_row now t) = rt_FamilyID t" "rt_ID (new_row now t) = rt_ID t"
  "live (new_row now t)"
  by (simp_all add: new_row_def live_def)

text \<open>Revoking some rows leaves a family the live tokens that were not revoked.\<close>

lemma live_after_revoking:
  assumes "\<And>t. rt_RevokedAt (g t) \<noteq> None" and "\<And>t. rt_FamilyID (g t) = rt_FamilyID t"
  shows "live_in_family f (update_rows p g ts) = filter (\<lambda>t. \<not> p t) (live_in_family f ts)"
proof (induction ts)
  case (Cons t ts)
  have "\<not> live (g t)" using assms(1) by (simp add: live_def)
  with Cons show ?case by (simp add: live_in_family_def update_rows_def)
qed (simp add: update_rows_def)

lemma live_after_revoking_le:
  assumes "\<And>t. rt_RevokedAt (g t) \<noteq> None" and "\<And>t. rt_FamilyID (g t) = rt_FamilyID t"
  shows "length (live_in_family f (update_rows p g ts)) \<le> length (live_in_family f ts)"
  by (simp add: live_after_revoking [OF assms])

lemma families_update_rows:
  assumes "\<And>t. rt_FamilyID (g t) = rt_FamilyID t"
  shows "rt_FamilyID ` set (update_rows p g ts) = rt_FamilyID ` set ts"
proof -
  have "rt_FamilyID (if p t then g t else t) = rt_FamilyID t" for t by (simp add: assms)
  then show ?thesis unfolding set_update_rows image_image by simp
qed

lemma Create_tokens:
  assumes "RefreshTokenRepository_Create t w = (r, w')"
  shows "db_refresh_tokens w' = db_refresh_tokens w \<or>
    (\<exists>now. db_refresh_tokens w' = db_refresh_tokens w @ [new_row now t])"
proof (cases r)
  case (Inl e)
  with assms show ?thesis
    by (auto simp: RefreshTokenRepository_Create_def same_tables_def dest: insertRefreshToken_Inl)
next
  case (Inr x)
  with assms have "insertRefreshToken t w = (Inr x, w')" by (simp add: RefreshTokenRepository_Create_def)
  then show ?thesis by (rule insertRefreshToken_Inr) (auto simp: same_tables_def)
qed

lemma Rotate_tokens:
  assumes "RefreshTokenRepository_Rotate oldID nxt w = (r, w')"
  shows "db_refresh_tokens w' = db_refresh_tokens w \<or>
    (\<exists>now g. (\<forall>t. rt_RevokedAt (g t) \<noteq> None \<and> rt_FamilyID (g t) = rt_FamilyID t) \<and>
       db_refresh_tokens w' = update_rows (\<lambda>t. rt_ID t = oldID \<and> live t) g
         (db_refresh_tokens w @ [new_row now nxt]) \<and>
       (\<exists>t\<in>set (db_refresh_tokens w @ [new_row now nxt]). rt_ID t = oldID \<and> live t))"
proof (cases r)
  case (Inl e)
  with assms show ?thesis by (auto simp: same_tables_def dest: Rotate_Inl)
next
  case (Inr x)
  note R = Rotate_Inr [OF assms [unfolded Inr]]
  show ?thesis
    by (rule disjI2, rule exI [of _ "db_now w"],
        rule exI [of _ "\<lambda>t. t\<lparr>rt_RevokedAt := Some (db_now w), rt_ReplacedBy := Some (rt_ID nxt)\<rparr>"])
      (use R(1,2) in auto)
qed

lemma RevokeFamily_tokens:
  assumes "RefreshTokenRepository_RevokeFamily f w = (r, w')"
  shows "db_refresh_tokens w' = db_refresh_tokens w \<or>
    db_refresh_tokens w' = update_rows (\<lambda>t. rt_FamilyID t = f \<and> live t)
      (\<lambda>t. t\<lparr>rt_RevokedAt := Some (db_now w)\<rparr>) (db_refresh_tokens w)"
  using assms by (cases r) (auto simp: same_tables_def RevokeFamily_Inr(1) dest: RevokeFamily_Inl)

lemma send_tokens:
  assumes "send stmt w = (r, w')" and "\<And>v r v'. stmt v = (r, v') \<Longrightarrow> db_refresh_tokens v' = db_refresh_tokens v"
  shows "db_refresh_tokens w' = db_refresh_tokens w"
  using assms by (auto elim!: send_cases simp: same_tables_def)

lemma update_google_tokens:
  "update_google i sub name ev w = (r, w') \<Longrightarrow> db_refresh_tokens w' = db_refresh_tokens w"
  by (auto simp: update_google_def Let_def split: if_splits option.splits)

lemma revoke_user_tokens_tokens:
  assumes "send (revoke_user_tokens i) w = (r, w')"
  shows "db_refresh_tokens w' = db_refresh_tokens w \<or>
    (\<exists>now. db_refresh_tokens w' = update_rows (\<lambda>t. rt_UserID t = i \<and> live t)
       (\<lambda>t. t\<lparr>rt_RevokedAt := Some now\<rparr>) (db_refresh_tokens w))"
  using assms
proof (rule send_cases)
  fix w1
  assume "same_tables w w1" and "revoke_user_tokens i w1 = (r, w')"
  then show ?thesis by (auto simp: revoke_user_tokens_def Let_def same_tables_def live_def)
qed (simp add: same_tables_def)

lemma AttachGoogle_body_tokens:
  assumes "AttachGoogle_body i sub name ev w = (r, w')"
  shows "db_refresh_tokens w' = db_refresh_tokens w \<or>
    (\<exists>now. db_refresh_tokens w' = update_rows (\<lambda>t. rt_UserID t = i \<and> live t)
       (\<lambda>t. t\<lparr>rt_RevokedAt := Some now\<rparr>) (db_refresh_tokens w))"
proof -
  obtain r1 w1 where 1: "send (\<lambda>w. (one_row (map_option user_EmailVerified
      (select_row (\<lambda>r. user_ID r = i) (db_users w))), w)) w = (r1, w1)" by fastforce
  have t1: "db_refresh_tokens w1 = db_refresh_tokens w" using 1 by (rule send_tokens) auto
  obtain r2 w2 where 2: "send (update_google i sub name ev) w1 = (r2, w2)" by fastforce
  have t2: "db_refresh_tokens w2 = db_refresh_tokens w"
    using send_tokens [OF 2] update_google_tokens t1 by metis
  obtain r3 w3 where 3: "send (revoke_user_tokens i) w2 = (r3, w3)" by fastforce
  have "w' = w1 \<or> w' = w2 \<or> w' = w3"
    using assms 1 2 3 by (auto simp: AttachGoogle_body_def split: sum.splits if_splits)
  then show ?thesis using t1 t2 revoke_user_tokens_tokens [OF 3] by auto
qed

lemma AttachGoogle_tokens:
  assumes "UserRepository_AttachGoogle i sub name ev w = (r, w')"
  shows "db_refresh_tokens w' = db_refresh_tokens w \<or>
    (\<exists>now. db_refresh_tokens w' = update_rows (\<lambda>t. rt_UserID t = i \<and> live t)
       (\<lambda>t. t\<lparr>rt_RevokedAt := Some now\<rparr>) (db_refresh_tokens w))"
proof (cases r)
  case (Inl e)
  with assms show ?thesis
    by (auto simp: UserRepository_AttachGoogle_def same_tables_def dest: in_tx_Inl_same)
next
  case (Inr u)
  note tx = assms [unfolded Inr UserRepository_AttachGoogle_def]
  obtain w0 w1 where 0: "same_tables w w0"
    and b: "AttachGoogle_body i sub name ev w0 = (Inr u, w1)" and 1: "same_tables w1 w'"
    by (rule in_tx_Inr [OF tx])
  from AttachGoogle_body_tokens [OF b] show ?thesis
    by (simp add: same_tablesD [OF 0] same_tablesD [OF 1])
qed

definition token_keys :: "RefreshToken list \<Rightarrow> bool" where
  "token_keys ts \<longleftrightarrow> distinct (map rt_ID ts) \<and> distinct (map rt_TokenHash ts)"

lemma token_keys_update [simp]:
  assumes "\<And>t. rt_ID (g t) = rt_ID t" and "\<And>t. rt_TokenHash (g t) = rt_TokenHash t"
  shows "token_keys (update_rows p g ts) = token_keys ts"
  unfolding token_keys_def using assms by (simp add: update_rows_map_same)

lemma token_keys_new [simp]:
  "token_keys (ts @ [new_row now t]) \<longleftrightarrow>
     token_keys ts \<and> (\<forall>r\<in>set ts. rt_ID r \<noteq> rt_ID t \<and> rt_TokenHash r \<noteq> rt_TokenHash t)"
  by (auto simp: token_keys_def new_row_def image_iff)

lemma DeleteExpired_ids:
  assumes "RefreshTokenRepository_DeleteExpired t w = (r, w')"
    and "token_keys (db_refresh_tokens w)"
  shows "token_keys (db_refresh_tokens w')"
proof -
  obtain r1 where s: "send (delete_expired_tokens (timestamptz t)) w = (r1, w')"
    using assms by (auto simp: RefreshTokenRepository_DeleteExpired_def split: prod.splits)
  then show ?thesis
  proof (rule send_cases)
    fix w1
    assume "same_tables w w1" and "delete_expired_tokens (timestamptz t) w1 = (r1, w')"
    then show ?thesis using assms(2)
      by (auto simp: delete_expired_tokens_def Let_def same_tables_def token_keys_def o_def intro: distinct_map_filter_key)
  qed (use assms(2) in \<open>simp add: same_tables_def\<close>)
qed

lemma live_after_delete:

  assumes "RefreshTokenRepository_DeleteExpired t w = (r, w')"
  shows "length (live_in_family f (db_refresh_tokens w')) \<le> length (live_in_family f (db_refresh_tokens w))"
    and "rt_FamilyID ` set (db_refresh_tokens w') \<subseteq> rt_FamilyID ` set (db_refresh_tokens w)"
proof -
  have del: "\<exists>g p. (\<forall>t. rt_RevokedAt (g t) = rt_RevokedAt t \<and> rt_FamilyID (g t) = rt_FamilyID t) \<and>
      db_refresh_tokens w' = map g (filter p (db_refresh_tokens w))"
  proof -
    obtain r1 where s: "send (delete_expired_tokens (timestamptz t)) w = (r1, w')"
      using assms by (auto simp: RefreshTokenRepository_DeleteExpired_def split: prod.splits)
    then show ?thesis
    proof (rule send_cases)
      assume "same_tables w w'"
      then show ?thesis by (intro exI [of _ id] exI [of _ "\<lambda>_. True"]) (simp add: same_tables_def)
    next
      fix w1
      assume "same_tables w w1" and "delete_expired_tokens (timestamptz t) w1 = (r1, w')"
      then show ?thesis
        by (intro exI [of _ "\<lambda>ta. ta\<lparr>rt_ReplacedBy := (case rt_ReplacedBy ta of None \<Rightarrow> None
             | Some i \<Rightarrow> if list_ex (\<lambda>t. rt_ID t = i) (filter (\<lambda>ta. rt_ExpiresAt ta < timestamptz t)
                  (db_refresh_tokens w)) then None else Some i)\<rparr>"]
             exI [of _ "\<lambda>ta. \<not> rt_ExpiresAt ta < timestamptz t"])
          (auto simp: delete_expired_tokens_def Let_def same_tables_def)
    qed
  qed
  then obtain g p where g: "\<forall>t. rt_RevokedAt (g t) = rt_RevokedAt t \<and> rt_FamilyID (g t) = rt_FamilyID t"
    and w': "db_refresh_tokens w' = map g (filter p (db_refresh_tokens w))" by blast
  have "live_in_family f (map g ts) = map g (live_in_family f ts)" for ts
    using g by (simp add: live_in_family_def filter_map o_def live_def)
  then have "length (live_in_family f (db_refresh_tokens w')) =
      length (filter p (live_in_family f (db_refresh_tokens w)))"
    by (simp add: w' live_in_family_def conj_commute)
  then show "length (live_in_family f (db_refresh_tokens w')) \<le> length (live_in_family f (db_refresh_tokens w))"
    by simp
  show "rt_FamilyID ` set (db_refresh_tokens w') \<subseteq> rt_FamilyID ` set (db_refresh_tokens w)"
    using g by (auto simp: w')
qed

section \<open>The invariant\<close>

lemma length_le_1: "length xs \<le> 1 \<Longrightarrow> x \<in> set xs \<Longrightarrow> xs = [x]"
  by (cases xs) auto

text \<open>An operation that adds no family and no live token to one.\<close>

lemma token_shrink:
  assumes "token_inv (F, w)"
    and "rt_FamilyID ` set (db_refresh_tokens w') \<subseteq> rt_FamilyID ` set (db_refresh_tokens w)"
    and "\<And>f. length (live_in_family f (db_refresh_tokens w')) \<le> length (live_in_family f (db_refresh_tokens w))"
  shows "token_inv (F, w') \<and>
    (\<forall>f\<in>F. live_in_family f (db_refresh_tokens w) = [] \<longrightarrow> live_in_family f (db_refresh_tokens w') = [])"
proof -
  have "\<forall>x\<in>set (db_refresh_tokens w'). rt_FamilyID x \<in> F"
    using assms(1,2) by (auto simp: token_inv_def)
  moreover have "length (live_in_family f (db_refresh_tokens w')) \<le> 1" for f
    using assms(1) assms(3) [of f] order_trans by (fastforce simp: token_inv_def)
  moreover have "live_in_family f (db_refresh_tokens w') = []"
    if "live_in_family f (db_refresh_tokens w) = []" for f
    using assms(3) [of f] that by simp
  ultimately show ?thesis by (simp add: token_inv_def)
qed

lemma token_shrink_revoking:
  assumes "token_inv (F, w)" and "db_refresh_tokens w' = update_rows p g (db_refresh_tokens w)"
    and "\<And>t. rt_RevokedAt (g t) \<noteq> None" and "\<And>t. rt_FamilyID (g t) = rt_FamilyID t"
  shows "token_inv (F, w') \<and>
    (\<forall>f\<in>F. live_in_family f (db_refresh_tokens w) = [] \<longrightarrow> live_in_family f (db_refresh_tokens w') = [])"
proof (rule token_shrink [OF assms(1)])
  show "rt_FamilyID ` set (db_refresh_tokens w') \<subseteq> rt_FamilyID ` set (db_refresh_tokens w)"
    unfolding assms(2) families_update_rows [OF assms(4)] by simp
  show "length (live_in_family f (db_refresh_tokens w')) \<le> length (live_in_family f (db_refresh_tokens w))" for f
    unfolding assms(2) by (rule live_after_revoking_le [OF assms(3,4)])
qed

text \<open>Rotation: the live token of the family is replaced by the new one.\<close>

lemma rotate_live:
  assumes one: "length (live_in_family f ts) \<le> 1"
    and fam: "\<forall>row\<in>set ts. rt_ID row = oldID \<longrightarrow> rt_FamilyID row = rt_FamilyID nxt"
    and old: "\<exists>t\<in>set (ts @ [new_row now nxt]). rt_ID t = oldID \<and> live t"
    and g: "\<forall>t. rt_RevokedAt (g t) \<noteq> None \<and> rt_FamilyID (g t) = rt_FamilyID t"
    and ts': "ts' = update_rows (\<lambda>t. rt_ID t = oldID \<and> live t) g (ts @ [new_row now nxt])"
  shows "length (live_in_family f ts') \<le> 1" and "live_in_family f ts = [] \<Longrightarrow> live_in_family f ts' = []"
proof -
  let ?new = "new_row now nxt"
  have l: "live_in_family f ts' = filter (\<lambda>t. \<not> (rt_ID t = oldID \<and> live t)) (live_in_family f (ts @ [?new]))"
    unfolding ts' by (rule live_after_revoking) (use g in auto)
  have "length (live_in_family f ts') \<le> 1 \<and> (live_in_family f ts = [] \<longrightarrow> live_in_family f ts' = [])"
  proof (cases "rt_FamilyID nxt = f")
    case False
    then have "live_in_family f [?new] = []" by (simp add: live_in_family_def)
    then have "length (live_in_family f ts') \<le> length (live_in_family f ts)"
      unfolding l by (simp add: length_filter_le)
    with one show ?thesis by auto
  next
    case True
    then have new: "live_in_family f [?new] = [?new]" by (simp add: live_in_family_def)
    show ?thesis
    proof (cases "rt_ID nxt = oldID")
      case True
      then have "length (live_in_family f ts') \<le> length (live_in_family f ts)"
        unfolding l by (simp add: new length_filter_le)
      with one show ?thesis by auto
    next
      case False
      then obtain t where t: "t \<in> set ts" "rt_ID t = oldID" "live t" using old by auto
      then have "t \<in> set (live_in_family f ts)"
        using fam True by (simp add: live_in_family_def)
      then have eq: "live_in_family f ts = [t]" using one by (rule length_le_1 [rotated])
      then have "live_in_family f ts' = [?new]"
        unfolding l using t False by (simp add: new)
      with eq show ?thesis by simp
    qed
  qed
  then show "length (live_in_family f ts') \<le> 1" and "live_in_family f ts = [] \<Longrightarrow> live_in_family f ts' = []"
    by auto
qed

text \<open>
  One step keeps the invariant, and it leaves a family that was started and has no live
  token without one.
\<close>

lemma token_step_inv:
  assumes "token_step s s'" and "token_inv s"
  shows "token_inv s' \<and> fst s \<subseteq> fst s' \<and>
    (\<forall>f\<in>fst s. live_in_family f (db_refresh_tokens (snd s)) = [] \<longrightarrow>
       live_in_family f (db_refresh_tokens (snd s')) = [])"
  using assms(1)
proof cases
  case (create t F w r w')
  have inv: "\<forall>x\<in>set (db_refresh_tokens w). rt_FamilyID x \<in> F"
    "\<forall>f. length (live_in_family f (db_refresh_tokens w)) \<le> 1"
    using assms(2) create by (auto simp: token_inv_def)
  have none: "live_in_family (rt_FamilyID t) (db_refresh_tokens w) = []"
    using inv(1) create(3) by (auto simp: live_in_family_def filter_empty_conv)
  from Create_tokens [OF create(4)] show ?thesis
  proof
    assume "db_refresh_tokens w' = db_refresh_tokens w"
    then show ?thesis using inv create by (auto simp: token_inv_def)
  next
    assume "\<exists>now. db_refresh_tokens w' = db_refresh_tokens w @ [new_row now t]"
    then obtain now where w': "db_refresh_tokens w' = db_refresh_tokens w @ [new_row now t]" by blast
    have "live_in_family f (db_refresh_tokens w') =
        (if f = rt_FamilyID t then [new_row now t] else live_in_family f (db_refresh_tokens w))" for f
      using none by (auto simp: w' live_in_family_def)
    moreover have "\<forall>x\<in>set (db_refresh_tokens w'). rt_FamilyID x \<in> insert (rt_FamilyID t) F"
      using inv(1) by (simp add: w')
    ultimately show ?thesis using inv(2) create by (auto simp: token_inv_def)
  qed
next
  case (rotate w oldID nxt F r w')
  have inv: "\<forall>x\<in>set (db_refresh_tokens w). rt_FamilyID x \<in> F"
    "\<forall>f. length (live_in_family f (db_refresh_tokens w)) \<le> 1"
    using assms(2) rotate by (auto simp: token_inv_def)
  from Rotate_tokens [OF rotate(5)] show ?thesis
  proof (elim disjE exE conjE)
    assume "db_refresh_tokens w' = db_refresh_tokens w"
    then show ?thesis using inv rotate by (auto simp: token_inv_def)
  next
    fix now g
    assume g: "\<forall>t. rt_RevokedAt (g t) \<noteq> None \<and> rt_FamilyID (g t) = rt_FamilyID t"
      and w': "db_refresh_tokens w' = update_rows (\<lambda>t. rt_ID t = oldID \<and> live t) g
         (db_refresh_tokens w @ [new_row now nxt])"
      and old: "\<exists>t\<in>set (db_refresh_tokens w @ [new_row now nxt]). rt_ID t = oldID \<and> live t"
    have img: "rt_FamilyID ` set (db_refresh_tokens w') =
        rt_FamilyID ` set (db_refresh_tokens w @ [new_row now nxt])"
      unfolding w' by (rule families_update_rows) (use g in simp)
    have "rt_FamilyID x \<in> F" if "x \<in> set (db_refresh_tokens w')" for x
    proof -
      have "rt_FamilyID x \<in> rt_FamilyID ` set (db_refresh_tokens w @ [new_row now nxt])"
        using that img by blast
      then show ?thesis using inv(1) rotate(4) by auto
    qed
    with rotate_live [OF inv(2) [rule_format] rotate(3) old g w'] show ?thesis
      using rotate by (simp add: token_inv_def)
  qed
next
  case (revoke f w n w' F)
  from RevokeFamily_tokens [OF revoke(3)] show ?thesis
  proof
    assume "db_refresh_tokens w' = db_refresh_tokens w"
    then show ?thesis using assms(2) revoke by (auto simp: token_inv_def)
  next
    assume w': "db_refresh_tokens w' = update_rows (\<lambda>t. rt_FamilyID t = f \<and> live t)
      (\<lambda>t. t\<lparr>rt_RevokedAt := Some (db_now w)\<rparr>) (db_refresh_tokens w)"
    show ?thesis
      using token_shrink_revoking [OF _ w', of F] assms(2) revoke by simp
  qed
next
  case (attach i sub name verified w u w' F)
  from AttachGoogle_tokens [OF attach(3)] show ?thesis
  proof
    assume "db_refresh_tokens w' = db_refresh_tokens w"
    then show ?thesis using assms(2) attach by (auto simp: token_inv_def)
  next
    assume "\<exists>now. db_refresh_tokens w' = update_rows (\<lambda>t. rt_UserID t = i \<and> live t)
       (\<lambda>t. t\<lparr>rt_RevokedAt := Some now\<rparr>) (db_refresh_tokens w)"
    then obtain now where w': "db_refresh_tokens w' = update_rows (\<lambda>t. rt_UserID t = i \<and> live t)
       (\<lambda>t. t\<lparr>rt_RevokedAt := Some now\<rparr>) (db_refresh_tokens w)" by blast
    show ?thesis
      using token_shrink_revoking [OF _ w', of F] assms(2) attach by simp
  qed
next
  case (expire t w n w' F)
  show ?thesis
    using token_shrink [of F w w'] assms(2) expire live_after_delete [OF expire(3)] by simp
next
  case (other w' w F F')
  then show ?thesis using assms(2) by (auto simp: token_inv_def)
qed

text \<open>The primary key and the unique index on the hash.\<close>

lemma token_step_ids:
  assumes "token_step s s'" and "token_keys (db_refresh_tokens (snd s))"
  shows "token_keys (db_refresh_tokens (snd s'))"
  using assms(1)
proof cases
  case (create t F w r w')
  show ?thesis
  proof (cases r)
    case (Inl e)
    with create have "same_tables w w'"
      by (auto simp: RefreshTokenRepository_Create_def dest: insertRefreshToken_Inl)
    then show ?thesis using assms(2) create by (simp add: same_tables_def)
  next
    case (Inr x)
    with create have "insertRefreshToken t w = (Inr x, w')" by (simp add: RefreshTokenRepository_Create_def)
    then show ?thesis
      by (rule insertRefreshToken_Inr) (use assms(2) create in \<open>auto simp: same_tables_def\<close>)
  qed
next
  case (rotate w oldID nxt F r w')
  show ?thesis
  proof (cases r)
    case (Inl e)
    with rotate show ?thesis using assms(2) by (auto simp: same_tables_def dest: Rotate_Inl)
  next
    case (Inr x)
    note R = Rotate_Inr(2,3) [OF rotate(5) [unfolded Inr]]
    have "token_keys (db_refresh_tokens w')"
      unfolding R(1) using assms(2) rotate(1) R(2) by auto
    with rotate(2) show ?thesis by simp
  qed
next
  case (revoke f w n w' F)
  then show ?thesis using assms(2) RevokeFamily_tokens [OF revoke(3)] by auto
next
  case (attach i sub name verified w u w' F)
  then show ?thesis using assms(2) AttachGoogle_tokens [OF attach(3)] by auto
next
  case (expire t w n w' F)
  then show ?thesis using assms(2) DeleteExpired_ids [OF expire(3)] by auto
qed (use assms(2) in simp)

text \<open>Any number of steps.\<close>

definition token_ok :: "uuid set \<times> 'm db_scheme \<Rightarrow> bool" where
  "token_ok s \<longleftrightarrow> token_inv s \<and> token_keys (db_refresh_tokens (snd s))"

lemma token_steps:
  assumes "token_step\<^sup>*\<^sup>* s s'" and "token_ok s"
  shows "token_ok s' \<and> fst s \<subseteq> fst s' \<and>
    (\<forall>f\<in>fst s. live_in_family f (db_refresh_tokens (snd s)) = [] \<longrightarrow>
       live_in_family f (db_refresh_tokens (snd s')) = [])"
  using assms(1)
proof (induction rule: rtranclp_induct)
  case (step y z)
  then have y: "token_ok y" by blast
  then have "token_inv z \<and> fst y \<subseteq> fst z \<and>
    (\<forall>f\<in>fst y. live_in_family f (db_refresh_tokens (snd y)) = [] \<longrightarrow>
       live_in_family f (db_refresh_tokens (snd z)) = [])"
    using token_step_inv [OF step(2)] by (simp add: token_ok_def)
  moreover have "token_keys (db_refresh_tokens (snd z))"
    using token_step_ids [OF step(2)] y by (simp add: token_ok_def)
  ultimately show ?case using step.IH by (auto simp: token_ok_def)
qed (use assms(2) in simp)

end
