(* ===== verification/AuthWorld.thy ===== *)
theory AuthWorld
  imports AuthService TokenProtocol Examples
begin

text \<open>
  The authentication service as \<open>wireAPI\<close> of \<open>internal/app/deps.go\<close> builds it: its
  repositories are those of the database, its clock, random bytes and UUIDs those of the
  process. Everything it can do to the refresh tokens is a sequence of the steps of
  \<open>TokenProtocol\<close>.
\<close>

section \<open>Wiring\<close>

definition world_rand :: "nat \<Rightarrow> world \<Rightarrow> (string + string) \<times> world" where
  "world_rand n w = (w_random w (w_draws w), w\<lparr>w_draws := Suc (w_draws w)\<rparr>)"

definition world_uuid :: "world \<Rightarrow> uuid \<times> world" where
  "world_uuid w = (w_uuids w (w_uuid_draws w), w\<lparr>w_uuid_draws := Suc (w_uuid_draws w)\<rparr>)"

text \<open>
  \<open>outside\<close> is what other parties compute: bcrypt from a salt, Google's answers at a point
  in time, and the address of Google's consent page.
\<close>

record outside =
  out_bcrypt :: "string \<Rightarrow> string \<Rightarrow> int \<Rightarrow> string + string"
  out_verify :: "string \<Rightarrow> time \<Rightarrow> go_error + GoogleClaims"
  out_exchange :: "string \<Rightarrow> string \<Rightarrow> time \<Rightarrow> go_error + string"
  out_auth_url :: "string \<Rightarrow> string \<Rightarrow> string"

text \<open>
  \<open>su_google\<close> and \<open>su_code_flow\<close> are \<open>cfg.Google.Enabled()\<close> and \<open>CodeFlowEnabled()\<close>;
  \<open>su_decoy\<close> is the hash that \<open>NewAuth\<close> prepares.
\<close>

record auth_setup =
  su_postgres :: postgres
  su_library :: "world library"
  su_outside :: outside
  su_jwt :: Manager
  su_cost :: int
  su_ttl :: duration
  su_google :: bool
  su_code_flow :: bool
  su_decoy :: string

definition world_bcrypt :: "outside \<Rightarrow> string \<Rightarrow> int \<Rightarrow> world \<Rightarrow> (string + string) \<times> world" where
  "world_bcrypt out plain cost w =
     (case world_rand 16 w of
        (Inl err, w1) \<Rightarrow> (Inl err, w1)
      | (Inr salt, w1) \<Rightarrow> (out_bcrypt out salt plain cost, w1))"

definition auth_library :: "auth_setup \<Rightarrow> world library" where
  "auth_library x = (su_library x)\<lparr>lib_rand := world_rand, lib_uuid := world_uuid,
     lib_bcrypt_generate := world_bcrypt (su_outside x)\<rparr>"

definition user_repository :: "postgres \<Rightarrow> 'm db_scheme UserRepository" where
  "user_repository pg =
     \<lparr>ur_Create = UserRepository_Create pg, ur_List = UserRepository_List,
      ur_ByID = UserRepository_ByID, ur_ByEmail = UserRepository_ByEmail pg,
      ur_ByGoogleSub = UserRepository_ByGoogleSub, ur_AttachGoogle = UserRepository_AttachGoogle\<rparr>"

definition token_repository :: "'m db_scheme RefreshTokenRepository" where
  "token_repository =
     \<lparr>tr_Create = RefreshTokenRepository_Create, tr_ByHash = RefreshTokenRepository_ByHash,
      tr_Rotate = RefreshTokenRepository_Rotate,
      tr_RevokeFamily = RefreshTokenRepository_RevokeFamily\<rparr>"

definition oauth_repository :: "'m db_scheme GoogleOAuthRepository" where
  "oauth_repository =
     \<lparr>or_CreateState = GoogleOAuthRepository_CreateState, or_TakeState = GoogleOAuthRepository_TakeState,
      or_CreateCode = GoogleOAuthRepository_CreateCode, or_TakeCode = GoogleOAuthRepository_TakeCode\<rparr>"

definition google_verifier :: "outside \<Rightarrow> world GoogleVerifier" where
  "google_verifier out =
     \<lparr>gv_Verify = (\<lambda>idToken w. case world_now w of (t, w1) \<Rightarrow> (out_verify out idToken t, w1))\<rparr>"

definition google_exchanger :: "outside \<Rightarrow> world GoogleExchanger" where
  "google_exchanger out =
     \<lparr>ge_AuthCodeURL = out_auth_url out,
      ge_Exchange = (\<lambda>code verifier w. case world_now w of (t, w1) \<Rightarrow> (out_exchange out code verifier t, w1))\<rparr>"

definition auth_deps :: "auth_setup \<Rightarrow> world AuthDeps" where
  "auth_deps x =
     \<lparr>dp_Users = user_repository (su_postgres x), dp_Tokens = token_repository,
      dp_OAuth = Some oauth_repository, dp_JWT = su_jwt x,
      dp_Google = (if su_code_flow x \<or> su_google x then Some (google_verifier (su_outside x)) else None),
      dp_Exchanger = (if su_code_flow x then Some (google_exchanger (su_outside x)) else None),
      dp_BcryptCost = su_cost x, dp_RefreshTTL = su_ttl x, dp_Now = None\<rparr>"

definition auth_service :: "auth_setup \<Rightarrow> world AuthService" where
  "auth_service x =
     \<lparr>as_users = user_repository (su_postgres x), as_tokens = token_repository,
      as_oauth = Some oauth_repository, as_jwt = su_jwt x,
      as_google = (if su_code_flow x \<or> su_google x then Some (google_verifier (su_outside x)) else None),
      as_exchanger = (if su_code_flow x then Some (google_exchanger (su_outside x)) else None),
      as_bcryptCost = su_cost x, as_refreshTTL = su_ttl x, as_decoyHash = su_decoy x,
      as_now = world_now\<rparr>"

lemma NewAuth_auth_service:
  "NewAuth (auth_library x) world_now (auth_deps x) w = (Inr s, w') \<Longrightarrow>
     s = auth_service (x\<lparr>su_decoy := as_decoyHash s\<rparr>)"
  by (auto simp: NewAuth_def auth_deps_def auth_service_def split: prod.splits sum.splits)

lemma auth_service_sel [simp]:
  "as_users (auth_service x) = user_repository (su_postgres x)"
  "as_tokens (auth_service x) = token_repository"
  "as_oauth (auth_service x) = Some oauth_repository"
  "as_jwt (auth_service x) = su_jwt x"
  "as_bcryptCost (auth_service x) = su_cost x"
  "as_refreshTTL (auth_service x) = su_ttl x"
  "as_decoyHash (auth_service x) = su_decoy x"
  "as_now (auth_service x) = world_now"
  by (simp_all add: auth_service_def)

lemma auth_library_sel [simp]:
  "lib_rand (auth_library x) = world_rand"
  "lib_uuid (auth_library x) = world_uuid"
  "lib_bcrypt_generate (auth_library x) = world_bcrypt (su_outside x)"
  "lib_sha256 (auth_library x) = lib_sha256 (su_library x)"
  "lib_lower (auth_library x) = lib_lower (su_library x)"
  "lib_bcrypt_compare (auth_library x) = lib_bcrypt_compare (su_library x)"
  "lib_parse_addr (auth_library x) = lib_parse_addr (su_library x)"
  "lib_jwt_sign (auth_library x) = lib_jwt_sign (su_library x)"
  "lib_jwt_parse (auth_library x) = lib_jwt_parse (su_library x)"
  "lib_numeric_date (auth_library x) = lib_numeric_date (su_library x)"
  "lib_uuid_string (auth_library x) = lib_uuid_string (su_library x)"
  by (simp_all add: auth_library_def)

lemma repository_sel [simp]:
  "ur_Create (user_repository pg) = UserRepository_Create pg"
  "ur_List (user_repository pg) = UserRepository_List"
  "ur_ByID (user_repository pg) = UserRepository_ByID"
  "ur_ByEmail (user_repository pg) = UserRepository_ByEmail pg"
  "ur_ByGoogleSub (user_repository pg) = UserRepository_ByGoogleSub"
  "ur_AttachGoogle (user_repository pg) = UserRepository_AttachGoogle"
  "tr_Create token_repository = RefreshTokenRepository_Create"
  "tr_ByHash token_repository = RefreshTokenRepository_ByHash"
  "tr_Rotate token_repository = RefreshTokenRepository_Rotate"
  "tr_RevokeFamily token_repository = RefreshTokenRepository_RevokeFamily"
  "or_CreateState oauth_repository = GoogleOAuthRepository_CreateState"
  "or_TakeState oauth_repository = GoogleOAuthRepository_TakeState"
  "or_CreateCode oauth_repository = GoogleOAuthRepository_CreateCode"
  "or_TakeCode oauth_repository = GoogleOAuthRepository_TakeCode"
  by (simp_all add: user_repository_def token_repository_def oauth_repository_def)

section \<open>What an operation leaves alone\<close>

text \<open>
  \<open>quiet\<close>: the tokens stay, and UUIDs are only drawn. \<open>same_sources\<close> is the part of the
  process that no repository touches.
\<close>

definition same_sources :: "world \<Rightarrow> world \<Rightarrow> bool" where
  "same_sources w w' \<longleftrightarrow> w_uuids w' = w_uuids w \<and> w_uuid_draws w' = w_uuid_draws w \<and>
     w_clock w' = w_clock w \<and> w_reads w' = w_reads w"

definition quiet :: "world \<Rightarrow> world \<Rightarrow> bool" where
  "quiet w w' \<longleftrightarrow> db_refresh_tokens w' = db_refresh_tokens w \<and> w_uuids w' = w_uuids w \<and>
     w_uuid_draws w \<le> w_uuid_draws w'"

lemma quiet_refl [simp]: "quiet w w"
  by (simp add: quiet_def)

lemma quiet_trans [trans]: "quiet u v \<Longrightarrow> quiet v w \<Longrightarrow> quiet u w"
  by (simp add: quiet_def)

lemma same_more_sources: "db.more w' = db.more w \<Longrightarrow> same_sources w w'" for w w' :: world
  by (cases w; cases w') (simp add: same_sources_def)

lemma quiet_tables: "same_tables w w' \<Longrightarrow> quiet w w'" for w w' :: world
  using same_more_sources [of w' w] by (simp add: same_tables_def quiet_def same_sources_def)

lemma quiet_more:
  "db_refresh_tokens w' = db_refresh_tokens w \<Longrightarrow> db.more w' = db.more w \<Longrightarrow> quiet w w'" for w w' :: world
  using same_more_sources [of w' w] by (simp add: quiet_def same_sources_def)

lemma quiet_process:
  "world_now w = (t, w') \<Longrightarrow> quiet w w'" "world_rand n w = (b, w') \<Longrightarrow> quiet w w'"
  "world_uuid w = (i, w') \<Longrightarrow> quiet w w'" "world_bcrypt out plain cost w = (h, w') \<Longrightarrow> quiet w w'"
  by (auto simp: quiet_def world_now_def world_rand_def world_uuid_def world_bcrypt_def
      split: prod.splits sum.splits)

text \<open>A user is only ever added; the other tables stay.\<close>

lemma UserCreate_keeps:
  assumes "UserRepository_Create pg u w = (r, w')"
  shows "same_tables (w'\<lparr>db_users := db_users w\<rparr>) w"
proof -
  obtain r1 where s: "send (insert_user pg u) w = (r1, w')"
    using assms by (auto simp: UserRepository_Create_def split: prod.splits sum.splits)
  then show ?thesis
  proof (rule send_cases)
    fix w1
    assume "same_tables w w1" and "insert_user pg u w1 = (r1, w')"
    then show ?thesis
      by (auto simp: insert_user_def Let_def same_tables_def split: if_splits)
  qed (simp add: same_tables_def)
qed

lemma UserReads_same:
  "UserRepository_ByID i w = (r, w') \<Longrightarrow> same_tables w w'"
  "UserRepository_ByEmail pg e w = (r, w') \<Longrightarrow> same_tables w w'"
  "UserRepository_ByGoogleSub sub w = (r, w') \<Longrightarrow> same_tables w w'"
  by (auto simp: UserRepository_ByID_def UserRepository_ByEmail_def UserRepository_ByGoogleSub_def
      split: prod.splits elim!: send_cases)

lemma CreateState_keeps:
  assumes "GoogleOAuthRepository_CreateState s w = (r, w')"
  shows "same_tables (w'\<lparr>db_oauth_states := db_oauth_states w\<rparr>) w"
  using assms by (auto simp: GoogleOAuthRepository_CreateState_def insert_oauth_state_def same_tables_def
      split: prod.splits if_splits elim!: send_cases)

lemma TakeState_keeps:
  assumes "GoogleOAuthRepository_TakeState h now w = (r, w')"
  shows "same_tables (w'\<lparr>db_oauth_states := db_oauth_states w\<rparr>) w"
  using assms by (auto simp: GoogleOAuthRepository_TakeState_def take_state_row_def same_tables_def
      split: prod.splits if_splits elim!: send_cases)

lemma CreateCode_keeps:
  assumes "GoogleOAuthRepository_CreateCode c w = (r, w')"
  shows "same_tables (w'\<lparr>db_oauth_codes := db_oauth_codes w\<rparr>) w"
  using assms by (auto simp: GoogleOAuthRepository_CreateCode_def insert_oauth_code_def same_tables_def
      split: prod.splits if_splits elim!: send_cases)

lemma TakeCode_keeps:
  assumes "GoogleOAuthRepository_TakeCode h now w = (r, w')"
  shows "same_tables (w'\<lparr>db_oauth_codes := db_oauth_codes w\<rparr>) w"
  using assms by (auto simp: GoogleOAuthRepository_TakeCode_def take_code_row_def same_tables_def
      split: prod.splits if_splits elim!: send_cases)

lemma quiet_but:
  fixes w w' :: world
  shows "same_tables (w'\<lparr>db_users := us\<rparr>) w \<Longrightarrow> quiet w w'"
    and "same_tables (w'\<lparr>db_oauth_states := ss\<rparr>) w \<Longrightarrow> quiet w w'"
    and "same_tables (w'\<lparr>db_oauth_codes := cs\<rparr>) w \<Longrightarrow> quiet w w'"
  by (auto intro!: quiet_more simp: same_tables_def)

lemmas quiet_repositories =
  UserCreate_keeps [THEN quiet_but(1)] UserReads_same [THEN quiet_tables] ByHash_same [THEN quiet_tables]
  CreateState_keeps [THEN quiet_but(2)] TakeState_keeps [THEN quiet_but(2)]
  CreateCode_keeps [THEN quiet_but(3)] TakeCode_keeps [THEN quiet_but(3)]

text \<open>The token operations keep the sources of the process.\<close>

lemma TokenCreate_more: "RefreshTokenRepository_Create t w = (r, w') \<Longrightarrow> db.more w' = db.more w"
  by (auto simp: RefreshTokenRepository_Create_def insertRefreshToken_def insert_refresh_token_row_def
      same_tables_def split: prod.splits if_splits elim!: send_cases)

lemma Rotate_more:
  assumes "RefreshTokenRepository_Rotate i nxt w = (r, w')"
  shows "db.more w' = db.more w"
proof (cases r)
  case (Inl e)
  with assms show ?thesis by (auto simp: same_tables_def dest: Rotate_Inl)
next
  case (Inr x)
  show ?thesis using Rotate_Inr(4) [OF assms [unfolded Inr]] by (simp add: same_tables_def)
qed

lemma RevokeFamily_more:
  assumes "RefreshTokenRepository_RevokeFamily f w = (r, w')"
  shows "db.more w' = db.more w"
proof (cases r)
  case (Inl e)
  with assms show ?thesis by (auto simp: same_tables_def dest: RevokeFamily_Inl)
next
  case (Inr x)
  show ?thesis using RevokeFamily_Inr(3) [OF assms [unfolded Inr]] by (simp add: same_tables_def)
qed

lemma send_more:
  assumes "send stmt w = (r, w')" and "\<And>v r v'. stmt v = (r, v') \<Longrightarrow> db.more v' = db.more v"
  shows "db.more w' = db.more w"
  using assms by (auto elim!: send_cases simp: same_tables_def)

lemma AttachGoogle_more:
  assumes "UserRepository_AttachGoogle i sub name ev w = (r, w')"
  shows "db.more w' = db.more w"
proof -
  have body: "db.more v' = db.more v" if b: "AttachGoogle_body i sub name ev v = (r, v')"
    for v v' :: "'a db_scheme" and r
  proof -
    obtain r1 w1 where 1: "send (\<lambda>w. (one_row (map_option user_EmailVerified
        (select_row (\<lambda>r. user_ID r = i) (db_users w))), w)) v = (r1, w1)" by fastforce
    have t1: "db.more w1 = db.more v" using 1 by (rule send_more) auto
    obtain r2 w2 where 2: "send (update_google i sub name ev) w1 = (r2, w2)" by fastforce
    have t2: "db.more w2 = db.more w1"
      using 2 by (rule send_more) (auto simp: update_google_def split: option.splits if_splits)
    obtain r3 w3 where 3: "send (revoke_user_tokens i) w2 = (r3, w3)" by fastforce
    have t3: "db.more w3 = db.more w2"
      using 3 by (rule send_more) (auto simp: revoke_user_tokens_def Let_def)
    have "v' = w1 \<or> v' = w2 \<or> v' = w3"
      using b 1 2 3 by (auto simp: AttachGoogle_body_def split: sum.splits if_splits)
    then show ?thesis using t1 t2 t3 by auto
  qed
  show ?thesis
  proof (cases r)
    case (Inl e)
    with assms show ?thesis
      by (auto simp: UserRepository_AttachGoogle_def same_tables_def dest: in_tx_Inl_same)
  next
    case (Inr u)
    note tx = assms [unfolded Inr UserRepository_AttachGoogle_def]
    obtain w0 w1 where 0: "same_tables w w0"
      and b: "AttachGoogle_body i sub name ev w0 = (Inr u, w1)" and 1: "same_tables w1 w'"
      by (rule in_tx_Inr [OF tx])
    from body [OF b] show ?thesis by (simp add: same_tablesD [OF 0] same_tablesD [OF 1])
  qed
qed

section \<open>What a query returns\<close>

lemma ByID_Inr:
  assumes "UserRepository_ByID i w = (Inr u, w')"
  shows "u \<in> set (db_users w) \<and> user_ID u = i"
proof -
  obtain r where s: "send (\<lambda>w. (one_row (select_row (\<lambda>r. user_ID r = i) (db_users w)), w)) w = (r, w')"
    and r: "r = Inr u"
    using assms by (auto simp: UserRepository_ByID_def scanUser_def split: prod.splits)
  from s r obtain w1 where "same_tables w w1" and "select_row (\<lambda>r. user_ID r = i) (db_users w1) = Some u"
    by (elim send_cases) auto
  then show ?thesis by (auto dest: select_row_Some simp: same_tables_def)
qed

lemma ByEmail_Inr:
  assumes "UserRepository_ByEmail pg e w = (Inr u, w')"
  shows "u \<in> set (db_users w) \<and> pg_lower pg (user_Email u) = pg_lower pg e"
proof -
  obtain r where s: "send (\<lambda>w. (one_row (select_row
      (\<lambda>r. pg_lower pg (user_Email r) = pg_lower pg e) (db_users w)), w)) w = (r, w')" and r: "r = Inr u"
    using assms by (auto simp: UserRepository_ByEmail_def scanUser_def split: prod.splits)
  from s r obtain w1 where "same_tables w w1"
    and "select_row (\<lambda>r. pg_lower pg (user_Email r) = pg_lower pg e) (db_users w1) = Some u"
    by (elim send_cases) auto
  then show ?thesis by (auto dest: select_row_Some simp: same_tables_def)
qed

lemma ByGoogleSub_Inr:
  assumes "UserRepository_ByGoogleSub sub w = (Inr u, w')"
  shows "u \<in> set (db_users w) \<and> user_GoogleSub u = Some sub"
proof -
  obtain r where s: "send (\<lambda>w. (one_row (select_row (\<lambda>r. user_GoogleSub r = Some sub) (db_users w)), w)) w
      = (r, w')" and r: "r = Inr u"
    using assms by (auto simp: UserRepository_ByGoogleSub_def scanUser_def split: prod.splits)
  from s r obtain w1 where "same_tables w w1"
    and "select_row (\<lambda>r. user_GoogleSub r = Some sub) (db_users w1) = Some u"
    by (elim send_cases) auto
  then show ?thesis by (auto dest: select_row_Some simp: same_tables_def)
qed

end
