(* ===== verification/AuthSteps.thy ===== *)
theory AuthSteps
  imports AuthWorld
begin

text \<open>
  Everything the authentication service does to the refresh tokens is a sequence of the
  steps of \<open>TokenProtocol\<close>: the simulation that carries the invariants of the protocol over
  to the service.
\<close>

text \<open>The UUIDs drawn so far play the families that were ever started.\<close>

definition drawn :: "world \<Rightarrow> uuid set" where
  "drawn w = w_uuids w ` {..<w_uuid_draws w}"

abbreviation token_state :: "world \<Rightarrow> uuid set \<times> world" where
  "token_state w \<equiv> (drawn w, w)"

text \<open>
  The assumption about \<open>uuid.New\<close>: the UUIDs drawn up to some state differ. A run of the
  service draws more of them (\<open>grows\<close>) and, as long as they differ, is a sequence of steps
  of the protocol from any state that satisfies its invariant.
\<close>

definition distinct_uuids :: "world \<Rightarrow> bool" where
  "distinct_uuids w \<longleftrightarrow> inj_on (w_uuids w) {..<w_uuid_draws w}"

definition grows :: "world \<Rightarrow> world \<Rightarrow> bool" where
  "grows w w' \<longleftrightarrow> w_uuids w' = w_uuids w \<and> w_uuid_draws w \<le> w_uuid_draws w'"

definition token_run :: "world \<Rightarrow> world \<Rightarrow> bool" where
  "token_run w w' \<longleftrightarrow> grows w w' \<and>
     (distinct_uuids w' \<longrightarrow> token_ok (token_state w) \<longrightarrow> token_step\<^sup>*\<^sup>* (token_state w) (token_state w'))"

lemma drawn_mono: "w_uuids w' = w_uuids w \<Longrightarrow> w_uuid_draws w \<le> w_uuid_draws w' \<Longrightarrow> drawn w \<subseteq> drawn w'"
  by (auto simp: drawn_def)

lemma drawn_more: "db.more w' = db.more w \<Longrightarrow> drawn w' = drawn w"
  using same_more_sources [of w' w] by (simp add: drawn_def same_sources_def)

lemma grows_more: "db.more w' = db.more w \<Longrightarrow> grows w w'" for w w' :: world
  using same_more_sources [of w' w] by (simp add: same_sources_def grows_def)

lemma distinct_uuids_grows: "grows w w' \<Longrightarrow> distinct_uuids w' \<Longrightarrow> distinct_uuids w"
  by (auto simp: grows_def distinct_uuids_def intro: inj_on_subset)

lemma token_run_step:
  "token_step (token_state w) (token_state w') \<Longrightarrow> grows w w' \<Longrightarrow> token_run w w'"
  by (auto simp: token_run_def)

lemma quiet_run [intro]: "quiet w w' \<Longrightarrow> token_run w w'"
  by (rule token_run_step, rule token_step.other) (auto simp: quiet_def grows_def dest: drawn_mono)

lemma run_refl [simp, intro]: "token_run w w"
  by (simp add: token_run_def grows_def)

lemma run_trans [trans]:
  assumes "token_run u v" and "token_run v w"
  shows "token_run u w"
  unfolding token_run_def
proof (intro conjI impI)
  show "grows u w" using assms by (auto simp: token_run_def grows_def)
next
  assume d: "distinct_uuids w" and ok: "token_ok (token_state u)"
  have "distinct_uuids v" using assms(2) d by (auto simp: token_run_def intro: distinct_uuids_grows)
  then have uv: "token_step\<^sup>*\<^sup>* (token_state u) (token_state v)" using assms(1) ok by (simp add: token_run_def)
  then have "token_ok (token_state v)" using ok token_steps by blast
  with assms(2) d uv show "token_step\<^sup>*\<^sup>* (token_state u) (token_state w)"
    by (auto simp: token_run_def intro: rtranclp_trans)
qed

text \<open>Revoking, attaching and rotating are single steps.\<close>

lemma RevokeFamily_run:
  "RefreshTokenRepository_RevokeFamily f w = (r, w') \<Longrightarrow> token_run w w'"
  by (rule token_run_step, subst drawn_more [OF RevokeFamily_more])
    (auto intro: token_step.revoke dest: RevokeFamily_more grows_more)

lemma AttachGoogle_run:
  "UserRepository_AttachGoogle i sub name ev w = (r, w') \<Longrightarrow> token_run w w'"
  by (rule token_run_step, subst drawn_more [OF AttachGoogle_more])
    (auto intro: token_step.attach dest: AttachGoogle_more grows_more)

lemma Rotate_run:
  assumes "RefreshTokenRepository_Rotate (rt_ID stored) nxt w = (r, w')"
    and "stored \<in> set (db_refresh_tokens w)" and "rt_FamilyID nxt = rt_FamilyID stored"
  shows "token_run w w'"
  unfolding token_run_def
proof (intro conjI impI)
  show "grows w w'" using assms(1) by (auto dest: Rotate_more grows_more)
next
  assume ok: "token_ok (token_state w)"
  then have "rt_FamilyID nxt \<in> drawn w"
    and "\<forall>row\<in>set (db_refresh_tokens w). rt_ID row = rt_ID stored \<longrightarrow> rt_FamilyID row = rt_FamilyID nxt"
    using assms(2,3) distinct_key_eq [of rt_ID "db_refresh_tokens w"]
    by (auto simp: token_ok_def token_inv_def token_keys_def)
  then show "token_step\<^sup>*\<^sup>* (token_state w) (token_state w')"
    unfolding drawn_more [OF Rotate_more [OF assms(1)]] using assms(1)
    by (blast intro: token_step.rotate)
qed

text \<open>
  A token of a family drawn after \<open>w0\<close> starts a family. The family and the tokens stay what
  they are until the insertion, whatever else is drawn in between.
\<close>

lemma Create_run:
  assumes "RefreshTokenRepository_Create t w = (r, w')"
    and "distinct_uuids w \<Longrightarrow> rt_FamilyID t \<notin> drawn w0"
    and "rt_FamilyID t \<in> drawn w" and "quiet w0 w"
  shows "token_run w0 w'"
  unfolding token_run_def
proof (intro conjI impI)
  have g: "grows w w'" using TokenCreate_more [OF assms(1)] by (rule grows_more)
  then show "grows w0 w'" using assms(4) by (auto simp: grows_def quiet_def)
  assume "distinct_uuids w'"
  then have fresh: "rt_FamilyID t \<notin> drawn w0" using assms(2) g by (blast intro: distinct_uuids_grows)
  have 1: "token_step (drawn w0, w0) (drawn w0, w)"
    by (rule token_step.other) (use assms(4) in \<open>auto simp: quiet_def\<close>)
  have 2: "token_step (drawn w0, w) (insert (rt_FamilyID t) (drawn w0), w')"
    by (rule token_step.create [OF fresh assms(1)])
  have 3: "token_step (insert (rt_FamilyID t) (drawn w0), w') (drawn w', w')"
    by (rule token_step.other)
      (use assms(3,4) drawn_more [OF TokenCreate_more [OF assms(1)]] in \<open>auto simp: quiet_def dest: drawn_mono\<close>)
  from 1 2 3 show "token_step\<^sup>*\<^sup>* (token_state w0) (token_state w')"
    by (meson converse_rtranclp_into_rtranclp r_into_rtranclp)


qed

section \<open>The operations of the service\<close>

lemma NewRefreshToken_quiet: "NewRefreshToken (auth_library x) w = (r, w') \<Longrightarrow> quiet w w'"
  by (auto simp: NewRefreshToken_def randomToken_def dest: quiet_process split: prod.splits sum.splits)

lemma NewOAuthSecret_quiet: "NewOAuthSecret (auth_library x) w = (r, w') \<Longrightarrow> quiet w w'"
  by (auto simp: NewOAuthSecret_def randomToken_def dest: quiet_process split: prod.splits sum.splits)

lemma HashPassword_quiet: "HashPassword (auth_library x) plain cost w = (r, w') \<Longrightarrow> quiet w w'"
  by (auto simp: HashPassword_def dest: quiet_process split: prod.splits sum.splits if_splits)

lemma newRefreshToken_quiet:
  assumes "newRefreshToken (auth_library x) (auth_service x) u f meta now w = (r, w')"
  shows "quiet w w'"
proof -
  obtain r1 w1 where 1: "NewRefreshToken (auth_library x) w = (r1, w1)" by fastforce
  with assms show ?thesis
    by (auto simp: newRefreshToken_def split: sum.splits prod.splits
        intro: quiet_trans [OF NewRefreshToken_quiet [OF 1]] quiet_process(3)
        dest: NewRefreshToken_quiet)
qed

lemma newRefreshToken_Inr:
  assumes "newRefreshToken (auth_library x) (auth_service x) u f meta now w = (Inr (t, raw), w')"
  shows "rt_FamilyID t = f" and "rt_UserID t = u" and "rt_TokenHash t = HashRefreshToken (auth_library x) raw"
    and "rt_ExpiresAt t = Add now (su_ttl x)"
  using assms by (auto simp: newRefreshToken_def split: sum.splits prod.splits)

lemma issueSession_quiet:
  assumes "issueSession (auth_library x) (auth_service x) user raw now w = (r, w')"
  shows "quiet w w'"
  using assms by (auto simp: issueSession_def Manager_Issue_def Let_def quiet_def world_uuid_def
      split: sum.splits prod.splits)

lemma verify_google_quiet: "verify_google (auth_service x) tok w = (r, w') \<Longrightarrow> quiet w w'"
  by (auto simp: verify_google_def auth_service_def google_verifier_def dest: quiet_process
      split: sum.splits prod.splits option.splits if_splits)

lemma exchange_quiet:
  "as_exchanger (auth_service x) = Some e \<Longrightarrow> ge_Exchange e code v w = (r, w') \<Longrightarrow> quiet w w'"
  by (auto simp: auth_service_def google_exchanger_def dest: quiet_process split: prod.splits if_splits)

lemmas quiet_auth = quiet_process quiet_repositories NewRefreshToken_quiet NewOAuthSecret_quiet
  HashPassword_quiet newRefreshToken_quiet issueSession_quiet verify_google_quiet exchange_quiet

text \<open>Starting a session creates one token, of a family no one has used.\<close>

lemma startSession_run:
  assumes s: "startSession (auth_library x) (auth_service x) user meta w = (r, w')"
  shows "token_run w w'"
proof -
  obtain now w1 where 1: "world_now w = (now, w1)" by fastforce
  obtain f w2 where 2: "world_uuid w1 = (f, w2)" by fastforce
  obtain r3 w3 where 3: "newRefreshToken (auth_library x) (auth_service x) (user_ID user) f meta now w2 = (r3, w3)"
    by fastforce
  have q1: "quiet w w1" and q2: "quiet w1 w2" and q3: "quiet w2 w3"
    using 1 2 3 by (auto intro: quiet_auth)
  have q: "quiet w w3" by (rule quiet_trans [OF quiet_trans [OF q1 q2] q3])

  show ?thesis
  proof (cases r3)
    case (Inl e)
    with s 1 2 3 q show ?thesis by (auto simp: startSession_def)
  next
    case (Inr p)
    obtain t raw where p: "p = (t, raw)" by fastforce
    note t = newRefreshToken_Inr(1) [OF 3 [unfolded Inr p]]
    obtain r4 w4 where 4: "RefreshTokenRepository_Create t w3 = (r4, w4)" by fastforce
    have f: "f = w_uuids w (w_uuid_draws w)" and d: "w_uuid_draws w2 = Suc (w_uuid_draws w)" "w_uuids w2 = w_uuids w"
      using 1 2 by (auto simp: world_now_def world_uuid_def)
    have "f \<notin> drawn w" if "distinct_uuids w3"
    proof -
      have "distinct_uuids w2" using that q3 by (auto simp: quiet_def grows_def intro: distinct_uuids_grows)
      then have "inj_on (w_uuids w) {..<Suc (w_uuid_draws w)}" by (simp add: distinct_uuids_def d)
      then show ?thesis by (auto simp: f drawn_def dest!: inj_onD)

    qed
    moreover have "f \<in> drawn w2" by (auto simp: f d drawn_def)
    ultimately have run: "token_run w w4"
      using Create_run [OF 4, of w] q q3 drawn_mono [of w3 w2] by (auto simp: t quiet_def)
    have "quiet w4 w'"
      using s 1 2 3 Inr p 4 by (auto simp: startSession_def intro: quiet_auth split: sum.splits)
    with run show ?thesis by (blast intro: run_trans)
  qed
qed

text \<open>Refreshing rotates the stored token inside its family, or revokes the family.\<close>

lemma Refresh_run:
  assumes s: "Refresh (auth_library x) (auth_service x) raw meta w = (r, w')"
  shows "token_run w w'"
proof -
  obtain r1 w1 where 1: "RefreshTokenRepository_ByHash (HashRefreshToken (auth_library x) raw) w = (r1, w1)"
    by fastforce
  have q1: "quiet w w1" using 1 by (rule quiet_auth)
  show ?thesis
  proof (cases r1)
    case (Inl e)
    with s 1 q1 show ?thesis by (auto simp: Refresh_def split: if_splits)
  next
    case (Inr stored)
    have stored: "stored \<in> set (db_refresh_tokens w)" using 1 Inr by (auto dest: ByHash_Inr)
    obtain now w2 where 2: "world_now w1 = (now, w2)" by fastforce
    have q2: "quiet w w2" using q1 2 by (blast intro: quiet_trans quiet_auth)
    obtain n w2' where R2: "RefreshTokenRepository_RevokeFamily (rt_FamilyID stored) w2 = (n, w2')" by fastforce
    obtain r3 w3 where 3: "UserRepository_ByID (rt_UserID stored) w2 = (r3, w3)" by fastforce
    have q3: "quiet w w3" using q2 3 by (blast intro: quiet_trans quiet_auth)
    consider (revoked) "Revoked stored" | (expired) "\<not> Revoked stored" "Expired stored now"
      | (nouser) e where "\<not> Revoked stored" "\<not> Expired stored now" "r3 = Inl e"
      | (user) user where "\<not> Revoked stored" "\<not> Expired stored now" "r3 = Inr user"
      by (cases r3) auto
    then show ?thesis
    proof cases
      case revoked
      with s 1 Inr 2 R2 have "w' = w2'" by (auto simp: Refresh_def revokeCompromisedFamily_def)
      with RevokeFamily_run [OF R2] q2 show ?thesis by (blast intro: run_trans)
    next
      case expired
      with s 1 Inr 2 q2 show ?thesis by (auto simp: Refresh_def)
    next
      case nouser
      with s 1 Inr 2 3 q3 show ?thesis by (auto simp: Refresh_def split: if_splits)
    next
      case user
      obtain r4 w4 where 4: "newRefreshToken (auth_library x) (auth_service x) (user_ID user)
          (rt_FamilyID stored) meta now w3 = (r4, w4)" by fastforce
      have q4: "quiet w w4" using q3 4 by (blast intro: quiet_trans quiet_auth)
      show ?thesis
      proof (cases r4)
        case (Inl e)
        with s 1 \<open>r1 = Inr stored\<close> 2 3 user 4 q4 show ?thesis by (auto simp: Refresh_def)
      next
        case r4: (Inr p)
        obtain nxt new where p: "p = (nxt, new)" by fastforce
        note fam = newRefreshToken_Inr(1) [OF 4 [unfolded r4 p]]
        obtain r5 w5 where 5: "RefreshTokenRepository_Rotate (rt_ID stored) nxt w4 = (r5, w5)" by fastforce
        have "token_run w4 w5"
          using stored q4 by (intro Rotate_run [OF 5]) (auto simp: fam quiet_def)

        with q4 have run5: "token_run w w5" by (blast intro: run_trans)
        obtain m w5' where R5: "RefreshTokenRepository_RevokeFamily (rt_FamilyID stored) w5 = (m, w5')" by fastforce
        have "w' = w5 \<or> w' = w5' \<or> quiet w5 w'"
          using s 1 Inr 2 3 user 4 r4 p 5 R5
          by (auto simp: Refresh_def revokeCompromisedFamily_def intro: quiet_auth split: sum.splits if_splits)
        with run5 RevokeFamily_run [OF R5] show ?thesis by (blast intro: run_trans)
      qed
    qed
  qed
qed

lemma Logout_run:
  assumes s: "Logout (auth_library x) (auth_service x) raw w = (r, w')"
  shows "token_run w w'"
proof -
  obtain r1 w1 where 1: "RefreshTokenRepository_ByHash (HashRefreshToken (auth_library x) raw) w = (r1, w1)"
    by fastforce
  then have q1: "quiet w w1" by (rule quiet_auth)
  show ?thesis
  proof (cases r1)
    case (Inl e)
    with s 1 q1 show ?thesis by (auto simp: Logout_def split: if_splits)
  next
    case (Inr stored)
    obtain r2 w2 where 2: "RefreshTokenRepository_RevokeFamily (rt_FamilyID stored) w1 = (r2, w2)" by fastforce
    have "w' = w2" using s 1 Inr 2 by (auto simp: Logout_def split: sum.splits)
    with q1 RevokeFamily_run [OF 2] show ?thesis by (blast intro: run_trans)
  qed
qed

lemma Register_run:
  assumes s: "Register (auth_library x) (auth_service x) email pw meta w = (r, w')"
  shows "token_run w w'"
proof (cases "normalizeEmail (auth_library x) email")
  case (Inl e)
  with s show ?thesis by (simp add: Register_def)
next
  case (Inr normalized)
  obtain r1 w1 where 1: "HashPassword (auth_library x) pw (su_cost x) w = (r1, w1)" by fastforce
  have q1: "quiet w w1" using 1 by (rule quiet_auth)
  show ?thesis
  proof (cases r1)
    case (Inl e)
    with s Inr 1 q1 show ?thesis by (auto simp: Register_def)
  next
    case r1: (Inr hash)
    obtain r2 w2 where 2: "UserRepository_Create (su_postgres x)
        \<lparr>user_ID = 0, user_Email = normalized, user_PasswordHash = Some hash,
         user_Role = RoleUser, user_GoogleSub = None, user_Name = None,
         user_EmailVerified = False, user_CreatedAt = 0, user_UpdatedAt = 0\<rparr> w1 = (r2, w2)" by fastforce
    have "quiet w1 w2" using 2 by (rule quiet_auth)
    with q1 have q2: "quiet w w2" by (rule quiet_trans)
    show ?thesis
    proof (cases r2)
      case (Inl e)
      with s Inr 1 r1 2 q2 show ?thesis by (auto simp: Register_def split: if_splits)
    next
      case r2: (Inr user)
      have "startSession (auth_library x) (auth_service x) user meta w2 = (r, w')"
        using s Inr 1 r1 2 r2 by (simp add: Register_def)
      then have "token_run w2 w'" by (rule startSession_run)
      with q2 show ?thesis by (blast intro: run_trans)
    qed
  qed
qed

lemma Login_run:
  assumes s: "Login (auth_library x) (auth_service x) email pw meta w = (r, w')"
  shows "token_run w w'"
proof (cases "normalizeEmail (auth_library x) email")
  case (Inl e)
  with s show ?thesis by (simp add: Login_def)
next
  case (Inr normalized)
  obtain r1 w1 where 1: "UserRepository_ByEmail (su_postgres x) normalized w = (r1, w1)" by fastforce
  have q1: "quiet w w1" using 1 by (rule quiet_auth)
  consider "w' = w1" | user where "startSession (auth_library x) (auth_service x) user meta w1 = (r, w')"
    using s Inr 1 by (auto simp: Login_def Let_def split: sum.splits if_splits)
  then show ?thesis
  proof cases
    case 1
    with q1 show ?thesis by auto
  next
    case 2
    then have "token_run w1 w'" by (rule startSession_run)
    with q1 show ?thesis by (blast intro: run_trans)
  qed
qed

lemma ExchangeGoogleCode_run:
  assumes s: "ExchangeGoogleCode (auth_library x) (auth_service x) code meta w = (r, w')"
  shows "token_run w w'"
proof -
  obtain now w1 where 1: "world_now w = (now, w1)" by fastforce
  obtain r2 w2 where 2: "GoogleOAuthRepository_TakeCode (HashOAuthSecret (auth_library x) code) now w1 = (r2, w2)"
    by fastforce
  have "quiet w w1" "quiet w1 w2" using 1 2 by (auto intro: quiet_auth)
  then have q2: "quiet w w2" by (rule quiet_trans)
  show ?thesis
  proof (cases r2)
    case (Inl e)
    with s 1 2 q2 show ?thesis by (auto simp: ExchangeGoogleCode_def split: if_splits)
  next
    case (Inr u)
    obtain r3 w3 where 3: "UserRepository_ByID u w2 = (r3, w3)" by fastforce
    have "quiet w2 w3" using 3 by (rule quiet_auth)
    with q2 have q3: "quiet w w3" by (rule quiet_trans)
    consider "w' = w3" | user where "startSession (auth_library x) (auth_service x) user meta w3 = (r, w')"
      using s 1 2 Inr 3 by (auto simp: ExchangeGoogleCode_def split: sum.splits if_splits)
    then show ?thesis
    proof cases
      case 1
      with q3 show ?thesis by auto
    next
      case 2
      then have "token_run w3 w'" by (rule startSession_run)
      with q3 show ?thesis by (blast intro: run_trans)
    qed
  qed
qed

lemma StartGoogleFlow_quiet:
  assumes s: "StartGoogleFlow (auth_library x) (auth_service x) redir w = (r, w')"
  shows "quiet w w'"
proof (cases "as_exchanger (auth_service x)")
  case None
  with s show ?thesis by (simp add: StartGoogleFlow_def)
next
  case (Some e)
  obtain r1 w1 where 1: "NewOAuthSecret (auth_library x) w = (r1, w1)" by fastforce
  obtain r2 w2 where 2: "NewOAuthSecret (auth_library x) w1 = (r2, w2)" by fastforce
  obtain now w3 where 3: "world_now w2 = (now, w3)" by fastforce
  have q1: "quiet w w1" using 1 by (rule quiet_auth)
  have "quiet w1 w2" using 2 by (rule quiet_auth)
  with q1 have q2: "quiet w w2" by (rule quiet_trans)
  have "quiet w2 w3" using 3 by (rule quiet_auth)
  with q2 have q3: "quiet w w3" by (rule quiet_trans)
  have "w' = w1 \<or> w' = w2 \<or> quiet w3 w'"
    using s Some 1 2 3 by (auto simp: StartGoogleFlow_def intro: quiet_auth split: sum.splits prod.splits)
  with q1 q2 q3 show ?thesis by (auto intro: quiet_trans)
qed

text \<open>Resolving the user of a Google identity can link an account, which ends its sessions.\<close>

lemma attachGoogle_run:
  assumes s: "attachGoogle (auth_service x) user claims w = (r, w')"
  shows "token_run w w'"
proof (cases "HasGoogle user")
  case True
  with s show ?thesis by (auto simp: attachGoogle_def split: if_splits)
next
  case False
  obtain r1 w1 where 1: "UserRepository_AttachGoogle (user_ID user) (gl_Subject claims)
      (textPtr (gl_Name claims)) True w = (r1, w1)" by fastforce
  have "w' = w1" using s False 1 by (auto simp: attachGoogle_def split: sum.splits if_splits)
  with AttachGoogle_run [OF 1] show ?thesis by simp
qed

lemma linkOrCreateGoogleUser_run:
  assumes s: "linkOrCreateGoogleUser (auth_library x) (auth_service x) claims w = (r, w')"
  shows "token_run w w'"
proof (cases "normalizeEmail (auth_library x) (gl_Email claims)")
  case (Inl e)
  with s show ?thesis by (simp add: linkOrCreateGoogleUser_def)
next
  case (Inr email)
  obtain r1 w1 where 1: "UserRepository_ByEmail (su_postgres x) email w = (r1, w1)" by fastforce
  have q1: "quiet w w1" using 1 by (rule quiet_auth)
  obtain r2 w2 where 2: "UserRepository_Create (su_postgres x)
      \<lparr>user_ID = 0, user_Email = email, user_PasswordHash = None, user_Role = RoleUser,
       user_GoogleSub = Some (gl_Subject claims), user_Name = textPtr (gl_Name claims),
       user_EmailVerified = True, user_CreatedAt = 0, user_UpdatedAt = 0\<rparr> w1 = (r2, w2)" by fastforce
  have "quiet w1 w2" using 2 by (rule quiet_auth)
  with q1 have q2: "quiet w w2" by (rule quiet_trans)
  obtain r3 w3 where 3: "UserRepository_ByEmail (su_postgres x) email w2 = (r3, w3)" by fastforce
  have "quiet w2 w3" using 3 by (rule quiet_auth)
  with q2 have q3: "quiet w w3" by (rule quiet_trans)
  consider "w' = w1" | "w' = w2" | "w' = w3"
    | user where "attachGoogle (auth_service x) user claims w1 = (r, w')"
    | user where "attachGoogle (auth_service x) user claims w3 = (r, w')"
    using s Inr 1 2 3
    by (auto simp: linkOrCreateGoogleUser_def split: sum.splits if_splits)
  then show ?thesis
    using q1 q2 q3 by cases (blast intro: run_trans attachGoogle_run)+
qed

lemma resolveGoogleUser_run:
  assumes s: "resolveGoogleUser (auth_library x) (auth_service x) claims w = (r, w')"
  shows "token_run w w'"
proof -
  obtain r1 w1 where 1: "UserRepository_ByGoogleSub (gl_Subject claims) w = (r1, w1)" by fastforce
  have q1: "quiet w w1" using 1 by (rule quiet_auth)
  consider "w' = w" | "w' = w1"
    | "linkOrCreateGoogleUser (auth_library x) (auth_service x) claims w1 = (r, w')"
    using s 1 by (auto simp: resolveGoogleUser_def split: sum.splits if_splits)
  then show ?thesis
    using q1 by cases (blast intro: run_trans linkOrCreateGoogleUser_run)+
qed

lemma CompleteGoogleFlow_run:
  assumes s: "CompleteGoogleFlow (auth_library x) (auth_service x) code state w = (r, w')"
  shows "token_run w w'"
proof (cases "as_exchanger (auth_service x) = None \<or> code = '''' \<or> state = ''''")
  case True
  with s show ?thesis by (auto simp: CompleteGoogleFlow_def split: option.splits)
next
  case False
  then obtain e where e: "as_exchanger (auth_service x) = Some e" by auto
  obtain now w1 where 1: "world_now w = (now, w1)" by fastforce
  obtain r2 w2 where 2: "GoogleOAuthRepository_TakeState (HashOAuthSecret (auth_library x) state) now w1 = (r2, w2)"
    by fastforce
  have "quiet w w1" "quiet w1 w2" using 1 2 by (auto intro: quiet_auth)
  then have q2: "quiet w w2" by (rule quiet_trans)
  show ?thesis
  proof (cases r2)
    case (Inl e)
    with s False e 1 2 q2 show ?thesis by (auto simp: CompleteGoogleFlow_def split: if_splits)
  next
    case (Inr stored)
    obtain r3 w3 where 3: "ge_Exchange e code (gs_CodeVerifier stored) w2 = (r3, w3)" by fastforce
    have "quiet w2 w3" using e 3 by (rule quiet_auth)
    with q2 have q3: "quiet w w3" by (rule quiet_trans)
    show ?thesis
    proof (cases r3)
      case (Inl err)
      with s False e 1 2 Inr 3 q3 show ?thesis by (auto simp: CompleteGoogleFlow_def)
    next
      case r3: (Inr tok)
      obtain r4 w4 where 4: "verify_google (auth_service x) tok w3 = (r4, w4)" by fastforce
      have "quiet w3 w4" using 4 by (rule quiet_auth)
      with q3 have q4: "quiet w w4" by (rule quiet_trans)
      show ?thesis
      proof (cases r4)
        case (Inl err)
        with s False e 1 2 Inr 3 r3 4 q4 show ?thesis by (auto simp: CompleteGoogleFlow_def)
      next
        case r4: (Inr claims)
        obtain r5 w5 where 5: "resolveGoogleUser (auth_library x) (auth_service x) claims w4 = (r5, w5)" by fastforce
        have run5: "token_run w w5" using q4 resolveGoogleUser_run [OF 5] by (blast intro: run_trans)
        obtain r6 w6 where 6: "NewOAuthSecret (auth_library x) w5 = (r6, w6)" by fastforce
        have q6: "quiet w5 w6" using 6 by (rule quiet_auth)
        have "w' = w5 \<or> w' = w6 \<or> quiet w6 w'"
          using s False e 1 2 Inr 3 r3 4 r4 5 6
          by (auto simp: CompleteGoogleFlow_def intro: quiet_auth split: sum.splits prod.splits)
        with run5 q6 show ?thesis by (blast intro: run_trans)
      qed
    qed
  qed
qed

section \<open>Reachable states\<close>

text \<open>
  A step of the process as far as accounts are concerned: a call of the service by some
  client, with whatever it answers, or anything else that leaves the users, the refresh
  tokens, the states and the one-time codes alone:
 the rest of the program, time passing, faults of the
  database.

\<close>

inductive auth_step :: "auth_setup \<Rightarrow> world \<Rightarrow> world \<Rightarrow> bool" for x where
  register: "Register (auth_library x) (auth_service x) email pw meta w = (r, w') \<Longrightarrow> auth_step x w w'"
| login: "Login (auth_library x) (auth_service x) email pw meta w = (r, w') \<Longrightarrow> auth_step x w w'"
| refresh: "Refresh (auth_library x) (auth_service x) raw meta w = (r, w') \<Longrightarrow> auth_step x w w'"
| logout: "Logout (auth_library x) (auth_service x) raw w = (u, w') \<Longrightarrow> auth_step x w w'"
| start_google: "StartGoogleFlow (auth_library x) (auth_service x) redir w = (url, w') \<Longrightarrow> auth_step x w w'"
| complete_google: "CompleteGoogleFlow (auth_library x) (auth_service x) code state w = (cb, w') \<Longrightarrow> auth_step x w w'"
| exchange_google: "ExchangeGoogleCode (auth_library x) (auth_service x) code meta w = (r, w') \<Longrightarrow> auth_step x w w'"
| elsewhere: "quiet w w' \<Longrightarrow> db_oauth_states w' = db_oauth_states w \<Longrightarrow>
    db_oauth_codes w' = db_oauth_codes w \<Longrightarrow> db_users w' = db_users w \<Longrightarrow>
    db_users_seq w \<le> db_users_seq w' \<Longrightarrow> auth_step x w w'"

inductive_cases auth_stepE: "auth_step x w w'"

lemma auth_step_run: "auth_step x w w' \<Longrightarrow> token_run w w'"
  by (erule auth_stepE) (blast intro: Register_run Login_run Refresh_run Logout_run
      StartGoogleFlow_quiet CompleteGoogleFlow_run ExchangeGoogleCode_run)+

lemma auth_steps_run: "(auth_step x)\<^sup>*\<^sup>* w w' \<Longrightarrow> token_run w w'"
  by (induction rule: rtranclp_induct) (blast intro: auth_step_run run_trans)+

lemma token_run_ok:
  assumes "token_run w w'" and "distinct_uuids w'" and "token_ok (token_state w)"
  shows "token_ok (token_state w')" and "drawn w \<subseteq> drawn w'" and "distinct_uuids w"
    and "f \<in> drawn w \<Longrightarrow> live_in_family f (db_refresh_tokens w) = [] \<Longrightarrow>
      live_in_family f (db_refresh_tokens w') = []"
  using token_steps [of "token_state w" "token_state w'"] assms distinct_uuids_grows [of w w']
  by (auto simp: token_run_def)

lemma token_ok_empty: "db_refresh_tokens w = [] \<Longrightarrow> token_ok (token_state w)"
  by (simp add: token_ok_def token_inv_def token_keys_def)

end
