(* ===== verification/SessionStore.thy ===== *)
theory SessionStore
  imports AuthSteps
begin

text \<open>
  The interface \<open>RefreshTokenRepository\<close> of the authentication service as a contract: what
  the service relies on when it starts, refreshes and ends a session. The lemmas about
  sessions are proved from the contract and hold for the database by interpretation.
\<close>

section \<open>The contract\<close>

definition rotated :: "time \<Rightarrow> uuid \<Rightarrow> RefreshToken \<Rightarrow> RefreshToken list \<Rightarrow> RefreshToken list" where
  "rotated now oldID nxt ts =
     update_rows (\<lambda>t. rt_ID t = oldID \<and> live t)
       (\<lambda>t. t\<lparr>rt_RevokedAt := Some now, rt_ReplacedBy := Some (rt_ID nxt)\<rparr>) (ts @ [new_row now nxt])"

definition family_revoked :: "time \<Rightarrow> uuid \<Rightarrow> RefreshToken list \<Rightarrow> RefreshToken list" where
  "family_revoked now f ts =
     update_rows (\<lambda>t. rt_FamilyID t = f \<and> live t) (\<lambda>t. t\<lparr>rt_RevokedAt := Some now\<rparr>) ts"

definition fresh_token :: "RefreshToken \<Rightarrow> RefreshToken list \<Rightarrow> bool" where
  "fresh_token t ts \<longleftrightarrow> (\<forall>r\<in>set ts. rt_ID r \<noteq> rt_ID t \<and> rt_TokenHash r \<noteq> rt_TokenHash t)"

locale refresh_token_store =
  fixes repo :: "'w RefreshTokenRepository"
    and tokens :: "'w \<Rightarrow> RefreshToken list"
  assumes by_hash_keeps: "tr_ByHash repo h w = (r, w') \<Longrightarrow> tokens w' = tokens w"
    and by_hash_Inr: "tr_ByHash repo h w = (Inr t, w') \<Longrightarrow> t \<in> set (tokens w) \<and> rt_TokenHash t = h"
    and create_Inr: "tr_Create repo t w = (Inr u, w') \<Longrightarrow>
      (\<exists>now. tokens w' = tokens w @ [new_row now t]) \<and> fresh_token t (tokens w)"
    and create_Inl: "tr_Create repo t w = (Inl e, w') \<Longrightarrow> tokens w' = tokens w"
    and rotate_Inr: "tr_Rotate repo i nxt w = (Inr u, w') \<Longrightarrow>
      (\<exists>now. tokens w' = rotated now i nxt (tokens w)) \<and> fresh_token nxt (tokens w)"
    and rotate_Inl: "tr_Rotate repo i nxt w = (Inl e, w') \<Longrightarrow> tokens w' = tokens w"
    and revoke_Inr: "tr_RevokeFamily repo f w = (Inr n, w') \<Longrightarrow>
      \<exists>now. tokens w' = family_revoked now f (tokens w)"
    and revoke_Inl: "tr_RevokeFamily repo f w = (Inl e, w') \<Longrightarrow> tokens w' = tokens w"

locale session_client = refresh_token_store repo tokens
  for repo :: "'w RefreshTokenRepository" and tokens :: "'w \<Rightarrow> RefreshToken list" +
  fixes users :: "'w \<Rightarrow> User list" and lib :: "'w library" and s :: "'w AuthService"
  assumes tokens_s: "as_tokens s = repo"
    and now_keeps: "as_now s w = (t, w') \<Longrightarrow> tokens w' = tokens w"
    and rand_keeps: "lib_rand lib n w = (b, w') \<Longrightarrow> tokens w' = tokens w"
    and uuid_keeps: "lib_uuid lib w = (i, w') \<Longrightarrow> tokens w' = tokens w"
    and by_id_keeps: "ur_ByID (as_users s) user w = (r2, w') \<Longrightarrow> tokens w' = tokens w"
    and by_id_Inr: "ur_ByID (as_users s) user w = (Inr u, w') \<Longrightarrow> u \<in> set (users w) \<and> user_ID u = user"
    and by_hash_users: "tr_ByHash repo h w = (r, w') \<Longrightarrow> users w' = users w"
    and by_hash_now: "tr_ByHash repo h w = (r, w') \<Longrightarrow> fst (as_now s w') = fst (as_now s w)"
    and now_users: "as_now s w = (t, w') \<Longrightarrow> users w' = users w"

section \<open>Sessions over the contract\<close>

context session_client
begin

lemma revokeCompromisedFamily_tokens:
  "\<exists>now. tokens (revokeCompromisedFamily s t w) \<in> {tokens w, family_revoked now (rt_FamilyID t) (tokens w)}"
proof -
  obtain r w' where 1: "tr_RevokeFamily repo (rt_FamilyID t) w = (r, w')" by fastforce
  then show ?thesis
    by (cases r) (auto simp: revokeCompromisedFamily_def tokens_s dest: revoke_Inr revoke_Inl)
qed

lemma newRefreshToken_keeps:
  assumes "newRefreshToken lib s u f meta now w = (r, w')"
  shows "tokens w' = tokens w"
  using assms
  by (auto simp: newRefreshToken_def NewRefreshToken_def randomToken_def dest!: rand_keeps uuid_keeps
      split: sum.splits prod.splits)

lemma newRefreshToken_row:
  assumes "newRefreshToken lib s u f meta now w = (Inr (t, raw), w')"
  shows "rt_FamilyID t = f \<and> rt_UserID t = u \<and> rt_TokenHash t = HashRefreshToken lib raw \<and>
    rt_ExpiresAt t = Add now (as_refreshTTL s)"
  using assms by (auto simp: newRefreshToken_def split: sum.splits prod.splits)

lemma issueSession_keeps:
  "issueSession lib s user raw now w = (r, w') \<Longrightarrow> tokens w' = tokens w"
  by (auto simp: issueSession_def Manager_Issue_def Let_def dest: uuid_keeps split: sum.splits prod.splits)

lemma issueSession_Inr:
  "issueSession lib s user raw now w = (Inr se, w') \<Longrightarrow> se_User se = user \<and> se_RefreshToken se = raw"
  by (auto simp: issueSession_def split: sum.splits prod.splits)

text \<open>A session starts with one new token, the first of its family.\<close>

lemma startSession_Inr:
  assumes "startSession lib s user meta w = (Inr se, w')"
  obtains t now f w1 w2 where "se_User se = user" and "tokens w' = tokens w @ [new_row now t]"
    and "fresh_token t (tokens w)" and "rt_UserID t = user_ID user"
    and "rt_TokenHash t = HashRefreshToken lib (se_RefreshToken se)"
    and "lib_uuid lib w1 = (rt_FamilyID t, w2)"
    and "rt_ExpiresAt t = Add (fst (as_now s w)) (as_refreshTTL s)"
proof -
  obtain now w1 where 1: "as_now s w = (now, w1)" by fastforce
  obtain f w2 where 2: "lib_uuid lib w1 = (f, w2)" by fastforce
  obtain r3 w3 where 3: "newRefreshToken lib s (user_ID user) f meta now w2 = (r3, w3)" by fastforce
  obtain t raw where r3: "r3 = Inr (t, raw)"
    using assms 1 2 3 by (cases r3) (auto simp: startSession_def)
  obtain r4 w4 where 4: "tr_Create repo t w3 = (r4, w4)" by fastforce
  obtain u where r4: "r4 = Inr u"
    using assms 1 2 3 r3 4 by (cases r4) (auto simp: startSession_def tokens_s)
  have 5: "issueSession lib s user raw now w4 = (Inr se, w')"
    using assms 1 2 3 r3 4 r4 by (simp add: startSession_def tokens_s)
  have w3: "tokens w3 = tokens w"
    using now_keeps [OF 1] uuid_keeps [OF 2] newRefreshToken_keeps [OF 3] by simp
  note row = newRefreshToken_row [OF 3 [unfolded r3]]
  obtain now' where "tokens w4 = tokens w3 @ [new_row now' t]" and fresh: "fresh_token t (tokens w3)"
    using create_Inr [OF 4 [unfolded r4]] by blast
  then have "tokens w' = tokens w @ [new_row now' t]" using issueSession_keeps [OF 5] w3 by simp
  then show thesis
    using that [of now' t w1 w2] issueSession_Inr [OF 5] row fresh w3 1 2 by auto
qed

text \<open>
  A session is refreshed with a live, unexpired token; that token is revoked and points at
  the new one, which continues its family.
\<close>

lemma Refresh_Inr:
  assumes "Refresh lib s raw meta w = (Inr se, w')"
  obtains stored nxt now where "stored \<in> set (tokens w)"
    and "rt_TokenHash stored = HashRefreshToken lib raw"
    and "\<not> Revoked stored" and "\<not> Expired stored (fst (as_now s w))"
    and "tokens w' = rotated now (rt_ID stored) nxt (tokens w)" and "fresh_token nxt (tokens w)"
    and "rt_FamilyID nxt = rt_FamilyID stored" and "rt_UserID nxt = rt_UserID stored"
    and "rt_TokenHash nxt = HashRefreshToken lib (se_RefreshToken se)"
    and "rt_ExpiresAt nxt = Add (fst (as_now s w)) (as_refreshTTL s)"
    and "se_User se \<in> set (users w)" and "user_ID (se_User se) = rt_UserID stored"
proof -
  obtain r1 w1 where 1: "tr_ByHash repo (HashRefreshToken lib raw) w = (r1, w1)" by fastforce
  obtain stored where r1: "r1 = Inr stored"
    using assms 1 by (cases r1) (auto simp: Refresh_def tokens_s split: if_splits)
  obtain now w2 where 2: "as_now s w1 = (now, w2)" by fastforce
  have live: "\<not> Revoked stored" "\<not> Expired stored now"
    using assms 1 r1 2 by (auto simp: Refresh_def tokens_s split: if_splits)
  obtain r3 w3 where 3: "ur_ByID (as_users s) (rt_UserID stored) w2 = (r3, w3)" by fastforce
  obtain user where r3: "r3 = Inr user"
    using assms 1 r1 2 live 3 by (cases r3) (auto simp: Refresh_def tokens_s split: if_splits)
  obtain r4 w4 where 4: "newRefreshToken lib s (user_ID user) (rt_FamilyID stored) meta now w3 = (r4, w4)"
    by fastforce
  obtain nxt new where r4: "r4 = Inr (nxt, new)"
    using assms 1 r1 2 live 3 r3 4 by (cases r4) (auto simp: Refresh_def tokens_s)
  obtain r5 w5 where 5: "tr_Rotate repo (rt_ID stored) nxt w4 = (r5, w5)" by fastforce
  obtain u where r5: "r5 = Inr u"
    using assms 1 r1 2 live 3 r3 4 r4 5 by (cases r5) (auto simp: Refresh_def tokens_s split: if_splits)
  have 6: "issueSession lib s user new now w5 = (Inr se, w')"
    using assms 1 r1 2 live 3 r3 4 r4 5 r5 by (simp add: Refresh_def tokens_s)
  have w4: "tokens w4 = tokens w"
    using by_hash_keeps [OF 1] now_keeps [OF 2] by_id_keeps [OF 3] newRefreshToken_keeps [OF 4] by simp
  note row = newRefreshToken_row [OF 4 [unfolded r4]]
  obtain now' where "tokens w5 = rotated now' (rt_ID stored) nxt (tokens w4)" and "fresh_token nxt (tokens w4)"
    using rotate_Inr [OF 5 [unfolded r5]] by blast
  with issueSession_keeps [OF 6] w4 have "tokens w' = rotated now' (rt_ID stored) nxt (tokens w)"
    and "fresh_token nxt (tokens w)" by simp_all
  moreover have "user \<in> set (users w) \<and> user_ID user = rt_UserID stored"
    using by_id_Inr [OF 3 [unfolded r3]] now_users [OF 2] by_hash_users [OF 1] by simp
  moreover have "now = fst (as_now s w)" using by_hash_now [OF 1] 2 by simp
  ultimately show thesis
    using that [of stored now' nxt] by_hash_Inr [OF 1 [unfolded r1]] live row issueSession_Inr [OF 6] by auto

qed

text \<open>A revoked token never refreshes a session; at most it ends its family.\<close>

lemma Refresh_revoked:
  assumes "tr_ByHash repo (HashRefreshToken lib raw) w = (Inr stored, w1)" and "Revoked stored"
    and "Refresh lib s raw meta w = (r, w')"
  shows "r = Inl Svc_ErrInvalidRefreshToken \<and>
    (\<exists>wr. w' = revokeCompromisedFamily s stored wr \<and> tokens wr = tokens w)"
  using assms by (auto simp: Refresh_def tokens_s split: prod.splits dest!: by_hash_keeps now_keeps)

end

end
