(* ===== verification/AuthExamples.thy ===== *)
theory AuthExamples
  imports AuthSteps
begin

text \<open>
  A concrete setup of the authentication service and a short history: a login, a refresh and
  a second use of the first token. The witnesses of the properties apply them here.
\<close>

definition ex_library :: "world library" where
  "ex_library = \<lparr>lib_lower = map ascii_lower, lib_parse_addr = (\<lambda>_. None), lib_sha256 = (\<lambda>s. CHR ''#'' # s),
     lib_rand = world_rand, lib_uuid = world_uuid, lib_uuid_string = (\<lambda>_. ''u''),
     lib_bcrypt_generate = (\<lambda>plain cost w. (Inr plain, w)), lib_bcrypt_compare = (=),
     lib_numeric_date = (\<lambda>t. Truncate t Second),
     lib_jwt_sign = (\<lambda>secret c. Inr (cl_Subject c)), lib_jwt_parse = (\<lambda>secret issuer now raw. None)\<rparr>"

definition ex_outside :: outside where
  "ex_outside = \<lparr>out_bcrypt = (\<lambda>salt plain cost. Inr plain),
     out_verify = (\<lambda>tok t. Inr \<lparr>gl_Subject = ''g'', gl_Email = ''a@b'', gl_EmailVerified = True, gl_Name = ''A''\<rparr>),
     out_exchange = (\<lambda>code verifier t. Inr ''t''), out_auth_url = (\<lambda>state challenge. state)\<rparr>"

definition ex_setup :: auth_setup where
  "ex_setup = \<lparr>su_postgres = ex_pg, su_library = ex_library, su_outside = ex_outside,
     su_jwt = \<lparr>mg_secret = ''s'', mg_issuer = ''i'', mg_accessTTL = Minute\<rparr>, su_cost = 10,
     su_ttl = Hour, su_google = True, su_code_flow = True, su_decoy = ''d''\<rparr>"

definition ex_meta :: ClientMeta where "ex_meta = \<lparr>cm_UserAgent = '''', cm_IP = ''''\<rparr>"

abbreviation "ex_lib \<equiv> auth_library ex_setup"
abbreviation "ex_auth \<equiv> auth_service ex_setup"

text \<open>The first random token is the bytes of \<open>r\<close> and reads \<open>cg\<close> in base64, the next one is \<open>s\<close>.\<close>

definition ex_start :: world where
  "ex_start = (ex_world [])\<lparr>w_random := (\<lambda>n. if n = 0 then Inr ''r'' else Inr ''s'')\<rparr>"

definition ex_login :: "(go_error + Session) \<times> world" where
  "ex_login = Login ex_lib ex_auth ''a@b'' ''h'' ex_meta ex_start"

definition ex_refresh :: "(go_error + Session) \<times> world" where
  "ex_refresh = Refresh ex_lib ex_auth ''cg'' ex_meta (snd ex_login)"

definition ex_reuse :: "(go_error + Session) \<times> world" where
  "ex_reuse = Refresh ex_lib ex_auth ''cg'' ex_meta (snd ex_refresh)"

definition ex_logout :: "(go_error + unit) \<times> world" where
  "ex_logout = Logout ex_lib ex_auth ''cg'' (snd ex_login)"

definition ex_first :: RefreshToken where
  "ex_first = hd (db_refresh_tokens (snd ex_refresh))"

lemma ex_steps:
  "auth_step ex_setup ex_start (snd ex_login)"
  "auth_step ex_setup (snd ex_login) (snd ex_refresh)"
  "auth_step ex_setup (snd ex_refresh) (snd ex_reuse)"
  "auth_step ex_setup (snd ex_login) (snd ex_logout)"
  unfolding ex_login_def ex_refresh_def ex_reuse_def ex_logout_def
  by (rule auth_step.login [OF surjective_pairing] auth_step.refresh [OF surjective_pairing]
      auth_step.logout [OF surjective_pairing])+

lemma ex_history:
  "(auth_step ex_setup)\<^sup>*\<^sup>* ex_start (snd ex_login)"
  "(auth_step ex_setup)\<^sup>*\<^sup>* ex_start (snd ex_refresh)"
  "(auth_step ex_setup)\<^sup>*\<^sup>* (snd ex_refresh) (snd ex_reuse)"
  "(auth_step ex_setup)\<^sup>*\<^sup>* ex_start (snd ex_reuse)"
  "(auth_step ex_setup)\<^sup>*\<^sup>* ex_start (snd ex_logout)"
  using ex_steps by (meson r_into_rtranclp rtranclp.rtrancl_into_rtrancl)+

lemma ex_start_tokens: "db_refresh_tokens ex_start = []"
  by (simp add: ex_start_def ex_world_def)

lemma of_nat_uuid_inj: "n \<le> 1000 \<Longrightarrow> inj_on (of_nat :: nat \<Rightarrow> uuid) {..<n}"
  by (rule inj_onI) (simp add: word_of_nat_eq_iff take_bit_nat_eq_self)

lemma ex_distinct_uuids:
  assumes "(auth_step ex_setup)\<^sup>*\<^sup>* ex_start w" and "w_uuid_draws w \<le> 1000"
  shows "distinct_uuids w"
proof -
  have "w_uuids w = of_nat"
    using auth_steps_run [OF assms(1)] by (simp add: token_run_def grows_def ex_start_def ex_world_def)
  then show ?thesis using assms(2) by (simp add: distinct_uuids_def of_nat_uuid_inj)
qed

lemma ex_draws:
  "w_uuid_draws (snd ex_reuse) = 5" "w_uuid_draws (snd ex_refresh) = 5" "w_uuid_draws (snd ex_logout) = 3"
  by code_simp+

lemma ex_tokens:
  "map rt_TokenHash (db_refresh_tokens (snd ex_refresh)) = [''#cg'', ''#cw'']"
  "map Revoked (db_refresh_tokens (snd ex_refresh)) = [True, False]"
  "map rt_FamilyID (db_refresh_tokens (snd ex_refresh)) = [0, 0]"
  "map Revoked (db_refresh_tokens (snd ex_reuse)) = [True, True]"
  "map rt_FamilyID (db_refresh_tokens (snd ex_reuse)) = [0, 0]"
  "map Revoked (db_refresh_tokens (snd ex_logout)) = [True]"
  "db_faults (snd ex_refresh) = []"
  by code_simp+

text \<open>
  The Google flow for the same account: the state is \<open>cg\<close>, the one-time code \<open>cw\<close>, both used
  once.
\<close>

definition ex_flow_start :: "(go_error + string) \<times> world" where
  "ex_flow_start = StartGoogleFlow ex_lib ex_auth ''/next'' ex_start"

definition ex_flow_back :: "(go_error + GoogleCallback) \<times> world" where
  "ex_flow_back = CompleteGoogleFlow ex_lib ex_auth ''c'' ''cg'' (snd ex_flow_start)"

definition ex_flow_end :: "(go_error + Session) \<times> world" where
  "ex_flow_end = ExchangeGoogleCode ex_lib ex_auth ''cw'' ex_meta (snd ex_flow_back)"

lemma ex_flow_step: "(auth_step ex_setup)\<^sup>*\<^sup>* ex_start (snd ex_flow_start)"
  unfolding ex_flow_start_def by (rule r_into_rtranclp, rule auth_step.start_google [OF surjective_pairing])

lemma ex_flow_ok: "is_ok (fst ex_flow_back)" "is_ok (fst ex_flow_end)"
  by code_simp+

lemma ex_flow_codes: "map gc_CodeHash (db_oauth_codes (snd ex_flow_back)) = [''#cw'']"
  by code_simp

end
