(* ===== verification/AuthProps.thy ===== *)
theory AuthProps
  imports SessionStore AuthExamples
begin

text \<open>
  The contract of \<open>SessionStore\<close> holds for the database, and the properties of accounts and
  sessions: rotation and reuse of refresh tokens, signing in with a password or with Google,
  one-time codes, access tokens.
\<close>

section \<open>The database keeps the contract\<close>

lemma Rotate_store:
  assumes "RefreshTokenRepository_Rotate i nxt w = (Inr u, w')"
  shows "db_refresh_tokens w' = rotated (db_now w) i nxt (db_refresh_tokens w)"
    and "fresh_token nxt (db_refresh_tokens w)"
  using Rotate_Inr(2,3) [OF assms] by (simp_all add: rotated_def fresh_token_def)

lemma RevokeFamily_store:
  assumes "RefreshTokenRepository_RevokeFamily f w = (Inr n, w')"
  shows "db_refresh_tokens w' = family_revoked (db_now w) f (db_refresh_tokens w)"
  using RevokeFamily_Inr(1) [OF assms] by (simp add: family_revoked_def)

lemma Create_store:
  assumes "RefreshTokenRepository_Create t w = (Inr u, w')"
  shows "db_refresh_tokens w' = db_refresh_tokens w @ [new_row (db_now w) t]"
    and "fresh_token t (db_refresh_tokens w)"
proof -
  obtain w1 where 1: "same_tables w w1"
    and "w' = w1\<lparr>db_refresh_tokens := db_refresh_tokens w1 @ [new_row (db_now w1) t]\<rparr>"
    and "\<forall>r\<in>set (db_refresh_tokens w). rt_ID r \<noteq> rt_ID t \<and> rt_TokenHash r \<noteq> rt_TokenHash t"
    using assms by (auto simp: RefreshTokenRepository_Create_def elim: insertRefreshToken_Inr)
  then show "db_refresh_tokens w' = db_refresh_tokens w @ [new_row (db_now w) t]"
    and "fresh_token t (db_refresh_tokens w)"
    by (auto simp: fresh_token_def same_tables_def)
qed

text \<open>Reading the clock after any number of queries.\<close>

lemma same_tables_clock:
  "same_tables w w' \<Longrightarrow> fst (world_now w') = fst (world_now w)" for w w' :: world
  using same_more_sources [of w' w] by (simp add: same_tables_def same_sources_def world_now_def)

lemma process_tokens:
  "world_now w = (t, w') \<Longrightarrow> db_refresh_tokens w' = db_refresh_tokens w"
  "world_rand n w = (b, w') \<Longrightarrow> db_refresh_tokens w' = db_refresh_tokens w"
  "world_uuid w = (i, w') \<Longrightarrow> db_refresh_tokens w' = db_refresh_tokens w"
  using quiet_process by (auto simp: quiet_def)

interpretation world_sessions: session_client token_repository db_refresh_tokens db_users
  "auth_library x" "auth_service x" for x
proof unfold_locales
  fix h i nxt t u n and w w' :: world and r :: "go_error + RefreshToken" and e :: go_error
    and b :: "string + string" and now user r2 k
  show "tr_ByHash token_repository h w = (r, w') \<Longrightarrow> db_refresh_tokens w' = db_refresh_tokens w"
    by (auto simp: same_tables_def dest: ByHash_same)
  show "tr_ByHash token_repository h w = (Inr t, w') \<Longrightarrow> t \<in> set (db_refresh_tokens w) \<and> rt_TokenHash t = h"
    using ByHash_Inr by auto
  show "tr_Create token_repository t w = (Inr u, w') \<Longrightarrow>
      (\<exists>now. db_refresh_tokens w' = db_refresh_tokens w @ [new_row now t]) \<and>
      fresh_token t (db_refresh_tokens w)"
    using Create_store [of t w u w'] by auto
  show "tr_Create token_repository t w = (Inl e, w') \<Longrightarrow> db_refresh_tokens w' = db_refresh_tokens w"
    by (auto simp: RefreshTokenRepository_Create_def same_tables_def dest: insertRefreshToken_Inl)
  show "tr_Rotate token_repository i nxt w = (Inr u, w') \<Longrightarrow>
      (\<exists>now. db_refresh_tokens w' = rotated now i nxt (db_refresh_tokens w)) \<and>
      fresh_token nxt (db_refresh_tokens w)"
    using Rotate_store [of i nxt w u w'] by auto
  show "tr_Rotate token_repository i nxt w = (Inl e, w') \<Longrightarrow> db_refresh_tokens w' = db_refresh_tokens w"
    by (auto simp: same_tables_def dest: Rotate_Inl)
  show "tr_RevokeFamily token_repository i w = (Inr n, w') \<Longrightarrow>
      \<exists>now. db_refresh_tokens w' = family_revoked now i (db_refresh_tokens w)"
    using RevokeFamily_store [of i w n w'] by auto
  show "tr_RevokeFamily token_repository i w = (Inl e, w') \<Longrightarrow> db_refresh_tokens w' = db_refresh_tokens w"
    by (auto simp: same_tables_def dest: RevokeFamily_Inl)
  show "as_tokens (auth_service x) = token_repository" by simp
  show "as_now (auth_service x) w = (now, w') \<Longrightarrow> db_refresh_tokens w' = db_refresh_tokens w"
    using process_tokens by simp
  show "lib_rand (auth_library x) k w = (b, w') \<Longrightarrow> db_refresh_tokens w' = db_refresh_tokens w"
    using process_tokens by simp
  show "lib_uuid (auth_library x) w = (i, w') \<Longrightarrow> db_refresh_tokens w' = db_refresh_tokens w"
    using process_tokens by simp
  show "ur_ByID (as_users (auth_service x)) user w = (r2, w') \<Longrightarrow> db_refresh_tokens w' = db_refresh_tokens w"
    by (auto simp: same_tables_def dest: UserReads_same)
  show "ur_ByID (as_users (auth_service x)) user w = (Inr us, w') \<Longrightarrow> us \<in> set (db_users w) \<and> user_ID us = user"
    for us by (auto dest: ByID_Inr)
  show "tr_ByHash token_repository h w = (r, w') \<Longrightarrow> db_users w' = db_users w"
    by (auto simp: same_tables_def dest: ByHash_same)
  show "tr_ByHash token_repository h w = (r, w') \<Longrightarrow>
      fst (as_now (auth_service x) w') = fst (as_now (auth_service x) w)"
    by (auto intro: same_tables_clock dest: ByHash_same)
  show "as_now (auth_service x) w = (now, w') \<Longrightarrow> db_users w' = db_users w"
    by (auto simp: world_now_def)
qed

text \<open>A family after it has been revoked, a table after a rotation.\<close>

lemma live_family_revoked [simp]: "live_in_family f (family_revoked now f ts) = []"
  unfolding family_revoked_def live_in_family_def by (rule filter_update_rows_Nil) (simp add: live_def)

lemma other_family_revoked [simp]:
  "filter (\<lambda>u. rt_FamilyID u \<noteq> f) (family_revoked now f ts) = filter (\<lambda>u. rt_FamilyID u \<noteq> f) ts"
  by (induction ts) (auto simp: family_revoked_def update_rows_def)

lemma rotated_fresh:

  assumes "fresh_token nxt ts" and "stored \<in> set ts"
  shows "rotated now (rt_ID stored) nxt ts =
    update_rows (\<lambda>t. rt_ID t = rt_ID stored \<and> live t)
      (\<lambda>t. t\<lparr>rt_RevokedAt := Some now, rt_ReplacedBy := Some (rt_ID nxt)\<rparr>) ts @ [new_row now nxt]"
  using assms by (auto simp: rotated_def update_rows_def fresh_token_def)

lemma dead_family_iff:
  "live_in_family f ts = [] \<longleftrightarrow> (\<forall>t\<in>set ts. rt_FamilyID t = f \<longrightarrow> Revoked t)"
  by (auto simp: live_in_family_def filter_empty_conv live_def Revoked_def)

section \<open>Refresh tokens\<close>

text \<open>
  C2: Whatever clients do, in whatever order and with whatever tokens, and whatever
  fails on the way: a family of refresh tokens has at most one token that has not been
  revoked, and no two tokens share an id or a hash. Tokens start empty, and \<open>uuid.New\<close> does
  not repeat itself.
\<close>

theorem one_live_token_per_family:
  assumes "(auth_step x)\<^sup>*\<^sup>* w w'" and "db_refresh_tokens w = []" and "distinct_uuids w'"
  shows "length (live_in_family f (db_refresh_tokens w')) \<le> 1 \<and> token_keys (db_refresh_tokens w')"
proof -
  have "token_ok (token_state w')"
    using auth_steps_run [OF assms(1)] assms(3) token_ok_empty [OF assms(2)] by (rule token_run_ok)
  then show ?thesis by (simp add: token_ok_def token_inv_def)
qed

text \<open>From a state that was reached to one that is reached later: dead families stay dead.\<close>

lemma dead_family_run:
  assumes "(auth_step x)\<^sup>*\<^sup>* w w'" and "token_ok (token_state w)" and "distinct_uuids w'"
    and "t \<in> set (db_refresh_tokens w)" and "live_in_family (rt_FamilyID t) (db_refresh_tokens w) = []"
  shows "live_in_family (rt_FamilyID t) (db_refresh_tokens w') = []"
proof -
  have "rt_FamilyID t \<in> drawn w" using assms(2,4) by (auto simp: token_ok_def token_inv_def)
  then show ?thesis using token_run_ok(4) [OF auth_steps_run [OF assms(1)] assms(3,2)] assms(5) by blast
qed

lemma reached_ok:
  assumes "(auth_step x)\<^sup>*\<^sup>* w0 w" and "db_refresh_tokens w0 = []"
    and "(auth_step x)\<^sup>*\<^sup>* w w'" and "distinct_uuids w'"
  shows "token_ok (token_state w)"
proof -
  have "distinct_uuids w"
    using auth_steps_run [OF assms(3)] assms(4) by (auto simp: token_run_def intro: distinct_uuids_grows)
  then show ?thesis using token_run_ok(1) [OF auth_steps_run [OF assms(1)]] token_ok_empty [OF assms(2)] by blast
qed

text \<open>
  C20: A session that has ended stays ended: once a family has only revoked tokens, no
  sequence of steps brings one of its tokens back to life or adds a live one.
\<close>

theorem dead_family_stays_dead:
  assumes "(auth_step x)\<^sup>*\<^sup>* w0 w" and "db_refresh_tokens w0 = []"
    and "(auth_step x)\<^sup>*\<^sup>* w w'" and "distinct_uuids w'"
    and "t \<in> set (db_refresh_tokens w)"
    and "\<forall>row\<in>set (db_refresh_tokens w). rt_FamilyID row = rt_FamilyID t \<longrightarrow> Revoked row"
  shows "\<forall>row\<in>set (db_refresh_tokens w'). rt_FamilyID row = rt_FamilyID t \<longrightarrow> Revoked row"
  using dead_family_run [OF assms(3) reached_ok [OF assms(1-4)] assms(4,5)] assms(6)
  by (simp add: dead_family_iff)

text \<open>
  C19: A successful \<open>Refresh\<close> was given a stored token that is neither revoked nor expired
  at the moment of the call, for an existing user. That token is revoked and names its
  successor, which is the only new row: it continues the family, belongs to the same user,
  carries the hash of the token the client receives and expires after \<open>refreshTTL\<close>. No other
  token changes.
\<close>

theorem refresh_rotates:
  assumes "Refresh (auth_library x) (auth_service x) raw meta w = (Inr se, w')"
    and "token_keys (db_refresh_tokens w)"
  shows "\<exists>stored nxt at. stored \<in> set (db_refresh_tokens w) \<and>
    rt_TokenHash stored = HashRefreshToken (auth_library x) raw \<and>
    \<not> Revoked stored \<and> \<not> Expired stored (fst (world_now w)) \<and>
    se_User se \<in> set (db_users w) \<and> user_ID (se_User se) = rt_UserID stored \<and>
    db_refresh_tokens w' =
      map (\<lambda>t. if t = stored
               then t\<lparr>rt_RevokedAt := Some at, rt_ReplacedBy := Some (rt_ID nxt)\<rparr> else t)
        (db_refresh_tokens w) @ [new_row at nxt] \<and>
    rt_FamilyID nxt = rt_FamilyID stored \<and> rt_UserID nxt = rt_UserID stored \<and>
    rt_TokenHash nxt = HashRefreshToken (auth_library x) (se_RefreshToken se) \<and>
    rt_ExpiresAt nxt = Add (fst (world_now w)) (su_ttl x)"
proof (rule world_sessions.Refresh_Inr [OF assms(1)])
  fix stored nxt at
  assume stored: "stored \<in> set (db_refresh_tokens w)" "\<not> Revoked stored"
    and rot: "db_refresh_tokens w' = rotated at (rt_ID stored) nxt (db_refresh_tokens w)"
    and fresh: "fresh_token nxt (db_refresh_tokens w)"
    and others: "rt_TokenHash stored = HashRefreshToken (auth_library x) raw"
      "\<not> Expired stored (fst (as_now (auth_service x) w))" "rt_FamilyID nxt = rt_FamilyID stored"
      "rt_UserID nxt = rt_UserID stored" "rt_TokenHash nxt = HashRefreshToken (auth_library x) (se_RefreshToken se)"
      "rt_ExpiresAt nxt = Add (fst (as_now (auth_service x) w)) (as_refreshTTL (auth_service x))"
      "se_User se \<in> set (db_users w)" "user_ID (se_User se) = rt_UserID stored"
  have "(rt_ID t = rt_ID stored \<and> live t) = (t = stored)" if "t \<in> set (db_refresh_tokens w)" for t
    using stored that assms(2) distinct_key_eq [of rt_ID "db_refresh_tokens w" t stored]
    by (auto simp: token_keys_def live_def Revoked_def)
  then have "db_refresh_tokens w' =
      map (\<lambda>t. if t = stored then t\<lparr>rt_RevokedAt := Some at, rt_ReplacedBy := Some (rt_ID nxt)\<rparr> else t)
        (db_refresh_tokens w) @ [new_row at nxt]"
    unfolding rot rotated_fresh [OF fresh stored(1)] update_rows_def by (auto simp: map_idI intro!: map_cong)
  with stored others show ?thesis by auto
qed


text \<open>What a query finds when nothing fails.\<close>

lemma ByHash_found:
  assumes "db_faults w = []" and "token_keys (db_refresh_tokens w)" and "t \<in> set (db_refresh_tokens w)"
  shows "RefreshTokenRepository_ByHash (rt_TokenHash t) w = (Inr t, w)"
proof -
  have "select_row (\<lambda>r. rt_TokenHash r = rt_TokenHash t) (db_refresh_tokens w) = Some t"
    using assms(2,3) by (auto simp: token_keys_def intro: select_row_unique)
  then show ?thesis using assms(1) by (simp add: RefreshTokenRepository_ByHash_def)
qed

lemma RevokeFamily_healthy:
  assumes "db_faults w = []"
  shows "RefreshTokenRepository_RevokeFamily f w =
    (Inr (int (length (live_in_family f (db_refresh_tokens w)))),
     w\<lparr>db_refresh_tokens := family_revoked (db_now w) f (db_refresh_tokens w)\<rparr>)"
proof -
  have "RevokeFamily_body f w =
      (Inr (int (length (live_in_family f (db_refresh_tokens w)))),
       w\<lparr>db_refresh_tokens := family_revoked (db_now w) f (db_refresh_tokens w)\<rparr>)"
    using assms by (simp add: RevokeFamily_body_def lockFamily_def revoke_family_rows_def Let_def
        count_rows_def live_in_family_def family_revoked_def live_def)
  then show ?thesis
    using assms by (simp add: RefreshTokenRepository_RevokeFamily_def in_tx_no_faults)
qed

lemma ByHash_NotFound:
  assumes "RefreshTokenRepository_ByHash h w = (Inl e, w')" and "errors_Is e Repo_ErrNotFound"
  shows "\<forall>t\<in>set (db_refresh_tokens w). rt_TokenHash t \<noteq> h"
proof -
  obtain r where s: "send (\<lambda>w. (one_row (select_row (\<lambda>r. rt_TokenHash r = h) (db_refresh_tokens w)), w)) w
      = (r, w')" and r: "scan ''repository: scan refresh token: '' r = Inl e"
    using assms(1) by (auto simp: RefreshTokenRepository_ByHash_def split: prod.splits)
  from s show ?thesis
  proof (rule send_cases)
    fix e' assume "r = Inl (OtherErr e')"
    then show ?thesis using r assms(2) by auto
  next
    fix w1 assume 1: "same_tables w w1"
      and "(one_row (select_row (\<lambda>r. rt_TokenHash r = h) (db_refresh_tokens w1)), w1) = (r, w')"
    then have "select_row (\<lambda>r. rt_TokenHash r = h) (db_refresh_tokens w1) = None"
      using r by (cases "select_row (\<lambda>r. rt_TokenHash r = h) (db_refresh_tokens w1)") auto
    then show ?thesis using 1 by (auto simp: select_row_None same_tables_def)
  qed
qed

text \<open>
  C1:
 Presenting a refresh token that was already used, or revoked, is answered with
  \<open>ErrInvalidRefreshToken\<close>, revokes every token of its family and changes no other token;
  and whatever happens afterwards, no token of that family is ever live again.
\<close>

theorem refresh_reuse_ends_session:
  assumes "(auth_step x)\<^sup>*\<^sup>* w0 w" and "db_refresh_tokens w0 = []"
    and "db_faults w = []" and "t \<in> set (db_refresh_tokens w)" and "Revoked t"
    and "rt_TokenHash t = HashRefreshToken (auth_library x) raw"
    and "Refresh (auth_library x) (auth_service x) raw meta w = (r, w1)"
    and "(auth_step x)\<^sup>*\<^sup>* w1 w2" and "distinct_uuids w2"
  shows "r = Inl Svc_ErrInvalidRefreshToken \<and>
    db_refresh_tokens w1 = map (\<lambda>u. if rt_FamilyID u = rt_FamilyID t \<and> \<not> Revoked u
        then u\<lparr>rt_RevokedAt := Some (db_now w)\<rparr> else u) (db_refresh_tokens w) \<and>
    (\<forall>u\<in>set (db_refresh_tokens w2). rt_FamilyID u = rt_FamilyID t \<longrightarrow> Revoked u)"
proof -
  have step: "(auth_step x)\<^sup>*\<^sup>* w w1" using assms(7) by (blast intro: auth_step.refresh)
  have ok: "token_ok (token_state w)"
    using assms(1,2) rtranclp_trans [OF step assms(8)] assms(9) by (rule reached_ok)
  have ok1: "token_ok (token_state w1)"
    using rtranclp_trans [OF assms(1) step] assms(2) assms(8,9) by (rule reached_ok)
  have "RefreshTokenRepository_ByHash (HashRefreshToken (auth_library x) raw) w = (Inr t, w)"
    using ByHash_found [OF assms(3) _ assms(4)] ok assms(6) by (simp add: token_ok_def)
  then have r: "r = Inl Svc_ErrInvalidRefreshToken"
    and w1: "w1 = revokeCompromisedFamily (auth_service x) t (snd (world_now w))"
    using assms(5,7) by (auto simp: Refresh_def split: prod.splits)
  have tokens: "db_refresh_tokens w1 = family_revoked (db_now w) (rt_FamilyID t) (db_refresh_tokens w)"
    using assms(3) by (simp add: w1 revokeCompromisedFamily_def RevokeFamily_healthy world_now_def)
  have "rt_FamilyID t \<in> rt_FamilyID ` set (db_refresh_tokens w1)"
    unfolding tokens family_revoked_def by (subst families_update_rows) (use assms(4) in auto)
  then obtain t1 where t1: "t1 \<in> set (db_refresh_tokens w1)" "rt_FamilyID t1 = rt_FamilyID t" by auto
  have "live_in_family (rt_FamilyID t) (db_refresh_tokens w2) = []"
    using dead_family_run [OF assms(8) ok1 assms(9) t1(1)] by (simp add: t1(2) tokens)
  with r tokens show ?thesis
    by (simp add: dead_family_iff family_revoked_def update_rows_def live_def Revoked_def)
qed

text \<open>
  C21: \<open>Logout\<close> of a known token revokes what is live in its family and nothing else, and the
  family stays dead afterwards; of an unknown token it succeeds and changes no token.
\<close>

theorem logout_ends_session:
  assumes "(auth_step x)\<^sup>*\<^sup>* w0 w" and "db_refresh_tokens w0 = []"
    and "Logout (auth_library x) (auth_service x) raw w = (Inr (), w1)"
    and "(auth_step x)\<^sup>*\<^sup>* w1 w2" and "distinct_uuids w2"
  shows "(\<forall>t\<in>set (db_refresh_tokens w). rt_TokenHash t \<noteq> HashRefreshToken (auth_library x) raw) \<and>
      db_refresh_tokens w1 = db_refresh_tokens w \<or>
    (\<exists>t\<in>set (db_refresh_tokens w). rt_TokenHash t = HashRefreshToken (auth_library x) raw \<and>
       (\<forall>u\<in>set (db_refresh_tokens w1). rt_FamilyID u = rt_FamilyID t \<longrightarrow> Revoked u) \<and>
       (\<forall>u\<in>set (db_refresh_tokens w2). rt_FamilyID u = rt_FamilyID t \<longrightarrow> Revoked u) \<and>
       filter (\<lambda>u. rt_FamilyID u \<noteq> rt_FamilyID t) (db_refresh_tokens w1) =
       filter (\<lambda>u. rt_FamilyID u \<noteq> rt_FamilyID t) (db_refresh_tokens w))"
proof -
  have step: "(auth_step x)\<^sup>*\<^sup>* w w1" using assms(3) by (blast intro: auth_step.logout)
  have ok1: "token_ok (token_state w1)"
    using rtranclp_trans [OF assms(1) step] assms(2) assms(4,5) by (rule reached_ok)
  obtain ra wa where a: "RefreshTokenRepository_ByHash (HashRefreshToken (auth_library x) raw) w = (ra, wa)"
    by fastforce
  have ta: "db_refresh_tokens wa = db_refresh_tokens w" using ByHash_same [OF a] by (simp add: same_tables_def)
  show ?thesis
  proof (cases ra)
    case (Inl e)
    then have "errors_Is e Repo_ErrNotFound" and "w1 = wa"
      using assms(3) a by (auto simp: Logout_def split: if_splits)
    with ByHash_NotFound [OF a [unfolded Inl]] ta show ?thesis by auto

  next
    case (Inr t)
    then have t: "t \<in> set (db_refresh_tokens w)" "rt_TokenHash t = HashRefreshToken (auth_library x) raw"
      using a by (auto dest: ByHash_Inr)
    obtain n where n: "RefreshTokenRepository_RevokeFamily (rt_FamilyID t) wa = (Inr n, w1)"
      using assms(3) a Inr by (auto simp: Logout_def split: prod.splits sum.splits)
    have tokens: "db_refresh_tokens w1 = family_revoked (db_now wa) (rt_FamilyID t) (db_refresh_tokens w)"
      using RevokeFamily_store [OF n] ta by simp
    have "rt_FamilyID t \<in> rt_FamilyID ` set (db_refresh_tokens w1)"
      unfolding tokens family_revoked_def by (subst families_update_rows) (use t in auto)
    then obtain t1 where t1: "t1 \<in> set (db_refresh_tokens w1)" "rt_FamilyID t1 = rt_FamilyID t" by auto
    have dead: "live_in_family (rt_FamilyID t) (db_refresh_tokens w1) = []" by (simp add: tokens)
    have dead2: "live_in_family (rt_FamilyID t) (db_refresh_tokens w2) = []"
      using dead_family_run [OF assms(4) ok1 assms(5) t1(1)] by (simp add: t1(2) dead)
    have "filter (\<lambda>u. rt_FamilyID u \<noteq> rt_FamilyID t) (db_refresh_tokens w1) =
        filter (\<lambda>u. rt_FamilyID u \<noteq> rt_FamilyID t) (db_refresh_tokens w)"
      by (simp add: tokens)
    with t dead dead2 show ?thesis by (auto simp: dead_family_iff)
  qed
qed

section \<open>Passwords\<close>


text \<open>
  C23: A malformed address, an unknown one and a wrong password are answered with the
  same error, \<open>ErrInvalidCredentials\<close>, and nothing is written: the answer does not tell
  which accounts exist.
\<close>

theorem login_refusals:
  assumes "db_faults w = []"
    and "\<forall>normalized. normalizeEmail (auth_library x) email = Inr normalized \<longrightarrow>
      (\<forall>u\<in>set (db_users w). pg_lower (su_postgres x) (user_Email u) = pg_lower (su_postgres x) normalized \<longrightarrow>
         HasPassword u \<and> \<not> CheckPassword (auth_library x) (the (user_PasswordHash u)) pw)"
  shows "Login (auth_library x) (auth_service x) email pw meta w = (Inl Svc_ErrInvalidCredentials, w)"
proof (cases "normalizeEmail (auth_library x) email")
  case (Inl e)
  then show ?thesis by (simp add: Login_def)
next
  case (Inr normalized)
  let ?sel = "select_row (\<lambda>r. pg_lower (su_postgres x) (user_Email r) = pg_lower (su_postgres x) normalized) (db_users w)"
  show ?thesis
  proof (cases ?sel)
    case None
    with Inr assms(1) show ?thesis
      by (simp add: Login_def UserRepository_ByEmail_def scanUser_def Let_def)
  next
    case (Some u)
    with assms(2) Inr have "HasPassword u \<and> \<not> CheckPassword (auth_library x) (the (user_PasswordHash u)) pw"
      by (auto dest: select_row_Some)
    with Inr Some assms(1) show ?thesis
      by (simp add: Login_def UserRepository_ByEmail_def scanUser_def)
  qed
qed

section \<open>Witnesses\<close>

lemma ex_refresh_token_rows:
  obtains t u where "db_refresh_tokens (snd ex_refresh) = [t, u]" and "Revoked t" and "\<not> Revoked u"
    and "rt_FamilyID t = 0" and "rt_FamilyID u = 0" and "rt_TokenHash t = ''#cg''"
  using ex_tokens(1,2,3) by (auto simp: map_eq_Cons_conv)

lemma ex_hash: "HashRefreshToken ex_lib ''cg'' = ''#cg''"
  by code_simp

theorem one_live_token_per_family_witness:
  "length (live_in_family 0 (db_refresh_tokens (snd ex_refresh))) \<le> 1 \<and>
     token_keys (db_refresh_tokens (snd ex_refresh))"
  by (rule one_live_token_per_family [OF ex_history(2) ex_start_tokens ex_distinct_uuids [OF ex_history(2)]])
    (simp add: ex_draws)

theorem dead_family_stays_dead_witness:
  "\<exists>t. t \<in> set (db_refresh_tokens (snd ex_reuse)) \<and>
     list_all Revoked (filter (\<lambda>u. rt_FamilyID u = rt_FamilyID t) (db_refresh_tokens (snd ex_reuse)))"
proof -
  obtain t u where r: "db_refresh_tokens (snd ex_reuse) = [t, u]" "Revoked t" "Revoked u"
    using ex_tokens(4) by (auto simp: map_eq_Cons_conv)
  have "\<forall>row\<in>set (db_refresh_tokens (snd ex_reuse)). rt_FamilyID row = rt_FamilyID t \<longrightarrow> Revoked row"
    by (rule dead_family_stays_dead [OF ex_history(4) ex_start_tokens rtranclp.rtrancl_refl
          ex_distinct_uuids [OF ex_history(4)]])
      (use r in \<open>auto simp: ex_draws\<close>)
  then have "list_all Revoked (filter (\<lambda>u. rt_FamilyID u = rt_FamilyID t) (db_refresh_tokens (snd ex_reuse)))"
    by (auto simp: list_all_iff)
  moreover have "t \<in> set (db_refresh_tokens (snd ex_reuse))" by (simp add: r(1))
  ultimately show ?thesis by blast
qed

theorem refresh_rotates_witness:
  "\<exists>se stored. fst ex_refresh = Inr se \<and> stored \<in> set (db_refresh_tokens (snd ex_login)) \<and> \<not> Revoked stored"
proof -
  have "is_ok (fst ex_refresh)" and keys: "token_keys (db_refresh_tokens (snd ex_login))" by code_simp+
  then obtain se where se: "fst ex_refresh = Inr se" by (auto simp: is_ok_iff)
  then have "Refresh ex_lib ex_auth ''cg'' ex_meta (snd ex_login) = (Inr se, snd ex_refresh)"
    by (simp add: ex_refresh_def prod_eq_iff)
  from refresh_rotates [OF this keys] se show ?thesis by blast
qed

theorem refresh_reuse_ends_session_witness:
  "fst ex_reuse = Inl Svc_ErrInvalidRefreshToken \<and>
   list_all Revoked (filter (\<lambda>u. rt_FamilyID u = 0) (db_refresh_tokens (snd ex_reuse)))"
proof -
  obtain t u where r: "db_refresh_tokens (snd ex_refresh) = [t, u]" "Revoked t" "rt_FamilyID t = 0"
      "rt_TokenHash t = ''#cg''"
    by (rule ex_refresh_token_rows) auto
  have reuse: "Refresh ex_lib ex_auth ''cg'' ex_meta (snd ex_refresh) = (fst ex_reuse, snd ex_reuse)"
    by (simp add: ex_reuse_def)
  have "distinct_uuids (snd ex_reuse)" by (rule ex_distinct_uuids [OF ex_history(4)]) (simp add: ex_draws)
  note all = refresh_reuse_ends_session [OF ex_history(2) ex_start_tokens ex_tokens(7) _ r(2) _ reuse rtranclp.rtrancl_refl this]
  have "t \<in> set (db_refresh_tokens (snd ex_refresh))" "rt_TokenHash t = HashRefreshToken ex_lib ''cg''"
    by (simp_all only: r(1,4) ex_hash list.set_intros)
  from all [OF this] show ?thesis unfolding r(3) list_all_iff set_filter by blast
qed


theorem logout_ends_session_witness:
  "\<exists>t. t \<in> set (db_refresh_tokens (snd ex_login)) \<and>
     list_all Revoked (filter (\<lambda>u. rt_FamilyID u = rt_FamilyID t) (db_refresh_tokens (snd ex_logout)))"
proof -
  have out: "Logout ex_lib ex_auth ''cg'' (snd ex_login) = (Inr (), snd ex_logout)"
  proof -
    have "is_ok (fst ex_logout)" by code_simp
    then show ?thesis by (auto simp: is_ok_iff ex_logout_def prod_eq_iff)
  qed
  have "distinct_uuids (snd ex_logout)" by (rule ex_distinct_uuids [OF ex_history(5)]) (simp add: ex_draws)
  from logout_ends_session [OF ex_history(1) ex_start_tokens out rtranclp.rtrancl_refl this]
  have "(\<forall>t\<in>set (db_refresh_tokens (snd ex_login)). rt_TokenHash t \<noteq> ''#cg'') \<or> ?thesis"
    unfolding ex_hash list_all_iff set_filter by blast

  moreover have "map
 rt_TokenHash (db_refresh_tokens (snd ex_login)) = [''#cg'']" by code_simp
  ultimately show ?thesis by auto
qed


theorem login_refusals_witness:
  "Login ex_lib ex_auth ''x@y'' ''h'' ex_meta ex_start = (Inl Svc_ErrInvalidCredentials, ex_start)"
proof (rule login_refusals)
  show "db_faults ex_start = []" by (simp add: ex_start_def ex_world_def)
  have "normalizeEmail ex_lib ''x@y'' = Inr ''x@y''" by code_simp
  moreover have "pg_lower ex_pg ''a@b'' \<noteq> pg_lower ex_pg ''x@y''" by code_simp
  ultimately show "\<forall>normalized. normalizeEmail ex_lib ''x@y'' = Inr normalized \<longrightarrow>
      (\<forall>u\<in>set (db_users ex_start). pg_lower (su_postgres ex_setup) (user_Email u) =
         pg_lower (su_postgres ex_setup) normalized \<longrightarrow>
         HasPassword u \<and> \<not> CheckPassword ex_lib (the (user_PasswordHash u)) ''h'')"
    by (simp add: ex_start_def ex_world_def ex_user_def ex_setup_def)
qed

end
