(* ===== verification/AuthLogic.thy ===== *)
theory AuthLogic
  imports AuthSteps
begin

text \<open>
  Invariants of the whole authentication service from facts about single statements. A
  relation \<open>R\<close> between states that is reflexive, transitive and holds across every statement
  and every reading of the clock or of random bytes holds across every operation: the rules
  follow the shape of the operations, a sequence of calls with a case distinction on each
  result.
\<close>

locale state_relation =
  fixes R :: "'w \<Rightarrow> 'w \<Rightarrow> bool"
  assumes R_refl: "R w w"
    and R_trans: "R u v \<Longrightarrow> R v w \<Longrightarrow> R u w"

definition keeping :: "('w \<Rightarrow> 'w \<Rightarrow> bool) \<Rightarrow> ('w \<Rightarrow> 'a \<times> 'w) \<Rightarrow> bool" where
  "keeping R op \<longleftrightarrow> (\<forall>w. R w (snd (op w)))"

lemma keepingD: "keeping R op \<Longrightarrow> op w = (r, w') \<Longrightarrow> R w w'"
  unfolding keeping_def by (metis snd_conv)

lemma keepingI: "(\<And>w r w'. op w = (r, w') \<Longrightarrow> R w w') \<Longrightarrow> keeping R op"
  unfolding keeping_def by (metis prod.collapse)

context state_relation
begin

lemma keeping_return: "keeping R (\<lambda>w. (r, w))"
  by (simp add: keeping_def R_refl)

lemma keeping_seq:
  assumes "keeping R m" and "\<And>r. keeping R (f r)"
  shows "keeping R (\<lambda>w. case m w of (r, w1) \<Rightarrow> f r w1)"
  using assms R_trans by (auto simp: keeping_def split: prod.splits) (metis snd_conv)

lemma keeping_sum:
  "(\<And>e. keeping R (l e)) \<Longrightarrow> (\<And>a. keeping R (k a)) \<Longrightarrow>
     keeping R (\<lambda>w. case r of Inl e \<Rightarrow> l e w | Inr a \<Rightarrow> k a w)"
  by (cases r) auto

lemma keeping_option:
  "keeping R n \<Longrightarrow> (\<And>a. keeping R (k a)) \<Longrightarrow> keeping R (\<lambda>w. case r of None \<Rightarrow> n w | Some a \<Rightarrow> k a w)"
  by (cases r) auto

lemma keeping_pair: "(\<And>a b. keeping R (k a b)) \<Longrightarrow> keeping R (\<lambda>w. case p of (a, b) \<Rightarrow> k a b w)"
  by (cases p) auto

lemma keeping_if: "keeping R f \<Longrightarrow> keeping R g \<Longrightarrow> keeping R (\<lambda>w. if b then f w else g w)"
  by (cases b) auto

text \<open>A statement after which the state is all that matters.\<close>

lemma keeping_after: "keeping R m \<Longrightarrow> keeping R (\<lambda>w. (r, snd (m w)))"
  by (simp add: keeping_def)

lemmas keeping_rules = keeping_return keeping_seq keeping_sum keeping_option keeping_pair keeping_if

end

text \<open>
  Over the database: \<open>R\<close> also holds across a fault and survives a rollback. Then it holds
  across a round trip and a transaction if it holds across their statements.
\<close>

locale table_relation = state_relation R
  for R :: "'m db_scheme \<Rightarrow> 'm db_scheme \<Rightarrow> bool" +
  assumes R_faults: "R w (w\<lparr>db_faults := fs\<rparr>)"
    and R_rollback: "R w w1 \<Longrightarrow> R w (rollback w w1)"

context table_relation
begin

lemma R_round_trip: "round_trip w = (f, w') \<Longrightarrow> R w w'"
  by (auto simp: round_trip_def R_refl R_faults split: list.splits)

lemma keeping_send: "keeping R stmt \<Longrightarrow> keeping R (send stmt)"
  unfolding keeping_def send_def
  by (auto split: prod.splits option.splits intro: R_round_trip R_trans [OF R_round_trip])

lemma keeping_tx:
  assumes "keeping R body"
  shows "keeping R (in_tx b c body)"
proof (rule keepingI)
  fix w r w'
  assume tx: "in_tx b c body w = (r, w')"
  obtain f w0 where 0: "round_trip w = (f, w0)" by fastforce
  obtain r1 w1 where 1: "body w0 = (r1, w1)" by fastforce
  obtain f2 w2 where 2: "round_trip w1 = (f2, w2)" by fastforce
  have R0: "R w w0" and R1: "R w0 w1" and R2: "R w1 w2"
    using R_round_trip [OF 0] keepingD [OF assms 1] R_round_trip [OF 2] .
  have "w' = w0 \<or> w' = rollback w0 w1 \<or> w' = rollback w0 w2 \<or> w' = w2"
    using tx 0 1 2 by (cases f; cases r1; cases f2) (auto simp: in_tx_def)
  with R0 R1 R2 show "R w w'" by (blast intro: R_trans R_rollback)
qed

end

locale service_relation = state_relation R for R :: "world \<Rightarrow> world \<Rightarrow> bool" +
  fixes x :: auth_setup
  assumes R_read: "same_tables w w' \<Longrightarrow> db_users_seq w' = db_users_seq w \<Longrightarrow> R w w'"
    and R_now: "world_now w = (t, w') \<Longrightarrow> R w w'"
    and R_rand: "world_rand n w = (b, w') \<Longrightarrow> R w w'"
    and R_uuid: "world_uuid w = (i, w') \<Longrightarrow> R w w'"
    and R_user: "user_Role usr = RoleUser \<Longrightarrow> UserRepository_Create (su_postgres x) usr w = (r1, w') \<Longrightarrow> R w w'"
    and R_attach: "UserRepository_AttachGoogle uid sub name ev w = (r1, w') \<Longrightarrow> R w w'"
    and R_create: "RefreshTokenRepository_Create tok w = (r2, w') \<Longrightarrow> R w w'"
    and R_rotate: "RefreshTokenRepository_Rotate i tok w = (r2, w') \<Longrightarrow> R w w'"
    and R_revoke: "RefreshTokenRepository_RevokeFamily i w = (r3, w') \<Longrightarrow> R w w'"
    and R_create_state: "gs_RedirectTo st = textPtr (safeRedirect p) \<Longrightarrow>
      GoogleOAuthRepository_CreateState st w = (r2, w') \<Longrightarrow> R w w'"
    and R_take_state: "GoogleOAuthRepository_TakeState h now w = (r4, w') \<Longrightarrow> R w w'"
    and R_create_code: "GoogleOAuthRepository_CreateCode c w = (r2, w') \<Longrightarrow> R w w'"
    and R_take_code: "GoogleOAuthRepository_TakeCode h now w = (r3, w') \<Longrightarrow> R w w'"

text \<open>A query that only reads leaves the sequence of the user ids alone.\<close>

lemma read_seq:
  assumes "send (\<lambda>w. (f w, w)) w = (r, w')"
  shows "db_users_seq w' = db_users_seq w"
  using assms by (auto simp: send_def round_trip_def split: prod.splits option.splits list.splits)

lemma UserReads_seq:
  "UserRepository_ByID i w = (r, w') \<Longrightarrow> db_users_seq w' = db_users_seq w"
  "UserRepository_ByEmail pg e w = (r, w') \<Longrightarrow> db_users_seq w' = db_users_seq w"
  "UserRepository_ByGoogleSub sub w = (r, w') \<Longrightarrow> db_users_seq w' = db_users_seq w"
  by (auto simp: UserRepository_ByID_def UserRepository_ByEmail_def UserRepository_ByGoogleSub_def
      split: prod.splits dest: read_seq)

lemma ByHash_seq: "RefreshTokenRepository_ByHash h w = (r, w') \<Longrightarrow> db_users_seq w' = db_users_seq w"
  by (auto simp: RefreshTokenRepository_ByHash_def split: prod.splits dest: read_seq)

lemma auth_exchanger_cases:
  obtains "as_exchanger (auth_service x) = None"
  | "as_exchanger (auth_service x) = Some (google_exchanger (su_outside x))"
  by (cases "su_code_flow x") (auto simp: auth_service_def)


context service_relation
begin

lemma keeping_process:
  "keeping R world_now" "keeping R (world_rand n)" "keeping R world_uuid"
  by (rule keepingI, erule R_now R_rand R_uuid)+

lemma keeping_bcrypt: "keeping R (world_bcrypt out plain cost)"
  unfolding world_bcrypt_def [abs_def] by (intro keeping_rules keeping_process)

lemma keeping_users:
  "user_Role u = RoleUser \<Longrightarrow> keeping R (UserRepository_Create (su_postgres x) u)"
  "keeping R (UserRepository_ByID uid)" "keeping R (UserRepository_ByEmail pg e)"
  "keeping R (UserRepository_ByGoogleSub sub)" "keeping R (UserRepository_AttachGoogle uid sub name ev)"
  by (rule keepingI, blast intro: R_user R_attach R_read UserReads_same UserReads_seq)+

lemma keeping_tokens:
  "keeping R (RefreshTokenRepository_Create t)" "keeping R (RefreshTokenRepository_ByHash h)"
  "keeping R (RefreshTokenRepository_Rotate i t)" "keeping R (RefreshTokenRepository_RevokeFamily i)"
  by (rule keepingI, blast intro: R_create R_rotate R_revoke R_read ByHash_same ByHash_seq)+

lemma keeping_oauth:
  "gs_RedirectTo s = textPtr (safeRedirect p) \<Longrightarrow> keeping R (GoogleOAuthRepository_CreateState s)"
  "keeping R (GoogleOAuthRepository_TakeState h now)"
  "keeping R (GoogleOAuthRepository_CreateCode c)" "keeping R (GoogleOAuthRepository_TakeCode h now)"
  by (rule keepingI, blast intro: R_create_state R_take_state R_create_code R_take_code)+

lemmas keeping_statements = keeping_process keeping_bcrypt keeping_users keeping_tokens keeping_oauth

lemma keeping_random:
  "keeping R (NewRefreshToken (auth_library x))" "keeping R (NewOAuthSecret (auth_library x))"
  "keeping R (HashPassword (auth_library x) plain cost)"
  unfolding NewRefreshToken_def [abs_def] NewOAuthSecret_def [abs_def] randomToken_def [abs_def]
    HashPassword_def [abs_def]
  by (simp_all only: auth_library_sel) (intro keeping_rules keeping_statements)+

lemma keeping_newRefreshToken:
  "keeping R (newRefreshToken (auth_library x) (auth_service x) u f meta now)"
  unfolding newRefreshToken_def [abs_def] auth_library_sel
  by (intro keeping_rules keeping_statements keeping_random)

lemma keeping_issueSession:
  "keeping R (issueSession (auth_library x) (auth_service x) user raw now)"
proof -
  have "keeping R (Manager_Issue (auth_library x) m u role now)" for m u role
    using keeping_process(3)
    by (auto simp: keeping_def Manager_Issue_def Let_def split: prod.splits sum.splits) (metis snd_conv)+
  then show ?thesis
    unfolding issueSession_def [abs_def] by (intro keeping_rules)
qed

lemma keeping_startSession:
  "keeping R (startSession (auth_library x) (auth_service x) user meta)"
  unfolding startSession_def [abs_def] auth_library_sel auth_service_sel repository_sel
  by (intro keeping_rules keeping_statements keeping_newRefreshToken keeping_issueSession)

lemma keeping_Register: "keeping R (Register (auth_library x) (auth_service x) email pw meta)"
  unfolding Register_def [abs_def] auth_service_sel repository_sel
  by (intro keeping_rules keeping_statements keeping_random keeping_startSession) simp

lemma keeping_Login: "keeping R (Login (auth_library x) (auth_service x) email pw meta)"
  unfolding Login_def [abs_def] Let_def auth_service_sel repository_sel
  by (intro keeping_rules keeping_statements keeping_startSession)

lemma keeping_Refresh: "keeping R (Refresh (auth_library x) (auth_service x) raw meta)"
  unfolding Refresh_def [abs_def] revokeCompromisedFamily_def auth_service_sel repository_sel
  by (intro keeping_rules keeping_after keeping_statements keeping_newRefreshToken keeping_issueSession)

lemma keeping_Logout: "keeping R (Logout (auth_library x) (auth_service x) raw)"
  unfolding Logout_def [abs_def] auth_service_sel repository_sel
  by (intro keeping_rules keeping_statements)

lemma keeping_attachGoogle: "keeping R (attachGoogle (auth_service x) user claims)"
  unfolding attachGoogle_def [abs_def] auth_service_sel repository_sel
  by (intro keeping_rules keeping_statements)

lemma keeping_resolveGoogleUser:
  "keeping R (resolveGoogleUser (auth_library x) (auth_service x) claims)"
  unfolding resolveGoogleUser_def [abs_def] linkOrCreateGoogleUser_def [abs_def] auth_service_sel repository_sel
  by (intro keeping_rules keeping_statements keeping_attachGoogle) simp

lemma keeping_google:
  "keeping R (gv_Verify (google_verifier out) tok)" "keeping R (ge_Exchange (google_exchanger out) code v)"
  unfolding google_verifier_def google_exchanger_def GoogleVerifier.simps GoogleExchanger.simps
  by (intro keeping_rules keeping_statements)+

lemma keeping_verify_google: "keeping R (verify_google (auth_service x) tok)"
proof (cases "as_google (auth_service x)")
  case None
  then show ?thesis by (simp add: verify_google_def [abs_def] keeping_return)
next
  case (Some v)
  then have v: "v = google_verifier (su_outside x)" by (auto simp: auth_service_def split: if_splits)
  show ?thesis
    unfolding verify_google_def [abs_def] Some option.case v by (intro keeping_rules keeping_google)
qed

lemma keeping_StartGoogleFlow:
  "keeping R (StartGoogleFlow (auth_library x) (auth_service x) redir)"
proof (rule auth_exchanger_cases)
  assume "as_exchanger (auth_service x) = None"
  then show ?thesis by (simp add: StartGoogleFlow_def [abs_def] keeping_return)
next
  assume e: "as_exchanger (auth_service x) = Some (google_exchanger (su_outside x))"
  show ?thesis
    unfolding StartGoogleFlow_def [abs_def] e auth_service_sel repository_sel option.case prod.case
    by (intro keeping_rules keeping_statements keeping_random) (rule GoogleOAuthState.simps)
qed

lemma keeping_CompleteGoogleFlow:
  "keeping R (CompleteGoogleFlow (auth_library x) (auth_service x) code state)"
proof (rule auth_exchanger_cases)
  assume "as_exchanger (auth_service x) = None"
  then show ?thesis by (simp add: CompleteGoogleFlow_def [abs_def] keeping_return)
next
  assume e: "as_exchanger (auth_service x) = Some (google_exchanger (su_outside x))"
  show ?thesis
    unfolding CompleteGoogleFlow_def [abs_def] e auth_service_sel repository_sel option.case prod.case
    by (intro keeping_rules keeping_statements keeping_random keeping_google keeping_verify_google
        keeping_resolveGoogleUser)
qed

lemma keeping_ExchangeGoogleCode:
  "keeping R (ExchangeGoogleCode (auth_library x) (auth_service x) code meta)"
  unfolding ExchangeGoogleCode_def [abs_def] auth_service_sel repository_sel option.case
  by (intro keeping_rules keeping_statements keeping_startSession)

text \<open>So \<open>R\<close> holds across a step of the service, and across a run if also across the rest of the program.\<close>

lemma auth_step_R:
  assumes "auth_step x w w'"
    and "quiet w w' \<Longrightarrow> db_oauth_states w' = db_oauth_states w \<Longrightarrow> db_oauth_codes w' = db_oauth_codes w \<Longrightarrow>
      db_users w' = db_users w \<Longrightarrow> db_users_seq w \<le> db_users_seq w' \<Longrightarrow> R w w'"
  shows "R w w'"
  using assms
  by (elim auth_stepE) (auto dest: keepingD [OF keeping_Register] keepingD [OF keeping_Login]
      keepingD [OF keeping_Refresh] keepingD [OF keeping_Logout] keepingD [OF keeping_StartGoogleFlow]
      keepingD [OF keeping_CompleteGoogleFlow] keepingD [OF keeping_ExchangeGoogleCode])

lemma auth_steps_R:
  assumes "(auth_step x)\<^sup>*\<^sup>* w w'"
    and "\<And>u v. quiet u v \<Longrightarrow> db_oauth_states v = db_oauth_states u \<Longrightarrow> db_oauth_codes v = db_oauth_codes u \<Longrightarrow>
      db_users v = db_users u \<Longrightarrow> db_users_seq u \<le> db_users_seq v \<Longrightarrow> R u v"

  shows "R w w'"
  using assms(1)
proof (induction rule: rtranclp_induct)
  case (step u v)
  have "R u v" using step(2) assms(2) by (rule auth_step_R)
  with step.IH show ?case by (rule R_trans)
qed (rule R_refl)

end

end
