(* ===== verification/AccountProps.thy ===== *)
theory AccountProps
  imports AuthLogic SessionStore AuthExamples
begin

text \<open>
  The accounts: who can be created, what never changes about them, how a Google identity is
  attached; and the one-time codes. The invariants are instances of \<open>AuthLogic\<close>.
\<close>

section \<open>Statements that are not about accounts\<close>

text \<open>\<open>aside\<close>: the users and the one-time codes stay, ids may have been drawn.\<close>

definition aside :: "'m db_scheme \<Rightarrow> 'm db_scheme \<Rightarrow> bool" where
  "aside w w' \<longleftrightarrow> db_users w' = db_users w \<and> db_oauth_codes w' = db_oauth_codes w \<and>
     db_users_seq w \<le> db_users_seq w'"

interpretation aside: table_relation aside
  by unfold_locales (auto simp: aside_def rollback_def)

lemma aside_statements:
  "keeping aside (insert_refresh_token_row t)" "keeping aside (rotate_row i j)"
  "keeping aside (revoke_family_rows f)" "keeping aside (insert_oauth_state s)"
  "keeping aside (take_state_row h now)" "keeping aside (\<lambda>w. (r, w))"
  by (auto simp: keeping_def aside_def insert_refresh_token_row_def rotate_row_def revoke_family_rows_def
      insert_oauth_state_def take_state_row_def Let_def)

lemmas aside_rules = aside.keeping_rules aside.keeping_send aside.keeping_tx aside_statements

lemma aside_lock: "keeping aside (lockFamily f)"
  unfolding lockFamily_def [abs_def] by (intro aside_rules)

lemma aside_insert: "keeping aside (insertRefreshToken t)"
  unfolding insertRefreshToken_def [abs_def] by (intro aside_rules)

lemma aside_tokens:
  "keeping aside (RefreshTokenRepository_Create t)" "keeping aside (RefreshTokenRepository_Rotate i t)"
  "keeping aside (RefreshTokenRepository_RevokeFamily f)"
  unfolding RefreshTokenRepository_Create_def RefreshTokenRepository_Rotate_def
    RefreshTokenRepository_RevokeFamily_def Rotate_body_def [abs_def] RevokeFamily_body_def [abs_def]
  by (intro aside_rules aside_lock aside_insert)+

lemma aside_states:
  "keeping aside (GoogleOAuthRepository_CreateState s)" "keeping aside (GoogleOAuthRepository_TakeState h now)"
  unfolding GoogleOAuthRepository_CreateState_def [abs_def] GoogleOAuthRepository_TakeState_def [abs_def]
  by (intro aside_rules)+

lemma aside_process:
  "world_now w = (t, w') \<Longrightarrow> aside w w'" "world_rand n w = (b, w') \<Longrightarrow> aside w w'"
  "world_uuid w = (i, w') \<Longrightarrow> aside w w'"
  by (auto simp: world_now_def world_rand_def world_uuid_def aside_def)

lemma aside_read:
  "same_tables w w' \<Longrightarrow> db_users_seq w' = db_users_seq w \<Longrightarrow> aside w w'"
  by (simp add: same_tables_def aside_def)

text \<open>
  So an invariant of users and codes that \<open>aside\<close> respects only has to be shown for the
  statements on these two tables.
\<close>

lemma service_relation_aside:
  assumes refl: "\<And>w. R w w" and trans: "\<And>u v w. R u v \<Longrightarrow> R v w \<Longrightarrow> R u w"
    and aside: "\<And>w w'. aside w w' \<Longrightarrow> R w w'"
    and user: "\<And>usr w r w'. user_Role usr = RoleUser \<Longrightarrow>
      UserRepository_Create (su_postgres x) usr w = (r, w') \<Longrightarrow> R w w'"
    and attach: "\<And>uid sub name ev w r w'. UserRepository_AttachGoogle uid sub name ev w = (r, w') \<Longrightarrow> R w w'"
    and create_code: "\<And>c w r w'. GoogleOAuthRepository_CreateCode c w = (r, w') \<Longrightarrow> R w w'"
    and take_code: "\<And>h now w r w'. GoogleOAuthRepository_TakeCode h now w = (r, w') \<Longrightarrow> R w w'"
  shows "service_relation R x"
  by unfold_locales
    (blast intro: refl trans aside user attach create_code take_code aside_process aside_read
      keepingD [OF aside_tokens(1)] keepingD [OF aside_tokens(2)] keepingD [OF aside_tokens(3)]
      keepingD [OF aside_states(1)] keepingD [OF aside_states(2)])+

section \<open>One-time codes\<close>

definition spent_in :: "string \<Rightarrow> GoogleOAuthCode list \<Rightarrow> bool" where
  "spent_in h cs \<longleftrightarrow> list_ex (\<lambda>c. gc_CodeHash c = h) cs \<and>
     list_all (\<lambda>c. gc_CodeHash c = h \<longrightarrow> gc_UsedAt c \<noteq> None) cs"

abbreviation spent :: "string \<Rightarrow> 'm db_scheme \<Rightarrow> bool" where
  "spent h w \<equiv> spent_in h (db_oauth_codes w)"

lemma spent_in_update:
  assumes "\<And>c. gc_CodeHash (g c) = gc_CodeHash c" and "\<And>c. gc_UsedAt (g c) = Some t" and "spent_in h cs"
  shows "spent_in h (update_rows p g cs)"
proof -
  have "list_ex (\<lambda>c. gc_CodeHash c = h) (update_rows p g cs) = list_ex (\<lambda>c. gc_CodeHash c = h) cs"
    by (induction cs) (auto simp: update_rows_def assms(1))
  moreover have "list_all (\<lambda>c. gc_CodeHash c = h \<longrightarrow> gc_UsedAt c \<noteq> None) cs \<Longrightarrow>
      list_all (\<lambda>c. gc_CodeHash c = h \<longrightarrow> gc_UsedAt c \<noteq> None) (update_rows p g cs)"
    by (induction cs) (auto simp: update_rows_def assms(2))
  ultimately show ?thesis using assms(3) by (simp add: spent_in_def)
qed

lemma spent_in_taken:
  assumes "\<And>d. d \<in> set cs \<Longrightarrow> gc_CodeHash d = h \<longrightarrow> d = c" and "c \<in> set cs" and "takeable_code h now c"
  shows "spent_in h (update_rows (takeable_code h now) (\<lambda>c. c\<lparr>gc_UsedAt := Some t\<rparr>) cs)"
proof -
  let ?g = "\<lambda>d. if takeable_code h now d then d\<lparr>gc_UsedAt := Some t\<rparr> else d"
  have ex: "\<exists>d\<in>set (update_rows (takeable_code h now) (\<lambda>c. c\<lparr>gc_UsedAt := Some t\<rparr>) cs). gc_CodeHash d = h"
    using assms(2,3) by (intro bexI [of _ "?g c"]) (auto simp: update_rows_def takeable_code_def)
  have "gc_CodeHash (?g d) = h \<longrightarrow> gc_UsedAt (?g d) \<noteq> None" if "d \<in> set cs" for d
    using assms(1) [OF that] assms(3) by (cases "d = c") auto
  then show ?thesis
    unfolding spent_in_def list_ex_iff list_all_iff ball_update_rows using ex by blast
qed

lemma spent_in_snoc:

  "spent_in h cs \<Longrightarrow> gc_CodeHash c \<noteq> h \<Longrightarrow> spent_in h (cs @ [c])"
  by (simp add: spent_in_def)

definition spends :: "world \<Rightarrow> world \<Rightarrow> bool" where
  "spends w w' \<longleftrightarrow> (\<forall>h. spent h w \<longrightarrow> spent h w')"

lemma CreateCode_spends:
  assumes "GoogleOAuthRepository_CreateCode c w = (r, w')"
  shows "spends w w'"
  unfolding spends_def
proof (intro allI impI)
  fix h assume h: "spent h w"
  obtain r1 where "send (insert_oauth_code c) w = (r1, w')"
    using assms by (auto simp: GoogleOAuthRepository_CreateCode_def split: prod.splits)
  then show "spent h w'"
  proof (rule send_cases)
    fix w1
    assume "same_tables w w1" and "insert_oauth_code c w1 = (r1, w')"
    then show ?thesis using h
      by (auto simp: insert_oauth_code_def same_tables_def spent_in_def split: if_splits)
  qed (use h in \<open>simp add: same_tables_def\<close>)
qed

lemma TakeCode_spends:
  assumes "GoogleOAuthRepository_TakeCode h now w = (r, w')"
  shows "spends w w'"
  unfolding spends_def
proof (intro allI impI)
  fix h' assume h': "spent h' w"
  obtain r1 where "send (take_code_row h (timestamptz now)) w = (r1, w')"
    using assms by (auto simp: GoogleOAuthRepository_TakeCode_def split: prod.splits)
  then show "spent h' w'"
  proof (rule send_cases)
    fix w1
    assume "same_tables w w1" and "take_code_row h (timestamptz now) w1 = (r1, w')"
    moreover have "spent_in h' (update_rows (takeable_code h (timestamptz now))
        (\<lambda>c. c\<lparr>gc_UsedAt := Some (timestamptz now)\<rparr>) (db_oauth_codes w))"
      by (rule spent_in_update [where t = "timestamptz now"]) (use h' in auto)
    ultimately show ?thesis by (auto simp: take_code_row_def same_tables_def)
  qed (use h' in \<open>simp add: same_tables_def\<close>)
qed

lemma CreateUser_codes:
  "UserRepository_Create pg usr w = (r, w') \<Longrightarrow> db_oauth_codes w' = db_oauth_codes w"
  using UserCreate_keeps [of pg usr w r w'] by (simp add: same_tables_def)

text \<open>Linking a Google account is one transaction; its statements touch two other tables.\<close>

definition same_oauth :: "'m db_scheme \<Rightarrow> 'm db_scheme \<Rightarrow> bool" where
  "same_oauth w w' \<longleftrightarrow> db_oauth_codes w' = db_oauth_codes w \<and> db_oauth_states w' = db_oauth_states w"


interpretation same_oauth: table_relation same_oauth
  by unfold_locales (auto simp: same_oauth_def rollback_def)

lemma AttachGoogle_oauth: "keeping same_oauth (UserRepository_AttachGoogle i sub name ev)"
proof -
  have "keeping same_oauth (update_google i sub name ev)" "keeping same_oauth (revoke_user_tokens i)"
    "keeping same_oauth (\<lambda>w. (one_row (f w), w))" for f :: "'a db_scheme \<Rightarrow> bool option"
    by (auto simp: keeping_def same_oauth_def update_google_def revoke_user_tokens_def Let_def
        split: option.splits)
  then show ?thesis
    unfolding UserRepository_AttachGoogle_def AttachGoogle_body_def [abs_def]
    by (intro same_oauth.keeping_rules same_oauth.keeping_send same_oauth.keeping_tx)
qed

interpretation spends: service_relation spends x for x
proof (rule service_relation_aside)
  show "spends w w" for w by (simp add: spends_def)
  show "spends u v \<Longrightarrow> spends v w \<Longrightarrow> spends u w" for u v w by (simp add: spends_def)
  show "aside w w' \<Longrightarrow> spends w w'" for w w' by (simp add: aside_def spends_def)
  show "UserRepository_Create (su_postgres x) usr w = (r, w') \<Longrightarrow> spends w w'" for usr w r w'
    using CreateUser_codes [of "su_postgres x" usr w r w'] by (simp add: spends_def)
  show "UserRepository_AttachGoogle uid sub name ev w = (r, w') \<Longrightarrow> spends w w'" for uid sub name ev w r w'
    using keepingD [OF AttachGoogle_oauth, of uid sub name ev w r w']
    by (simp add: same_oauth_def spends_def)
qed (auto intro: CreateCode_spends TakeCode_spends)

lemma auth_steps_spends: "(auth_step x)\<^sup>*\<^sup>* w w' \<Longrightarrow> spends w w'"
  by (rule spends.auth_steps_R) (auto simp: spends_def)

lemma TakeCode_none_codes:
  assumes "\<forall>c\<in>set (db_oauth_codes w). \<not> takeable_code h (timestamptz now) c"
    and "GoogleOAuthRepository_TakeCode h now w = (r, w')"
  shows "db_oauth_codes w' = db_oauth_codes w"
proof -
  obtain r1 where "send (take_code_row h (timestamptz now)) w = (r1, w')"
    using assms(2) by (auto simp: GoogleOAuthRepository_TakeCode_def split: prod.splits)
  then show ?thesis
    by (rule send_cases) (use assms(1) in \<open>auto simp: take_code_row_def same_tables_def update_rows_none\<close>)
qed

text \<open>
  C27:
 A one-time code signs in once: after a successful \<open>ExchangeGoogleCode\<close> the same code
  is refused for ever, whatever happens in between, and the refused call writes nothing. The
  successful call was made before the code expired, for the user it was issued to.
\<close>

theorem exchange_code_once:
  assumes "ExchangeGoogleCode (auth_library x) (auth_service x) code meta w = (Inr se, w1)"
    and "distinct (map gc_CodeHash (db_oauth_codes w))"
    and "(auth_step x)\<^sup>*\<^sup>* w1 w2"
    and "ExchangeGoogleCode (auth_library x) (auth_service x) code meta2 w2 = (r, w3)"
  shows "(\<exists>c\<in>set (db_oauth_codes w). gc_CodeHash c = HashOAuthSecret (auth_library x) code \<and>
      gc_UsedAt c = None \<and> timestamptz (fst (world_now w)) < gc_ExpiresAt c \<and>
      gc_UserID c = user_ID (se_User se)) \<and>
    (\<exists>e. r = Inl e) \<and> db_refresh_tokens w3 = db_refresh_tokens w2 \<and>
    db_oauth_codes w3 = db_oauth_codes w2 \<and> db_users w3 = db_users w2"
proof -
  let ?h = "HashOAuthSecret (auth_library x) code"
  obtain now wa where a: "world_now w = (now, wa)" by fastforce
  obtain u wb where b: "GoogleOAuthRepository_TakeCode ?h now wa = (Inr u, wb)"
    and id: "\<exists>wc. UserRepository_ByID u wb = (Inr (se_User se), wc) \<and>
      startSession (auth_library x) (auth_service x) (se_User se) meta wc = (Inr se, w1)"
  proof -
    obtain r2 wb where 2: "GoogleOAuthRepository_TakeCode ?h now wa = (r2, wb)" by fastforce
    obtain u where u: "r2 = Inr u"
      using assms(1) a 2 by (cases r2) (auto simp: ExchangeGoogleCode_def split: if_splits)
    obtain r3 wc where 3: "UserRepository_ByID u wb = (r3, wc)" by fastforce
    obtain user where user: "r3 = Inr user"
      using assms(1) a 2 u 3 by (cases r3) (auto simp: ExchangeGoogleCode_def split: if_splits)
    have s: "startSession (auth_library x) (auth_service x) user meta wc = (Inr se, w1)"
      using assms(1) a 2 u 3 user by (simp add: ExchangeGoogleCode_def)
    moreover have "se_User se = user"
      using s by (auto simp: startSession_def issueSession_def split: prod.splits sum.splits)
    ultimately show thesis using that 2 u 3 user by blast
  qed
  have codes: "db_oauth_codes wa = db_oauth_codes w" using a by (auto simp: world_now_def)
  obtain c where c: "c \<in> set (db_oauth_codes w)" "takeable_code ?h (timestamptz now) c" "gc_UserID c = u"
    using TakeCode_Inr(1) [OF b] codes by auto
  have u: "user_ID (se_User se) = u" using id ByID_Inr by blast
  have one: "(\<exists>c\<in>set (db_oauth_codes w). gc_CodeHash c = ?h \<and> gc_UsedAt c = None \<and>
      timestamptz (fst (world_now w)) < gc_ExpiresAt c \<and> gc_UserID c = user_ID (se_User se))"
    using c u a by (auto simp: takeable_code_def After_def)
  have "gc_CodeHash d = ?h \<longrightarrow> d = c" if "d \<in> set (db_oauth_codes w)" for d
    using assms(2) that c distinct_key_eq [of gc_CodeHash "db_oauth_codes w"] by (auto simp: takeable_code_def)
  then have "spent ?h wb"
    unfolding TakeCode_Inr(2) [OF b] codes using c(1,2) by (rule spent_in_taken)
  have "spends wb w1"
  proof -
    obtain wc where wc: "UserRepository_ByID u wb = (Inr (se_User se), wc)"
      "startSession (auth_library x) (auth_service x) (se_User se) meta wc = (Inr se, w1)" using id by blast
    show ?thesis
      by (rule spends.R_trans [OF keepingD [OF spends.keeping_users(2) wc(1)]
            keepingD [OF spends.keeping_startSession wc(2)]])

  qed
  with \<open>spent ?h wb\<close> auth_steps_spends [OF assms(3)] have "spent ?h w2" by (simp add: spends_def)
  obtain now2 wd where d: "world_now w2 = (now2, wd)" by fastforce
  obtain r2 we where e: "GoogleOAuthRepository_TakeCode ?h now2 wd = (r2, we)" by fastforce
  have none: "\<forall>c\<in>set (db_oauth_codes wd). \<not> takeable_code ?h (timestamptz now2) c"
    using \<open>spent ?h w2\<close> d by (auto simp: world_now_def takeable_code_def spent_in_def list_all_iff)
  obtain err where err: "r2 = Inl err" using TakeCode_none [OF none e] by blast
  have "(\<exists>e. r = Inl e) \<and> w3 = we"
    using assms(4) d e err by (auto simp: ExchangeGoogleCode_def split: if_splits)
  moreover have "db_refresh_tokens we = db_refresh_tokens w2 \<and> db_users we = db_users w2"
    using TakeCode_keeps [OF e] d by (auto simp: same_tables_def world_now_def)
  moreover have "db_oauth_codes we = db_oauth_codes w2"
    using TakeCode_none_codes [OF none e] d by (auto simp: world_now_def)
  ultimately show ?thesis using one by blast
qed

theorem exchange_code_once_witness:
  "\<exists>se. fst ex_flow_end = Inr se \<and>
     (\<exists>e. fst (ExchangeGoogleCode ex_lib ex_auth ''cw'' ex_meta (snd ex_flow_end)) = Inl e)"
proof -
  obtain se where se: "fst ex_flow_end = Inr se" using ex_flow_ok(2) by (auto simp: is_ok_iff)
  have 1: "ExchangeGoogleCode ex_lib ex_auth ''cw'' ex_meta (snd ex_flow_back) = (Inr se, snd ex_flow_end)"
    using se by (simp add: ex_flow_end_def prod_eq_iff)
  have 2: "distinct (map gc_CodeHash (db_oauth_codes (snd ex_flow_back)))" by (simp add: ex_flow_codes)
  from exchange_code_once [OF 1 2 rtranclp.rtrancl_refl surjective_pairing] se show ?thesis by blast
qed

end
