(* ===== verification/AccountInv.thy ===== *)
theory AccountInv
  imports AccountProps
begin

text \<open>
  The invariant of the accounts: what the constraints of \<open>users\<close> and the statements on it
  keep true, and what no request can change about an account.
\<close>

definition accounts_ok :: "postgres \<Rightarrow> 'm db_scheme \<Rightarrow> bool" where
  "accounts_ok pg w \<longleftrightarrow>
     distinct (map user_ID (db_users w)) \<and> (\<forall>u\<in>set (db_users w). user_ID u \<le> db_users_seq w) \<and>
     distinct (map (\<lambda>u. pg_lower pg (user_Email u)) (db_users w)) \<and>
     (\<forall>u\<in>set (db_users w). \<forall>v\<in>set (db_users w).
        user_GoogleSub u \<noteq> None \<longrightarrow> user_GoogleSub u = user_GoogleSub v \<longrightarrow> user_ID u = user_ID v) \<and>
     (\<forall>u\<in>set (db_users w). Role_Valid (user_Role u) \<and>
        (user_PasswordHash u \<noteq> None \<or> user_GoogleSub u \<noteq> None))"

text \<open>What stays of an account: everything but its password, its name and its flags.\<close>

definition same_account :: "User \<Rightarrow> User \<Rightarrow> bool" where
  "same_account u v \<longleftrightarrow> user_ID v = user_ID u \<and> user_Email v = user_Email u \<and> user_Role v = user_Role u \<and>
     user_CreatedAt v = user_CreatedAt u \<and>
     (user_GoogleSub u = None \<or> user_GoogleSub v = user_GoogleSub u)"

definition accounts_extend :: "User list \<Rightarrow> User list \<Rightarrow> bool" where
  "accounts_extend us us' \<longleftrightarrow> (\<exists>old new. us' = old @ new \<and> list_all2 same_account us old \<and>
     (\<forall>u\<in>set new. user_Role u = RoleUser))"

lemma same_account_refl [simp]: "same_account u u"
  by (simp add: same_account_def)

lemma same_account_trans: "same_account u v \<Longrightarrow> same_account v w \<Longrightarrow> same_account u w"
  by (auto simp: same_account_def)

lemma accounts_extend_refl [simp]: "accounts_extend us us"
  unfolding accounts_extend_def by (rule exI [of _ us]) (simp add: list.rel_refl)

lemma same_account_roles:
  "list_all2 same_account us vs \<Longrightarrow> \<forall>u\<in>set us. user_Role u = RoleUser \<Longrightarrow> \<forall>v\<in>set vs. user_Role v = RoleUser"
  by (induction rule: list_all2_induct) (auto simp: same_account_def)

lemma accounts_extend_trans:
  assumes "accounts_extend us vs" and "accounts_extend vs ws"
  shows "accounts_extend us ws"
proof -
  obtain old new where 1: "vs = old @ new" "list_all2 same_account us old" "\<forall>u\<in>set new. user_Role u = RoleUser"
    using assms(1) by (auto simp: accounts_extend_def)
  obtain old2 new2 where 2: "ws = old2 @ new2" "list_all2 same_account vs old2" "\<forall>u\<in>set new2. user_Role u = RoleUser"
    using assms(2) by (auto simp: accounts_extend_def)
  obtain o1 o2 where o: "old2 = o1 @ o2" "list_all2 same_account old o1" "list_all2 same_account new o2"
    using 2(2) unfolding 1(1) list_all2_append1 by auto
  have "list_all2 same_account us o1"
    using list_all2_trans [OF same_account_trans 1(2) o(2)] .
  moreover have "\<forall>u\<in>set (o2 @ new2). user_Role u = RoleUser"
    using same_account_roles [OF o(3) 1(3)] 2(3) by auto
  ultimately show ?thesis
    unfolding accounts_extend_def 2(1) o(1) by (intro exI [of _ o1] exI [of _ "o2 @ new2"]) simp
qed

definition accounts_kept :: "postgres \<Rightarrow> 'm db_scheme \<Rightarrow> 'm db_scheme \<Rightarrow> bool" where
  "accounts_kept pg w w' \<longleftrightarrow> db_users_seq w \<le> db_users_seq w' \<and>
     (accounts_ok pg w \<longrightarrow> accounts_ok pg w' \<and> accounts_extend (db_users w) (db_users w'))"

lemma accounts_kept_same:
  "db_users w' = db_users w \<Longrightarrow> db_users_seq w \<le> db_users_seq w' \<Longrightarrow> accounts_kept pg w w'"
  by (fastforce simp: accounts_kept_def accounts_ok_def)

interpretation accounts: table_relation "accounts_kept pg" for pg
proof unfold_locales
  fix u v w w1 :: "'a db_scheme" and fs
  show "accounts_kept pg w w" by (simp add: accounts_kept_def)
  show "accounts_kept pg u v \<Longrightarrow> accounts_kept pg v w \<Longrightarrow> accounts_kept pg u w"
    by (auto simp: accounts_kept_def intro: accounts_extend_trans)
  show "accounts_kept pg w (w\<lparr>db_faults := fs\<rparr>)" by (simp add: accounts_kept_same)
  show "accounts_kept pg w w1 \<Longrightarrow> accounts_kept pg w (rollback w w1)"
    by (rule accounts_kept_same) (simp_all add: rollback_def accounts_kept_def)
qed

lemma accounts_okD:
  assumes "accounts_ok pg w"
  shows "distinct (map user_ID (db_users w))" and "\<forall>u\<in>set (db_users w). user_ID u \<le> db_users_seq w"
    and "distinct (map (\<lambda>u. pg_lower pg (user_Email u)) (db_users w))"
    and "\<forall>u\<in>set (db_users w). \<forall>v\<in>set (db_users w).
      user_GoogleSub u \<noteq> None \<longrightarrow> user_GoogleSub u = user_GoogleSub v \<longrightarrow> user_ID u = user_ID v"
    and "\<forall>u\<in>set (db_users w). Role_Valid (user_Role u) \<and>
      (user_PasswordHash u \<noteq> None \<or> user_GoogleSub u \<noteq> None)"
  using assms unfolding accounts_ok_def by blast+

lemma accounts_okI:
  assumes "distinct (map user_ID (db_users w))" and "\<forall>u\<in>set (db_users w). user_ID u \<le> db_users_seq w"
    and "distinct (map (\<lambda>u. pg_lower pg (user_Email u)) (db_users w))"
    and "\<forall>u\<in>set (db_users w). \<forall>v\<in>set (db_users w).
      user_GoogleSub u \<noteq> None \<longrightarrow> user_GoogleSub u = user_GoogleSub v \<longrightarrow> user_ID u = user_ID v"
    and "\<forall>u\<in>set (db_users w). Role_Valid (user_Role u) \<and>
      (user_PasswordHash u \<noteq> None \<or> user_GoogleSub u \<noteq> None)"
  shows "accounts_ok pg w"
  unfolding accounts_ok_def by (intro conjI assms)

section \<open>The statements on users\<close>

lemma insert_user_kept:
  assumes "user_Role usr = RoleUser"
  shows "keeping (accounts_kept pg) (insert_user pg usr)"
proof (rule keepingI)
  fix w r and w' :: "'a db_scheme"
  assume ins: "insert_user pg usr w = (r, w')"
  show "accounts_kept pg w w'"
  proof (cases r)
    case (Inl e)
    with ins show ?thesis
      by (intro accounts_kept_same) (auto simp: insert_user_def Let_def split: if_splits)
  next
    case (Inr row)
    have w': "db_users w' = db_users w @ [row]" "db_users_seq w' = db_users_seq w + 1"
      and row: "user_ID row = db_users_seq w + 1" "user_Email row = user_Email usr"
        "user_Role row = RoleUser" "user_GoogleSub row = user_GoogleSub usr"
        "user_PasswordHash row = user_PasswordHash usr"
      and ok: "Role_Valid (user_Role usr)" "user_PasswordHash usr \<noteq> None \<or> user_GoogleSub usr \<noteq> None"
        "\<not> email_conflict pg (user_Email usr) (db_users w)"
        "\<not> google_sub_conflict (user_GoogleSub usr) (db_users w)"
      using ins Inr assms by (auto simp: insert_user_def Let_def split: if_splits)
    have "accounts_ok pg w'" if w: "accounts_ok pg w"
    proof -
      note D = accounts_okD [OF w]
      note D = accounts_okD [OF w]
      have new: "u \<in> set (db_users w) \<Longrightarrow> user_GoogleSub row \<noteq> None \<Longrightarrow> user_GoogleSub u \<noteq> user_GoogleSub row" for u
        using ok(4) unfolding row google_sub_conflict_def list_ex_iff by metis
      show ?thesis
      proof (rule accounts_okI)
        have "user_ID row \<notin> set (map user_ID (db_users w))" using D(2) row(1) by fastforce
        then show "distinct (map user_ID (db_users w'))" using D(1) by (simp add: w')
        show "\<forall>u\<in>set (db_users w'). user_ID u \<le> db_users_seq w'"
          using D(2) row(1) unfolding w' by fastforce
        have "pg_lower pg (user_Email row) \<notin> set (map (\<lambda>u. pg_lower pg (user_Email u)) (db_users w))"
          using ok(3) unfolding row email_conflict_def list_ex_iff set_map image_iff by metis
        then show "distinct (map (\<lambda>u. pg_lower pg (user_Email u)) (db_users w'))"
          using D(3) by (simp add: w')
        show "\<forall>u\<in>set (db_users w'). Role_Valid (user_Role u) \<and>
            (user_PasswordHash u \<noteq> None \<or> user_GoogleSub u \<noteq> None)"
          using D(5) ok(1,2) assms row unfolding w' by simp
        show "\<forall>u\<in>set (db_users w'). \<forall>v\<in>set (db_users w').
            user_GoogleSub u \<noteq> None \<longrightarrow> user_GoogleSub u = user_GoogleSub v \<longrightarrow> user_ID u = user_ID v"
        proof (intro ballI impI)
          fix u v
          assume uv: "u \<in> set (db_users w')" "v \<in> set (db_users w')"
            and sub: "user_GoogleSub u \<noteq> None" "user_GoogleSub u = user_GoogleSub v"
          consider "u = row" "v = row" | "u = row" "v \<in> set (db_users w)" | "v = row" "u \<in> set (db_users w)"
            | "u \<in> set (db_users w)" "v \<in> set (db_users w)" using uv unfolding w' by auto
          then show "user_ID u = user_ID v"
          proof cases
            case 4
            then show ?thesis using D(4) sub by blast
          qed (use new sub in \<open>metis+\<close>)
        qed
      qed
    qed

    moreover have "accounts_extend (db_users w) (db_users w')"
      unfolding accounts_extend_def w' by (intro exI conjI) (auto simp: list.rel_refl row)
    ultimately show ?thesis by (simp add: accounts_kept_def w')
  qed
qed

lemma link_row_sel [simp]:
  "user_ID (link_row sub name ev t r) = user_ID r" "user_Email (link_row sub name ev t r) = user_Email r"
  "user_Role (link_row sub name ev t r) = user_Role r" "user_CreatedAt (link_row sub name ev t r) = user_CreatedAt r"
  "user_GoogleSub (link_row sub name ev t r) = Some sub"
  "user_PasswordHash (link_row sub name ev t r) = (if user_EmailVerified r then user_PasswordHash r else None)"
  by (simp_all add: link_row_def)

lemma update_google_kept: "keeping (accounts_kept pg) (update_google i sub name ev)"
proof (rule keepingI)
  fix w r and w' :: "'a db_scheme"
  assume upd: "update_google i sub name ev w = (r, w')"
  let ?g = "link_row sub name ev (db_now w)"
  show "accounts_kept pg w w'"
  proof (cases r)
    case (Inl e)
    with upd show ?thesis
      by (intro accounts_kept_same) (auto simp: update_google_def split: option.splits if_splits)
  next
    case (Inr u)
    have w': "db_users w' = update_rows (linkable i sub) ?g (db_users w)" "db_users_seq w' = db_users_seq w"
      and free: "\<forall>v\<in>set (db_users w). user_GoogleSub v = Some sub \<longrightarrow> user_ID v = i"
      using upd Inr by (auto simp: update_google_def list_ex_iff split: option.splits if_splits)
    have same: "same_account v (if linkable i sub v then ?g v else v)" for v
      by (auto simp: same_account_def linkable_def)
    have "list_all2 same_account (db_users w) (db_users w')"
      unfolding w' update_rows_def by (simp add: list_all2_conv_all_nth same)
    then have "accounts_extend (db_users w) (db_users w')"
      unfolding accounts_extend_def by (intro exI [of _ "db_users w'"] exI [of _ "[]"]) simp
    moreover have "accounts_ok pg w'" if w: "accounts_ok pg w"
    proof -
      have ids: "map user_ID (db_users w') = map user_ID (db_users w)"
        and mails: "map (\<lambda>u. pg_lower pg (user_Email u)) (db_users w') =
          map (\<lambda>u. pg_lower pg (user_Email u)) (db_users w)"
        unfolding w' by (rule update_rows_map_same; simp)+
      have sub: "user_GoogleSub (if linkable i sub a then ?g a else a) = Some sub \<Longrightarrow> user_ID a = i"
        if "a \<in> set (db_users w)" for a
        using that free by (auto simp: linkable_def split: if_splits)
      have id_g: "user_ID (if linkable i sub a then ?g a else a) = user_ID a" for a by simp
      have subs: "user_ID a = user_ID b"

        if ab: "a \<in> set (db_users w)" "b \<in> set (db_users w)"
          and eq: "user_GoogleSub (if linkable i sub a then ?g a else a) =
            user_GoogleSub (if linkable i sub b then ?g b else b)"
          and ne: "user_GoogleSub (if linkable i sub a then ?g a else a) \<noteq> None" for a b
      proof (cases "user_GoogleSub (if linkable i sub a then ?g a else a) = Some sub")
        case True
        then show ?thesis using sub [OF ab(1)] sub [OF ab(2)] eq by simp
      next
        case False
        then have "\<not> linkable i sub a" "\<not> linkable i sub b" using eq by auto
        then have "user_GoogleSub a = user_GoogleSub b" "user_GoogleSub a \<noteq> None" using eq ne by auto
        then show ?thesis using accounts_okD(4) [OF w] ab by blast
      qed
      note D = accounts_okD [OF w]
      show ?thesis
      proof (rule accounts_okI)
        show "\<forall>u\<in>set (db_users w'). user_ID u \<le> db_users_seq w'"
          unfolding w' ball_update_rows using D(2) by simp
        show "\<forall>u\<in>set (db_users w'). Role_Valid (user_Role u) \<and>
            (user_PasswordHash u \<noteq> None \<or> user_GoogleSub u \<noteq> None)"
          unfolding w' ball_update_rows using D(5) by simp
        show "\<forall>u\<in>set (db_users w'). \<forall>v\<in>set (db_users w').
            user_GoogleSub u \<noteq> None \<longrightarrow> user_GoogleSub u = user_GoogleSub v \<longrightarrow> user_ID u = user_ID v"
          unfolding w' ball_update_rows id_g by (intro ballI impI) (rule subs)
      qed (use D ids mails in simp_all)
    qed

    ultimately show ?thesis by (simp add: accounts_kept_def w')
  qed
qed

lemma UserCreate_kept:
  assumes "user_Role usr = RoleUser"
  shows "keeping (accounts_kept pg) (UserRepository_Create pg usr)"
  unfolding UserRepository_Create_def [abs_def]
  by (intro accounts.keeping_rules accounts.keeping_send insert_user_kept assms)

lemma AttachGoogle_kept: "keeping (accounts_kept pg) (UserRepository_AttachGoogle i sub name ev)"
proof -
  have "keeping (accounts_kept pg) (revoke_user_tokens i)"
    by (rule keepingI, rule accounts_kept_same) (auto simp: revoke_user_tokens_def Let_def)
  moreover have "keeping (accounts_kept pg) (\<lambda>w. (one_row (f w), w))" for f :: "'a db_scheme \<Rightarrow> bool option"
    by (rule keepingI, rule accounts_kept_same) auto
  ultimately show ?thesis
    unfolding UserRepository_AttachGoogle_def AttachGoogle_body_def [abs_def]
    by (intro accounts.keeping_rules accounts.keeping_send accounts.keeping_tx update_google_kept)
qed

lemma Codes_kept:
  "GoogleOAuthRepository_CreateCode c w = (r, w') \<Longrightarrow> db_users w' = db_users w \<and> db_users_seq w' = db_users_seq w"
  "GoogleOAuthRepository_TakeCode h now w = (r2, w') \<Longrightarrow> db_users w' = db_users w \<and> db_users_seq w' = db_users_seq w"
  by (auto simp: GoogleOAuthRepository_CreateCode_def GoogleOAuthRepository_TakeCode_def insert_oauth_code_def
      take_code_row_def send_def round_trip_def split: prod.splits option.splits list.splits if_splits)

interpretation account_service: service_relation "accounts_kept (su_postgres x)" x for x
proof (rule service_relation_aside)
  fix w w' :: world and c h now and r :: "go_error + unit" and r2 :: "go_error + int"
    and usr and r3 :: "go_error + User" and uid sub name ev
  show "aside w w' \<Longrightarrow> accounts_kept (su_postgres x) w w'"
    by (rule accounts_kept_same) (simp_all add: aside_def)
  show "GoogleOAuthRepository_CreateCode c w = (r, w') \<Longrightarrow> accounts_kept (su_postgres x) w w'"
    by (rule accounts_kept_same) (simp_all add: Codes_kept)
  show "GoogleOAuthRepository_TakeCode h now w = (r2, w') \<Longrightarrow> accounts_kept (su_postgres x) w w'"
    by (rule accounts_kept_same) (simp_all add: Codes_kept)
  show "user_Role usr = RoleUser \<Longrightarrow> UserRepository_Create (su_postgres x) usr w = (r3, w') \<Longrightarrow>
      accounts_kept (su_postgres x) w w'"
    by (rule keepingD [OF UserCreate_kept])
  show "UserRepository_AttachGoogle uid sub name ev w = (r3, w') \<Longrightarrow> accounts_kept (su_postgres x) w w'"
    by (rule keepingD [OF AttachGoogle_kept])
qed (rule accounts.R_refl, rule accounts.R_trans)

text \<open>
  C24: Whatever requests come in: no two accounts share an id, an address up to case or a
  Google identity, and every account can sign in somehow; an existing account keeps its id,
  address, role, creation time and, once set, its Google identity; a new account always has
  the role \<open>user\<close>.
\<close>

theorem accounts_invariant:
  assumes "(auth_step x)\<^sup>*\<^sup>* w w'" and "accounts_ok (su_postgres x) w"
  shows "accounts_ok (su_postgres x) w' \<and> accounts_extend (db_users w) (db_users w')"
proof -
  have "accounts_kept (su_postgres x) w w'"
    by (rule account_service.auth_steps_R [OF assms(1)]) (simp add: accounts_kept_same)
  with assms(2) show ?thesis by (simp add: accounts_kept_def)
qed

theorem accounts_invariant_witness:
  "accounts_ok ex_pg (snd ex_login) \<and> accounts_extend (db_users ex_start) (db_users (snd ex_login))"
proof -
  have pg: "su_postgres ex_setup = ex_pg" by (simp add: ex_setup_def)
  have "accounts_ok ex_pg ex_start"
    by (simp add: accounts_ok_def ex_start_def ex_world_def ex_user_def Role_Valid_def)
  then show ?thesis
    using accounts_invariant [OF ex_history(1)] unfolding pg by blast
qed

end
