(* ===== verification/GoogleProps.thy ===== *)
theory GoogleProps
  imports AccountInv
begin

text \<open>
  Signing in with Google: linking an account, finding the user of a Google identity, the
  authorization code flow and where it sends the browser; and the access tokens.
\<close>

section \<open>Linking\<close>

lemma revoke_user_tokens_eq:
  "revoke_user_tokens i w = (Inr (count_rows (\<lambda>t. rt_UserID t = i \<and> live t) (db_refresh_tokens w)),
     w\<lparr>db_refresh_tokens := update_rows (\<lambda>t. rt_UserID t = i \<and> live t)
        (\<lambda>t. t\<lparr>rt_RevokedAt := Some (db_now w)\<rparr>) (db_refresh_tokens w)\<rparr>)"
  by (simp add: revoke_user_tokens_def Let_def live_def)

text \<open>The two ways a link can end well.\<close>

lemma AttachGoogle_Inr:
  assumes "UserRepository_AttachGoogle i sub name ev w = (Inr u, w')"
    and "distinct (map user_ID (db_users w))"
  obtains r where "r \<in> set (db_users w)" and "linkable i sub r"
    and "u = link_row sub name ev (db_now w) r"
    and "db_users w' = update_rows (linkable i sub) (link_row sub name ev (db_now w)) (db_users w)"
    and "db_refresh_tokens w' = (if user_EmailVerified r then db_refresh_tokens w
      else update_rows (\<lambda>t. rt_UserID t = i \<and> live t) (\<lambda>t. t\<lparr>rt_RevokedAt := Some (db_now w)\<rparr>)
             (db_refresh_tokens w))"
proof -
  note tx = assms(1) [unfolded UserRepository_AttachGoogle_def]
  obtain w0 we where 0: "same_tables w w0"
    and b: "AttachGoogle_body i sub name ev w0 = (Inr u, we)" and e: "same_tables we w'"
    by (rule in_tx_Inr [OF tx])
  obtain r1 w1 where s1: "send (\<lambda>w. (one_row (map_option user_EmailVerified
      (select_row (\<lambda>r. user_ID r = i) (db_users w))), w)) w0 = (r1, w1)" by fastforce
  obtain verified where r1: "r1 = Inr verified"
    using b s1 by (cases r1) (auto simp: AttachGoogle_body_def split: if_splits)
  from s1 obtain r where 1: "same_tables w0 w1" and r: "select_row (\<lambda>r. user_ID r = i) (db_users w0) = Some r"
    and v: "verified = user_EmailVerified r"
    unfolding r1 by (rule send_cases) (auto simp: same_tables_def)
  obtain r2 w2 where s2: "send (update_google i sub name ev) w1 = (r2, w2)" by fastforce
  have r2: "r2 = Inr u"
    using b s1 r1 s2 by (cases r2) (auto simp: AttachGoogle_body_def scanUser_def
        split: if_splits sum.splits prod.splits)
  from s2 obtain w1a where 2: "same_tables w1 w1a" and up: "update_google i sub name ev w1a = (Inr u, w2)"
    unfolding r2 by (rule send_cases) auto
  have same: "same_tables w w1a" using 0 1 2 by (blast intro: same_tables_trans)
  from up obtain q where q: "select_row (linkable i sub) (db_users w) = Some q"
    and u: "u = link_row sub name ev (db_now w) q"
    and w2: "w2 = w1a\<lparr>db_users := update_rows (linkable i sub) (link_row sub name ev (db_now w)) (db_users w)\<rparr>"
    using same by (auto simp: update_google_def same_tables_def split: option.splits if_splits)
  have "q = r"
    using select_row_Some [OF q] select_row_Some [OF r] 0 distinct_key_eq [OF assms(2)]
    by (auto simp: linkable_def same_tables_def)
  then have row: "r \<in> set (db_users w)" "linkable i sub r"
    using select_row_Some [OF q] by auto
  have out: "db_users we = update_rows (linkable i sub) (link_row sub name ev (db_now w)) (db_users w) \<and>
    db_refresh_tokens we = (if user_EmailVerified r then db_refresh_tokens w
      else update_rows (\<lambda>t. rt_UserID t = i \<and> live t) (\<lambda>t. t\<lparr>rt_RevokedAt := Some (db_now w)\<rparr>)
             (db_refresh_tokens w))"
  proof (cases "user_EmailVerified r")
    case True
    then have "we = w2"
      using b s1 r1 s2 r2 v by (auto simp: AttachGoogle_body_def scanUser_def)
    with True w2 same show ?thesis by (simp add: same_tables_def)
  next
    case False
    obtain r3 w3 where 3: "send (revoke_user_tokens i) w2 = (r3, w3)" by fastforce
    obtain n where r3: "r3 = Inr n" and we: "we = w3"
      using b s1 r1 s2 r2 v False 3 by (cases r3) (auto simp: AttachGoogle_body_def scanUser_def)
    from 3 obtain w2a where "same_tables w2 w2a" and "revoke_user_tokens i w2a = (Inr n, w3)"
      unfolding r3 by (rule send_cases) auto
    with False w2 same we show ?thesis by (auto simp: revoke_user_tokens_eq same_tables_def)
  qed
  show thesis
    by (rule that [OF row u [unfolded \<open>q = r\<close>]]) (use out e in \<open>simp_all add: same_tables_def\<close>)
qed

text \<open>
  C25: Linking a Google identity to an account that has none: the account is the one asked
  for, had no identity or this one, and now carries it; all other accounts stay. An account
  whose address was never verified loses its password and all its sessions, since whoever
  registered it may not own the address; a verified one keeps both.
\<close>

theorem google_link:
  assumes "attachGoogle (auth_service x) user claims w = (Inr u', w')" and "\<not> HasGoogle user"
    and "distinct (map user_ID (db_users w))"
  shows "\<exists>r\<in>set (db_users w). user_ID r = user_ID user \<and> user_ID u' = user_ID user \<and>
    (user_GoogleSub r = None \<or> user_GoogleSub r = Some (gl_Subject claims)) \<and>
    user_GoogleSub u' = Some (gl_Subject claims) \<and> user_EmailVerified u' \<and>
    db_users w' = map (\<lambda>v. if v = r then u' else v) (db_users w) \<and>
    (if user_EmailVerified r
     then user_PasswordHash u' = user_PasswordHash r \<and> db_refresh_tokens w' = db_refresh_tokens w
     else user_PasswordHash u' = None \<and>
       (\<forall>t\<in>set (db_refresh_tokens w'). rt_UserID t = user_ID user \<longrightarrow> Revoked t))"
proof -
  have "UserRepository_AttachGoogle (user_ID user) (gl_Subject claims) (textPtr (gl_Name claims)) True w
      = (Inr u', w')"
    using assms(1,2) by (auto simp: attachGoogle_def split: prod.splits sum.splits if_splits)
  then show ?thesis
  proof (rule AttachGoogle_Inr [OF _ assms(3)])
    fix r
    assume r: "r \<in> set (db_users w)" "linkable (user_ID user) (gl_Subject claims) r"
      and u': "u' = link_row (gl_Subject claims) (textPtr (gl_Name claims)) True (db_now w) r"
      and users: "db_users w' = update_rows (linkable (user_ID user) (gl_Subject claims))
        (link_row (gl_Subject claims) (textPtr (gl_Name claims)) True (db_now w)) (db_users w)"
      and tokens: "db_refresh_tokens w' = (if user_EmailVerified r then db_refresh_tokens w
        else update_rows (\<lambda>t. rt_UserID t = user_ID user \<and> live t)
          (\<lambda>t. t\<lparr>rt_RevokedAt := Some (db_now w)\<rparr>) (db_refresh_tokens w))"
    have "linkable (user_ID user) (gl_Subject claims) v = (v = r)" if "v \<in> set (db_users w)" for v
      using r that distinct_key_eq [OF assms(3)] by (auto simp: linkable_def)
    then have "db_users w' = map (\<lambda>v. if v = r then u' else v) (db_users w)"
      unfolding users update_rows_def u' by (intro map_cong) auto
    moreover have "\<forall>t\<in>set (db_refresh_tokens w'). rt_UserID t = user_ID user \<longrightarrow> Revoked t"
      if "\<not> user_EmailVerified r"
      using that unfolding tokens by (simp add: ball_update_rows live_def Revoked_def)
    ultimately show ?thesis
      using r tokens by (intro bexI [of _ r]) (auto simp: u' linkable_def link_row_def)
  qed
qed

section \<open>The user of a Google identity\<close>

lemma UserCreate_Inr:
  assumes "UserRepository_Create pg usr w = (Inr u, w')"
  shows "db_users w' = db_users w @ [u] \<and> user_GoogleSub u = user_GoogleSub usr \<and>
    user_Email u = user_Email usr \<and> user_Role u = user_Role usr"
proof -
  obtain r where s: "send (insert_user pg usr) w = (r, w')" and r: "r = Inr u"
    using assms by (auto simp: UserRepository_Create_def scanUser_def split: prod.splits sum.splits)
  from s show ?thesis
    unfolding r by (rule send_cases) (auto simp: insert_user_def Let_def same_tables_def split: if_splits)
qed

lemma UserCreate_Inl:
  assumes "UserRepository_Create pg usr w = (Inl e, w')"
  shows "db_users w' = db_users w"
proof -
  obtain r where s: "send (insert_user pg usr) w = (r, w')"
    using assms by (auto simp: UserRepository_Create_def split: prod.splits sum.splits)
  have r: "\<exists>e. r = Inl e"
    using assms s by (cases r) (auto simp: UserRepository_Create_def scanUser_def)
  from s show ?thesis
    by (rule send_cases) (use r in \<open>auto simp: insert_user_def Let_def same_tables_def split: if_splits\<close>)
qed

lemma attachGoogle_Inr:
  assumes "attachGoogle (auth_service x) user claims w = (Inr u, w')"
    and "distinct (map user_ID (db_users w))" and "user \<in> set (db_users w)"
  shows "user_GoogleSub u = Some (gl_Subject claims) \<and> u \<in> set (db_users w') \<and> user_ID u = user_ID user"
proof (cases "HasGoogle user")
  case True
  with assms show ?thesis
    by (auto simp: attachGoogle_def HasGoogle_def split: if_splits option.splits)
next
  case False
  then have "UserRepository_AttachGoogle (user_ID user) (gl_Subject claims) (textPtr (gl_Name claims)) True w
      = (Inr u, w')"
    using assms(1) by (auto simp: attachGoogle_def split: prod.splits sum.splits if_splits)
  then show ?thesis
  proof (rule AttachGoogle_Inr [OF _ assms(2)])
    fix r
    assume "r \<in> set (db_users w)" "linkable (user_ID user) (gl_Subject claims) r"
      "u = link_row (gl_Subject claims) (textPtr (gl_Name claims)) True (db_now w) r"
      "db_users w' = update_rows (linkable (user_ID user) (gl_Subject claims))
        (link_row (gl_Subject claims) (textPtr (gl_Name claims)) True (db_now w)) (db_users w)"
    then show ?thesis by (auto simp: set_update_rows linkable_def)
  qed
qed

lemma linkOrCreate_Inr:
  assumes "linkOrCreateGoogleUser (auth_library x) (auth_service x) claims w = (Inr u, w')"
    and "distinct (map user_ID (db_users w))"
  shows "user_GoogleSub u = Some (gl_Subject claims) \<and> u \<in> set (db_users w')"
proof -
  obtain email where e: "normalizeEmail (auth_library x) (gl_Email claims) = Inr email"
    using assms(1) by (auto simp: linkOrCreateGoogleUser_def split: sum.splits)
  obtain r1 w1 where 1: "UserRepository_ByEmail (su_postgres x) email w = (r1, w1)" by fastforce
  have users1: "db_users w1 = db_users w" using UserReads_same(2) [OF 1] by (simp add: same_tables_def)
  obtain r2 w2 where 2: "UserRepository_Create (su_postgres x)
      \<lparr>user_ID = 0, user_Email = email, user_PasswordHash = None, user_Role = RoleUser,
       user_GoogleSub = Some (gl_Subject claims), user_Name = textPtr (gl_Name claims),
       user_EmailVerified = True, user_CreatedAt = 0, user_UpdatedAt = 0\<rparr> w1 = (r2, w2)" by fastforce
  obtain r3 w3 where 3: "UserRepository_ByEmail (su_postgres x) email w2 = (r3, w3)" by fastforce
  have users3: "db_users w3 = db_users w2" using UserReads_same(2) [OF 3] by (simp add: same_tables_def)
  consider (known) existing where "r1 = Inr existing"
      "attachGoogle (auth_service x) existing claims w1 = (Inr u, w')"
    | (created) "r2 = Inr u" "w' = w2"
    | (raced) err existing where "r2 = Inl err" "r3 = Inr existing"
      "attachGoogle (auth_service x) existing claims w3 = (Inr u, w')"
    using assms(1) e 1 2 3 by (auto simp: linkOrCreateGoogleUser_def split: sum.splits if_splits)
  then show ?thesis
  proof cases
    case known
    then show ?thesis using attachGoogle_Inr [OF known(2)] ByEmail_Inr [OF 1 [unfolded known(1)]] users1 assms(2) by auto
  next
    case created
    then show ?thesis using UserCreate_Inr 2 by fastforce
  next
    case raced
    have "db_users w2 = db_users w" using UserCreate_Inl 2 raced(1) users1 by metis
    with raced show ?thesis
      using attachGoogle_Inr [OF raced(3)] ByEmail_Inr [OF 3 [unfolded raced(2)]] users3 assms(2) by auto
  qed
qed

lemma resolve_Inr:
  assumes "resolveGoogleUser (auth_library x) (auth_service x) claims w = (Inr u, w')"
    and "distinct (map user_ID (db_users w))"
  shows "gl_EmailVerified claims \<and> gl_Email claims \<noteq> '''' \<and>
    user_GoogleSub u = Some (gl_Subject claims) \<and> u \<in> set (db_users w')"
proof -
  have ok: "gl_EmailVerified claims" "gl_Email claims \<noteq> ''''"
    using assms(1) by (auto simp: resolveGoogleUser_def split: if_splits)
  obtain r1 w1 where 1: "UserRepository_ByGoogleSub (gl_Subject claims) w = (r1, w1)" by fastforce
  have users1: "db_users w1 = db_users w" using UserReads_same(3) [OF 1] by (simp add: same_tables_def)
  consider "r1 = Inr u" "w' = w1"
    | "linkOrCreateGoogleUser (auth_library x) (auth_service x) claims w1 = (Inr u, w')"
    using assms(1) ok 1 by (auto simp: resolveGoogleUser_def split: sum.splits if_splits)
  then show ?thesis
  proof cases
    case 1
    then show ?thesis using ByGoogleSub_Inr \<open>UserRepository_ByGoogleSub _ w = _\<close> users1 ok by auto
  next
    case 2
    then show ?thesis using linkOrCreate_Inr users1 assms(2) ok by simp
  qed
qed

section \<open>The authorization code flow\<close>

lemma same_oauth_statements:
  "keeping same_oauth world_now" "keeping same_oauth (world_rand n)"
  "keeping same_oauth (UserRepository_ByID i)" "keeping same_oauth (UserRepository_ByEmail pg e)"
  "keeping same_oauth (UserRepository_ByGoogleSub sub)" "keeping same_oauth (UserRepository_Create pg usr)"
  by (rule keepingI; auto simp: same_oauth_def same_tables_def world_now_def world_rand_def
      dest: UserReads_same UserCreate_keeps)+

lemma same_oauth_resolve: "keeping same_oauth (resolveGoogleUser (auth_library x) (auth_service x) claims)"
  unfolding resolveGoogleUser_def [abs_def] linkOrCreateGoogleUser_def [abs_def] attachGoogle_def [abs_def]
    auth_service_sel repository_sel
  by (intro same_oauth.keeping_rules same_oauth_statements AttachGoogle_oauth)

lemma aside_sources: "keeping aside world_now" "keeping aside (world_rand n)"
  by (rule keepingI, erule aside_process)+

lemma aside_google:
  "keeping aside (gv_Verify (google_verifier out) tok)"
  "keeping aside (ge_Exchange (google_exchanger out) code v)"
  "keeping aside (NewOAuthSecret (auth_library x))"
  unfolding google_verifier_def google_exchanger_def GoogleVerifier.simps GoogleExchanger.simps
    NewOAuthSecret_def [abs_def] randomToken_def [abs_def] auth_library_sel
  by (intro aside.keeping_rules aside_sources)+

lemma same_oauth_secret: "keeping same_oauth (NewOAuthSecret (auth_library x))"
  unfolding NewOAuthSecret_def [abs_def] randomToken_def [abs_def] auth_library_sel
  by (intro same_oauth.keeping_rules same_oauth_statements)

lemma same_oauth_google:
  "keeping same_oauth (gv_Verify (google_verifier out) tok)"
  "keeping same_oauth (ge_Exchange (google_exchanger out) code v)"
  unfolding google_verifier_def google_exchanger_def GoogleVerifier.simps GoogleExchanger.simps
  by (intro same_oauth.keeping_rules same_oauth_statements)+

lemma CreateCode_Inr:
  assumes "GoogleOAuthRepository_CreateCode c w = (Inr u, w')"
  shows "db_oauth_codes w' = db_oauth_codes w @
    [c\<lparr>gc_CreatedAt := db_now w, gc_ExpiresAt := timestamptz (gc_ExpiresAt c), gc_UsedAt := None\<rparr>]"
    and "db_users w' = db_users w" and "db_oauth_states w' = db_oauth_states w"
proof -
  obtain r where s: "send (insert_oauth_code c) w = (r, w')" and r: "r = Inr ()"
    using assms by (auto simp: GoogleOAuthRepository_CreateCode_def split: prod.splits)
  from s show "db_oauth_codes w' = db_oauth_codes w @
    [c\<lparr>gc_CreatedAt := db_now w, gc_ExpiresAt := timestamptz (gc_ExpiresAt c), gc_UsedAt := None\<rparr>]"
    and "db_users w' = db_users w" and "db_oauth_states w' = db_oauth_states w"
    unfolding r by (rule send_cases; auto simp: insert_oauth_code_def same_tables_def split: if_splits)+
qed

lemma verify_google_keeps:
  assumes "verify_google (auth_service x) tok w = (r, w')"
  shows "aside w w' \<and> same_oauth w w'"
proof (cases "as_google (auth_service x)")
  case None
  with assms show ?thesis by (auto simp: verify_google_def aside_def same_oauth_def)
next
  case (Some v)
  then have v: "v = google_verifier (su_outside x)" by (auto simp: auth_service_def split: if_splits)
  obtain r1 w1 where 1: "gv_Verify v tok w = (r1, w1)" by fastforce
  then have "w' = w1" using assms Some by (auto simp: verify_google_def split: sum.splits)
  then show ?thesis using keepingD [OF aside_google(1) 1 [unfolded v]] keepingD [OF same_oauth_google(1) 1 [unfolded v]]
    by simp
qed

lemma verify_google_Inr:
  assumes "verify_google (auth_service x) tok w = (Inr claims, w')"
  shows "\<exists>t. out_verify (su_outside x) tok t = Inr claims"
proof -
  obtain v where v: "as_google (auth_service x) = Some v"
    using assms by (cases "as_google (auth_service x)") (auto simp: verify_google_def)
  then have "v = google_verifier (su_outside x)" by (auto simp: auth_service_def split: if_splits)
  with assms v have "out_verify (su_outside x) tok (fst (world_now w)) = Inr claims"
    by (auto simp: verify_google_def google_verifier_def split: prod.splits sum.splits)
  then show ?thesis ..
qed

text \<open>
  C26:
 A callback that succeeds was for a state that was stored and had not expired, and uses
  it up; Google has verified the address; the one new code has the hash of the returned one,
  is unused, expires after a minute and belongs to a user that carries the Google identity
  of the claims; the browser goes where the state says.
\<close>

theorem complete_flow_sound:
  assumes "CompleteGoogleFlow (auth_library x) (auth_service x) code state w = (Inr cb, w')"
    and "distinct (map user_ID (db_users w))"
  shows "\<exists>st. \<exists>claims :: GoogleClaims. \<exists>u at. st \<in>
 set (db_oauth_states w) \<and>
    gs_StateHash st = HashOAuthSecret (auth_library x) state \<and>
    timestamptz (fst (world_now w)) < gs_ExpiresAt st \<and>
    db_oauth_states w' = filter (\<lambda>s. \<not> takeable_state (HashOAuthSecret (auth_library x) state)
        (timestamptz (fst (world_now w))) s) (db_oauth_states w) \<and>
    (\<exists>tok t. out_verify (su_outside x) tok t = Inr claims) \<and> gl_EmailVerified claims \<and>
    user_GoogleSub u = Some (gl_Subject claims) \<and> u \<in> set (db_users w') \<and>
    db_oauth_codes w' = db_oauth_codes w @
      [\<lparr>gc_CodeHash = HashOAuthSecret (auth_library x) (cb_Code cb), gc_UserID = user_ID u, gc_CreatedAt = at,
        gc_ExpiresAt = timestamptz (Add (fst (world_now w)) googleCodeTTL), gc_UsedAt = None\<rparr>] \<and>
    cb_RedirectTo cb = (case gs_RedirectTo st of None \<Rightarrow> '''' | Some p \<Rightarrow> p)"
proof (rule auth_exchanger_cases)
  assume "as_exchanger (auth_service x) = None"
  with assms(1) show ?thesis by (simp add: CompleteGoogleFlow_def)
next
  assume e: "as_exchanger (auth_service x) = Some (google_exchanger (su_outside x))"
  let ?h = "HashOAuthSecret (auth_library x) state"
  obtain now w1 where 1: "world_now w = (now, w1)" by fastforce
  obtain r2 w2 where 2: "GoogleOAuthRepository_TakeState ?h now w1 = (r2, w2)" by fastforce
  have ne: "\<not> (code = '''' \<or> state = '''')" using assms(1) e by (auto simp: CompleteGoogleFlow_def)
  obtain st where r2: "r2 = Inr st"
    using assms(1) e ne 1 2 by (cases r2) (auto simp: CompleteGoogleFlow_def split: if_splits)
  obtain r3 w3 where 3: "ge_Exchange (google_exchanger (su_outside x)) code (gs_CodeVerifier st) w2 = (r3, w3)"
    by fastforce
  obtain tok where r3: "r3 = Inr tok"
    using assms(1) e ne 1 2 r2 3 by (cases r3) (auto simp: CompleteGoogleFlow_def)
  obtain r4 w4 where 4: "verify_google (auth_service x) tok w3 = (r4, w4)" by fastforce
  obtain claims where r4: "r4 = Inr claims"
    using assms(1) e ne 1 2 r2 3 r3 4 by (cases r4) (auto simp: CompleteGoogleFlow_def)
  obtain r5 w5 where 5: "resolveGoogleUser (auth_library x) (auth_service x) claims w4 = (r5, w5)" by fastforce
  obtain u where r5: "r5 = Inr u"
    using assms(1) e ne 1 2 r2 3 r3 4 r4 5 by (cases r5) (auto simp: CompleteGoogleFlow_def)
  obtain r6 w6 where 6: "NewOAuthSecret (auth_library x) w5 = (r6, w6)" by fastforce
  obtain oneTime where r6: "r6 = Inr oneTime"
    using assms(1) e ne 1 2 r2 3 r3 4 r4 5 r5 6 by (cases r6) (auto simp: CompleteGoogleFlow_def)
  let ?c = "\<lparr>gc_CodeHash = HashOAuthSecret (auth_library x) oneTime, gc_UserID = user_ID u, gc_CreatedAt = 0,
      gc_ExpiresAt = Add now googleCodeTTL, gc_UsedAt = None\<rparr>"
  obtain r7 w7 where 7: "GoogleOAuthRepository_CreateCode ?c w6 = (r7, w7)" by fastforce
  obtain z where r7: "r7 = Inr z"
    using assms(1) e ne 1 2 r2 3 r3 4 r4 5 r5 6 r6 7 by (cases r7) (auto simp: CompleteGoogleFlow_def)
  have cb: "cb = \<lparr>cb_Code = oneTime, cb_RedirectTo = (case gs_RedirectTo st of None \<Rightarrow> '''' | Some p \<Rightarrow> p)\<rparr>"
    and w': "w' = w7"
    using assms(1) e ne 1 2 r2 3 r3 4 r4 5 r5 6 r6 7 r7 by (auto simp: CompleteGoogleFlow_def)
  note T = TakeState_Inr [OF 2 [unfolded r2]] and C = CreateCode_Inr [OF 7 [unfolded r7]]
  have w1: "db_oauth_states w1 = db_oauth_states w" "db_oauth_codes w1 = db_oauth_codes w" "db_users w1 = db_users w"
    using 1 by (auto simp: world_now_def)
  have users: "db_users w4 = db_users w" and oauth4: "same_oauth w2 w4"
    using verify_google_keeps [OF 4] keepingD [OF aside_google(2) 3] keepingD [OF same_oauth_google(2) 3] T(5) w1
    by (auto simp: aside_def same_oauth_def same_tables_def)
  have R: "gl_EmailVerified claims" "user_GoogleSub u = Some (gl_Subject claims)" "u \<in> set (db_users w5)"
    using resolve_Inr [OF 5 [unfolded r5]] assms(2) users by auto
  have "same_oauth w4 w5" using keepingD [OF same_oauth_resolve 5] .
  moreover have "same_oauth w5 w6" "aside w5 w6"
    using keepingD [OF same_oauth_secret 6] keepingD [OF aside_google(3) 6] .
  ultimately have w6: "db_oauth_states w6 = db_oauth_states w2" "db_oauth_codes w6 = db_oauth_codes w2"
      "db_users w6 = db_users w5"
    using oauth4 by (auto simp: same_oauth_def aside_def)
  have w2: "db_oauth_codes w2 = db_oauth_codes w" using T(5) w1 by (simp add: same_tables_def)
  have clock: "now = fst (world_now w)" using 1 by simp
  have V: "\<exists>tok t. out_verify (su_outside x) tok t = Inr claims"
    using verify_google_Inr [OF 4 [unfolded r4]] by blast
  have "db_oauth_codes w' = db_oauth_codes w @ [?c\<lparr>gc_CreatedAt := db_now w6,
      gc_ExpiresAt := timestamptz (gc_ExpiresAt ?c), gc_UsedAt := None\<rparr>]"
    using C(1) w6(2) w2 by (simp add: w')
  then have codes: "db_oauth_codes w' = db_oauth_codes w @
      [\<lparr>gc_CodeHash = HashOAuthSecret (auth_library x) (cb_Code cb), gc_UserID = user_ID u,
        gc_CreatedAt = db_now w6, gc_ExpiresAt = timestamptz (Add (fst (world_now w)) googleCodeTTL),
        gc_UsedAt = None\<rparr>]"
    by (simp add: cb clock)
  show ?thesis
    by (rule exI [of _ st], rule exI [of _ claims], rule exI [of _ u], rule exI [of _ "db_now w6"], intro conjI)
      (use T(1-4) R codes C(2,3) w6 w1 V in \<open>simp_all add: w' cb clock\<close>)
qed

section \<open>Where the browser is sent\<close>

text \<open>A path on the site itself: absolute, and not a network-path reference.\<close>

definition local_path :: "string \<Rightarrow> bool" where
  "local_path p \<longleftrightarrow> p = '''' \<or> HasPrefix p ''/'' \<and> \<not> HasPrefix p ''//''"

lemma safeRedirect_local: "local_path (safeRedirect p)"
  by (simp add: safeRedirect_def Let_def local_path_def)

lemma local_path_safeRedirect: "local_path p \<Longrightarrow> TrimSpace p = p \<Longrightarrow> safeRedirect p = p"
  by (auto simp: safeRedirect_def Let_def local_path_def)

definition local_state :: "GoogleOAuthState \<Rightarrow> bool" where
  "local_state s \<longleftrightarrow> opt_all local_path (gs_RedirectTo s)"

definition local_states :: "world \<Rightarrow> world \<Rightarrow> bool" where
  "local_states w w' \<longleftrightarrow> (list_all local_state (db_oauth_states w) \<longrightarrow> list_all local_state (db_oauth_states w'))"

lemma local_states_same: "db_oauth_states w' = db_oauth_states w \<Longrightarrow> local_states w w'"
  by (simp add: local_states_def)

lemma TokenOps_states:
  "keeping same_oauth (RefreshTokenRepository_Create t)" "keeping same_oauth (RefreshTokenRepository_Rotate i t)"
  "keeping same_oauth (RefreshTokenRepository_RevokeFamily f)"
proof -
  have st: "keeping same_oauth (insert_refresh_token_row t)" "keeping same_oauth (rotate_row i j)"
    "keeping same_oauth (revoke_family_rows f)" "keeping same_oauth (\<lambda>w. (r, w))"
    for t i j f and r :: "go_error + unit"
    by (auto simp: keeping_def same_oauth_def insert_refresh_token_row_def rotate_row_def
        revoke_family_rows_def Let_def)
  show "keeping same_oauth (RefreshTokenRepository_Create t)" "keeping same_oauth (RefreshTokenRepository_Rotate i t)"
    "keeping same_oauth (RefreshTokenRepository_RevokeFamily f)"
    unfolding RefreshTokenRepository_Create_def RefreshTokenRepository_Rotate_def
      RefreshTokenRepository_RevokeFamily_def Rotate_body_def [abs_def] RevokeFamily_body_def [abs_def]
      insertRefreshToken_def [abs_def] lockFamily_def [abs_def]
    by (intro same_oauth.keeping_rules same_oauth.keeping_send same_oauth.keeping_tx st)+
qed

lemma CreateState_local:
  assumes "gs_RedirectTo st = textPtr (safeRedirect p)"
    and "GoogleOAuthRepository_CreateState st w = (r, w')"
  shows "local_states w w'"
proof -
  obtain r1 where s: "send (insert_oauth_state st) w = (r1, w')"
    using assms(2) by (auto simp: GoogleOAuthRepository_CreateState_def split: prod.splits)
  have "local_state (st\<lparr>gs_CreatedAt := c, gs_ExpiresAt := e\<rparr>)" for c e
    using safeRedirect_local [of p] assms(1) by (simp add: local_state_def textPtr_def)
  with s show ?thesis
    by (auto simp: local_states_def insert_oauth_state_def same_tables_def elim!: send_cases split: if_splits)
qed

lemma TakeState_local:
  assumes "GoogleOAuthRepository_TakeState h now w = (r, w')"
  shows "local_states w w'"
proof -
  obtain r1 where s: "send (take_state_row h (timestamptz now)) w = (r1, w')"
    using assms by (auto simp: GoogleOAuthRepository_TakeState_def split: prod.splits)
  then show ?thesis
    by (auto simp: local_states_def take_state_row_def same_tables_def list_all_iff elim!: send_cases)
qed

interpretation local_states: service_relation local_states x for x
proof unfold_locales
  fix w w' :: world and st p h now and r :: "go_error + unit" and r2 :: "go_error + GoogleOAuthState"
  show "gs_RedirectTo st = textPtr (safeRedirect p) \<Longrightarrow>
      GoogleOAuthRepository_CreateState st w = (r, w') \<Longrightarrow> local_states w w'"
    by (rule CreateState_local)
  show "GoogleOAuthRepository_TakeState h now w = (r2, w') \<Longrightarrow> local_states w w'"
    by (rule TakeState_local)
qed (auto simp: local_states_def same_oauth_def same_tables_def world_now_def world_rand_def world_uuid_def
    dest!: UserCreate_keeps CreateCode_keeps TakeCode_keeps keepingD [OF AttachGoogle_oauth]
      keepingD [OF TokenOps_states(1)] keepingD [OF TokenOps_states(2)] keepingD [OF TokenOps_states(3)])

text \<open>
  C28: Whatever \<open>redirect_to\<close> clients pass when they start the Google flow, the path the
  callback hands to the frontend at the end of a flow is empty or a path on the site.
\<close>

theorem redirects_stay_local:
  assumes "(auth_step x)\<^sup>*\<^sup>* w0 w" and "db_oauth_states w0 = []"
    and "CompleteGoogleFlow (auth_library x) (auth_service x) code state w = (Inr cb, w')"
  shows "local_path (cb_RedirectTo cb)"
proof -
  have "local_states w0 w"
    by (rule local_states.auth_steps_R [OF assms(1)]) (simp add: local_states_def)
  then have all: "\<forall>s\<in>set (db_oauth_states w). local_state s"
    using assms(2) by (simp add: local_states_def list_all_iff)
  obtain now w1 where 1: "world_now w = (now, w1)" by fastforce
  obtain r2 w2 where 2: "GoogleOAuthRepository_TakeState (HashOAuthSecret (auth_library x) state) now w1 = (r2, w2)"
    by fastforce
  obtain st where "r2 = Inr st" and cb: "cb_RedirectTo cb = (case gs_RedirectTo st of None \<Rightarrow> '''' | Some p \<Rightarrow> p)"
    using assms(3) 1 2 by (cases r2)
      (auto simp: CompleteGoogleFlow_def split: option.splits if_splits prod.splits sum.splits)
  then have "st \<in> set (db_oauth_states w)"
    using TakeState_Inr(1) [of _ _ w1 st w2] 2 1 by (auto simp: world_now_def)
  with all have "local_state st" by blast
  then show ?thesis by (cases "gs_RedirectTo st") (auto simp: cb local_state_def local_path_def)
qed

section \<open>Access tokens\<close>



section \<open>Witnesses\<close>

definition ex_claims :: GoogleClaims where
  "ex_claims = \<lparr>gl_Subject = ''g'', gl_Email = ''a@b'', gl_EmailVerified = True, gl_Name = ''A''\<rparr>"

theorem google_link_witness:
  "\<exists>u' w'. attachGoogle ex_auth ex_user ex_claims (snd ex_login) = (Inr u', w') \<and> user_PasswordHash u' = None \<and>
     list_all Revoked (filter (\<lambda>t. rt_UserID t = 1) (db_refresh_tokens w'))"
proof -
  have "is_ok (fst (attachGoogle ex_auth ex_user ex_claims (snd ex_login)))" by code_simp
  then obtain u' w' where 1: "attachGoogle ex_auth ex_user ex_claims (snd ex_login) = (Inr u', w')"
    by (cases "attachGoogle ex_auth ex_user ex_claims (snd ex_login)") (auto simp: is_ok_iff)
  have users: "db_users (snd ex_login) = [ex_user]" by code_simp
  have "\<not> HasGoogle ex_user" "distinct (map user_ID (db_users (snd ex_login)))"
    by (simp_all add: users HasGoogle_def ex_user_def)
  from google_link [OF 1 this] show ?thesis using 1 by (auto simp: users ex_user_def list_all_iff)

qed

lemma ex_flow_back_eq:
  obtains cb where "CompleteGoogleFlow ex_lib ex_auth ''c'' ''cg'' (snd ex_flow_start) = (Inr cb, snd ex_flow_back)"
    and "fst ex_flow_back = Inr cb"
  using ex_flow_ok(1) by (auto simp: is_ok_iff ex_flow_back_def prod_eq_iff)

theorem complete_flow_sound_witness:
  "\<exists>cb st. fst ex_flow_back = Inr cb \<and> st \<in> set (db_oauth_states (snd ex_flow_start)) \<and>
     gs_StateHash st = ''#cg''"
proof (rule ex_flow_back_eq)
  fix cb
  assume 1: "CompleteGoogleFlow ex_lib ex_auth ''c'' ''cg'' (snd ex_flow_start) = (Inr cb, snd ex_flow_back)"
    and cb: "fst ex_flow_back = Inr cb"
  have "distinct (map user_ID (db_users (snd ex_flow_start)))" by code_simp
  from complete_flow_sound [OF 1 this] cb show ?thesis
    by (simp add: HashOAuthSecret_def hashToken_def ex_setup_def ex_library_def) blast
qed

theorem redirects_stay_local_witness:
  "\<exists>cb. fst ex_flow_back = Inr cb \<and> local_path (cb_RedirectTo cb)"
proof (rule ex_flow_back_eq)
  fix cb
  assume 1: "CompleteGoogleFlow ex_lib ex_auth ''c'' ''cg'' (snd ex_flow_start) = (Inr cb, snd ex_flow_back)"
    and cb: "fst ex_flow_back = Inr cb"
  have "db_oauth_states ex_start = []" by (simp add: ex_start_def ex_world_def)
  from redirects_stay_local [OF ex_flow_step this 1] cb show ?thesis by blast
qed




end
