(* ===== verification/GoURL.thy ===== *)
theory GoURL
  imports GoStrings
begin

text \<open>
  \<open>url.QueryEscape\<close> and \<open>url.Values\<close> of the package \<open>net/url\<close>: the query strings that the
  program builds. \<open>Encode\<close> lists the pairs in the order of their keys.
\<close>

definition unreserved :: "char \<Rightarrow> bool" where
  "unreserved c \<longleftrightarrow>
     (let n = (of_char c :: nat)
      in (65 \<le> n \<and> n \<le> 90) \<or> (97 \<le> n \<and> n \<le> 122) \<or> (48 \<le> n \<and> n \<le> 57) \<or> c \<in> {CHR ''-'', CHR ''_'', CHR ''.'', CHR ''~''})"

definition hex_digit :: "nat \<Rightarrow> char" where
  "hex_digit d = (if d < 10 then char_of (48 + d) else char_of (55 + d))"

definition escape_char :: "char \<Rightarrow> string" where
  "escape_char c =
     (if unreserved c then [c]
      else if c = CHR '' '' then ''+''
      else [CHR ''%'', hex_digit (of_char c div 16), hex_digit (of_char c mod 16)])"

definition QueryEscape :: "string \<Rightarrow> string" where
  "QueryEscape s = concat (map escape_char s)"

text \<open>
  \<open>url.Values\<close>: the values of each key. \<open>Set\<close> replaces the values of a key.
\<close>

type_synonym url_values = "(string \<times> string list) list"

definition Values_Set :: "string \<Rightarrow> string \<Rightarrow> url_values \<Rightarrow> url_values" where
  "Values_Set k v q = filter (\<lambda>p. fst p \<noteq> k) q @ [(k, [v])]"

definition encode_pairs :: "string \<times> string list \<Rightarrow> string list" where
  "encode_pairs p = map (\<lambda>v. QueryEscape (fst p) @ ''='' @ QueryEscape v) (snd p)"

fun join_with :: "string \<Rightarrow> string list \<Rightarrow> string" where
  "join_with sep [] = ''''"
| "join_with sep [x] = x"
| "join_with sep (x # y # r) = x @ sep @ join_with sep (y # r)"

text \<open>The order of Go strings is that of their bytes.\<close>

definition bytes_of :: "string \<Rightarrow> nat list" where
  "bytes_of s = map of_char s"

fun bytes_less_eq :: "nat list \<Rightarrow> nat list \<Rightarrow> bool" where
  "bytes_less_eq [] _ = True"
| "bytes_less_eq (x # xs) [] = False"
| "bytes_less_eq (x # xs) (y # ys) = (x < y \<or> (x = y \<and> bytes_less_eq xs ys))"

fun insert_pair :: "string \<times> string list \<Rightarrow> url_values \<Rightarrow> url_values" where
  "insert_pair p [] = [p]"
| "insert_pair p (q # r) =
     (if bytes_less_eq (bytes_of (fst p)) (bytes_of (fst q)) then p # q # r else q # insert_pair p r)"

definition sort_pairs :: "url_values \<Rightarrow> url_values" where
  "sort_pairs q = foldr insert_pair q []"

definition Values_Encode :: "url_values \<Rightarrow> string" where
  "Values_Encode q = join_with ''&'' (concat (map encode_pairs (sort_pairs q)))"

section \<open>No separator gets through\<close>

definition query_safe :: "char \<Rightarrow> bool" where
  "query_safe c \<longleftrightarrow> unreserved c \<or> c = CHR ''+'' \<or> c = CHR ''%''"

lemma hex_digit_unreserved: "d < 16 \<Longrightarrow> unreserved (hex_digit d)"
  by (auto simp: hex_digit_def unreserved_def Let_def)

lemma escape_char_safe: "c \<in> set (escape_char d) \<Longrightarrow> query_safe c"
proof -
  have "(of_char d :: nat) < 256" by (rule of_char_less_256)
  then have "(of_char d :: nat) div 16 < 16" "(of_char d :: nat) mod 16 < 16"
    by (simp_all add: less_mult_imp_div_less)
  then show "c \<in> set (escape_char d) \<Longrightarrow> query_safe c"
    by (auto simp: escape_char_def query_safe_def hex_digit_unreserved split: if_splits)
qed

lemma QueryEscape_safe: "list_all query_safe (QueryEscape s)"
  by (auto simp: QueryEscape_def list_all_iff dest: escape_char_safe)

end
