(* ===== verification/GoogleClient.thy ===== *)
theory GoogleClient
  imports AuthService GoURL "HOL-Library.AList"
begin

text \<open>
  \<open>internal/auth/google.go\<close> and \<open>google_code.go\<close>: checking Google's id-tokens with keys that
  are fetched and cached, and exchanging an authorization code for an id-token.

  \<open>jwt_rs256\<close> is the JWT library for RS256 tokens: \<open>jr_parse\<close> splits a token into the \<open>kid\<close>
  of its header and its claims, \<open>jr_signed\<close> checks the signature with a key, and
  \<open>jr_claims_ok aud now raw\<close> the audience and the times of the claims. \<open>network\<close> is the
  clock and the HTTP client. The verifier's mutable fields are the record \<open>verifier\<close>, so an
  operation runs on a pair of the verifier and the state \<open>'w\<close> behind the network.
\<close>

definition jwksMinTTL :: duration where "jwksMinTTL = Minute"
definition jwksMaxTTL :: duration where "jwksMaxTTL = 24 * Hour"
definition jwksFallbackTTL :: duration where "jwksFallbackTTL = Hour"
definition jwksMinRefetch :: duration where "jwksMinRefetch = Minute"

definition GoogleJWKSURL :: string where
  "GoogleJWKSURL = ''https://www.googleapis.com/oauth2/v3/certs''"

definition googleIssuers :: "string list" where
  "googleIssuers = [''accounts.google.com'', ''https://accounts.google.com'']"

record rsa_key =
  rk_N :: int
  rk_E :: int

record jwk =
  jk_Kid :: string
  jk_Kty :: string
  jk_Alg :: string
  jk_N :: string
  jk_E :: string

record jwks_response =
  jw_StatusCode :: int
  jw_CacheControl :: string
  jw_Keys :: "string + jwk list"

record id_claims =
  ic_Email :: string
  ic_EmailVerified :: "string option"
  ic_Name :: string
  ic_Issuer :: string
  ic_Subject :: string

record jwt_rs256 =
  jr_parse :: "string \<Rightarrow> (string option \<times> id_claims) option"
  jr_signed :: "rsa_key \<Rightarrow> string \<Rightarrow> bool"
  jr_claims_ok :: "string \<Rightarrow> time \<Rightarrow> string \<Rightarrow> bool"

record token_response =
  tk_StatusCode :: int
  tk_IDToken :: string
  tk_Error :: string
  tk_ErrorDescription :: string

record 'w network =
  nt_now :: "'w \<Rightarrow> time \<times> 'w"
  nt_request_error :: "string \<Rightarrow> string option"
  nt_get :: "string \<Rightarrow> 'w \<Rightarrow> (string + jwks_response) \<times> 'w"
  nt_post_form :: "string \<Rightarrow> string \<Rightarrow> 'w \<Rightarrow> (string + (string + token_response)) \<times> 'w"

record verifier =
  gk_clientID :: string
  gk_jwksURL :: string
  gk_keys :: "(string \<times> rsa_key) list"
  gk_freshTill :: time
  gk_nextFetch :: time

definition NewGoogleVerifier :: "string \<Rightarrow> string \<Rightarrow> verifier" where
  "NewGoogleVerifier clientID jwksURL =
     \<lparr>gk_clientID = clientID, gk_jwksURL = (if jwksURL = '''' then GoogleJWKSURL else jwksURL),
      gk_keys = [], gk_freshTill = 0, gk_nextFetch = 0\<rparr>"

section \<open>Keys\<close>

definition decodeBase64URL :: "string \<Rightarrow> string option" where
  "decodeBase64URL s =
     (case RawURL_DecodeString s of Some b \<Rightarrow> Some b | None \<Rightarrow> URL_DecodeString s)"

text \<open>\<open>big.Int.SetBytes\<close>: big-endian. \<open>Int64\<close> keeps the low 64 bits.\<close>

definition SetBytes :: "string \<Rightarrow> int" where
  "SetBytes b = foldl (\<lambda>a c. 256 * a + of_char c) 0 b"

definition rsaPublicKey :: "string \<Rightarrow> string \<Rightarrow> rsa_key option" where
  "rsaPublicKey nRaw eRaw =
     (case decodeBase64URL nRaw of
        None \<Rightarrow> None
      | Some n \<Rightarrow>
          (case decodeBase64URL eRaw of
             None \<Rightarrow> None
           | Some e \<Rightarrow>
               (if length n = 0 \<or> length e = 0 \<or> length e > 8 then None
                else Some \<lparr>rk_N = SetBytes n, rk_E = wrap64 (SetBytes e)\<rparr>)))"

text \<open>The loop over the keys of the document; a key that cannot be used is skipped.\<close>

fun usable_keys :: "jwk list \<Rightarrow> (string \<times> rsa_key) list \<Rightarrow> (string \<times> rsa_key) list" where
  "usable_keys [] keys = keys"
| "usable_keys (k # ks) keys =
     (if jk_Kid k = '''' \<or> jk_Kty k \<noteq> ''RSA'' \<or> (jk_Alg k \<noteq> '''' \<and> jk_Alg k \<noteq> ''RS256'') then usable_keys ks keys
      else
        (case rsaPublicKey (jk_N k) (jk_E k) of
           None \<Rightarrow> usable_keys ks keys
         | Some pub \<Rightarrow> usable_keys ks (AList.update (jk_Kid k) pub keys)))"

text \<open>The product with \<open>time.Second\<close> wraps around; a bad number ends the loop.\<close>

fun jwksTTL_parts :: "string list \<Rightarrow> duration" where
  "jwksTTL_parts [] = jwksFallbackTTL"
| "jwksTTL_parts (part # parts) =
     (case CutPrefix (TrimSpace part) ''max-age='' of
        None \<Rightarrow> jwksTTL_parts parts
      | Some v \<Rightarrow>
          (case Atoi (TrimSpace v) of
             None \<Rightarrow> jwksFallbackTTL
           | Some seconds \<Rightarrow>
               (if seconds \<le> 0 then jwksFallbackTTL
                else min (max (wrap64 (seconds * Second)) jwksMinTTL) jwksMaxTTL)))"

definition jwksTTL :: "string \<Rightarrow> duration" where
  "jwksTTL cacheControl = jwksTTL_parts (Split cacheControl (CHR '',''))"

definition cachedKey :: "'w network \<Rightarrow> string \<Rightarrow> verifier \<times> 'w \<Rightarrow> (rsa_key option \<times> bool) \<times> 'w" where
  "cachedKey net kid = (\<lambda>(v, w).
     (case map_of (gk_keys v) kid of
        None \<Rightarrow> ((None, False), w)
      | Some key \<Rightarrow>
          (case nt_now net w of (t, w1) \<Rightarrow> ((Some key, Before t (gk_freshTill v)), w1))))"

text \<open>\<open>refreshKeys\<close> under its mutex: \<open>None\<close> is a nil error.\<close>

definition refreshKeys :: "'w network \<Rightarrow> verifier \<times> 'w \<Rightarrow> go_error option \<times> (verifier \<times> 'w)" where
  "refreshKeys net = (\<lambda>(v, w).
     (case nt_now net w of
        (now, w1) \<Rightarrow>
          (if Before now (gk_nextFetch v) then (Some Auth_errJWKSThrottled, (v, w1))
           else
             (case nt_now net w1 of
                (now2, w2) \<Rightarrow>
                  (let v = v\<lparr>gk_nextFetch := Add now2 jwksMinRefetch\<rparr>
                   in case nt_request_error net (gk_jwksURL v) of
                        Some e \<Rightarrow> (Some (Wrapped ''auth: build jwks request: '' (OtherErr e) ''''), (v, w2))
                      | None \<Rightarrow>
                          (case nt_get net (gk_jwksURL v) w2 of
                             (Inl e, w3) \<Rightarrow>
                               (Some (Wrapped ''auth: fetch jwks: '' (OtherErr e) ''''), (v, w3))
                           | (Inr resp, w3) \<Rightarrow>
                               (if jw_StatusCode resp \<noteq> 200 then
                                  (Some (OtherErr (''auth: jwks returned status '' @ FormatInt (jw_StatusCode resp))), (v, w3))
                                else
                                  (case jw_Keys resp of
                                     Inl e \<Rightarrow> (Some (Wrapped ''auth: decode jwks: '' (OtherErr e) ''''), (v, w3))
                                   | Inr doc \<Rightarrow>
                                       (let keys = usable_keys doc []
                                        in if keys = []
                                           then (Some (OtherErr ''auth: jwks has no usable RSA keys''), (v, w3))
                                           else
                                             (case nt_now net w3 of
                                                (now3, w4) \<Rightarrow>
                                                  (None,
                                                   (v\<lparr>gk_keys := keys,
                                                      gk_freshTill := Add now3 (jwksTTL (jw_CacheControl resp))\<rparr>,
                                                    w4))))))))))))"

definition keyForToken ::
    "'w network \<Rightarrow> string option \<Rightarrow> verifier \<times> 'w \<Rightarrow> (go_error + rsa_key) \<times> (verifier \<times> 'w)" where
  "keyForToken net hdr = (\<lambda>(v, w).
     (let kid = (case hdr of None \<Rightarrow> '''' | Some k \<Rightarrow> k)
      in if kid = '''' then (Inl (OtherErr ''auth: google id-token header has no kid''), (v, w))
         else
           (case cachedKey net kid (v, w) of
              ((key, fresh), w1) \<Rightarrow>
                (if fresh then (Inr (the key), (v, w1))
                 else
                   (case refreshKeys net (v, w1) of
                      (err, (v2, w2)) \<Rightarrow>
                        (case cachedKey net kid (v2, w2) of
                           ((refreshed, ok), w3) \<Rightarrow>
                             (if ok then (Inr (the refreshed), (v2, w3))
                              else
                                (case (err, key) of
                                   (Some e, Some k) \<Rightarrow> (Inr k, (v2, w3))
                                 | (Some e, None) \<Rightarrow> (Inl e, (v2, w3))
                                 | (None, _) \<Rightarrow>
                                     (Inl (OtherErr (''auth: google has no key with kid '' @ kid)), (v2, w3))))))))))"

section \<open>Id-tokens\<close>

text \<open>\<open>flexBool\<close>: \<open>None\<close> is an error. \<open>Trim\<close> takes quotes away on both sides.\<close>

definition trim_quotes :: "string \<Rightarrow> string" where
  "trim_quotes s = TrimRight (dropWhile (\<lambda>c. c = CHR 0x22) s) [CHR 0x22]"

definition flexBool :: "string \<Rightarrow> bool option" where
  "flexBool data =
     (let s = trim_quotes data
      in if s = ''true'' then Some True
         else if s = ''false'' \<or> s = ''null'' \<or> s = '''' then Some False
         else None)"

text \<open>An absent field stays false.\<close>

definition email_verified :: "id_claims \<Rightarrow> bool option" where
  "email_verified c = (case ic_EmailVerified c of None \<Rightarrow> Some False | Some raw \<Rightarrow> flexBool raw)"

text \<open>
  \<open>jwt.ParseWithClaims\<close>: the token is split and its claims decoded, the key is looked up,
  the signature and then the claims are checked. An error leaves no claims.
\<close>

definition ParseWithClaims ::
    "jwt_rs256 \<Rightarrow> 'w network \<Rightarrow> string \<Rightarrow> verifier \<times> 'w \<Rightarrow> (go_error + (id_claims \<times> bool)) \<times> (verifier \<times> 'w)" where
  "ParseWithClaims jwt net raw = (\<lambda>(v, w).
     (case jr_parse jwt raw of
        None \<Rightarrow> (Inl (OtherErr ''token is malformed''), (v, w))
      | Some (hdr, c) \<Rightarrow>
          (case email_verified c of
             None \<Rightarrow> (Inl (OtherErr ''token is malformed''), (v, w))
           | Some verified \<Rightarrow>
               (case keyForToken net hdr (v, w) of
                  (Inl err, vw1) \<Rightarrow> (Inl (Wrapped ''token is unverifiable: '' err ''''), vw1)
                | (Inr key, (v1, w1)) \<Rightarrow>
                    (if \<not> jr_signed jwt key raw then (Inl (OtherErr ''token signature is invalid''), (v1, w1))
                     else
                       (case nt_now net w1 of
                          (now, w2) \<Rightarrow>
                            (if \<not> jr_claims_ok jwt (gk_clientID v1) now raw
                             then (Inl (OtherErr ''token has invalid claims''), (v1, w2))
                             else (Inr (c, verified), (v1, w2)))))))))"

definition invalid_id_token :: "string \<Rightarrow> go_error" where
  "invalid_id_token why = Wrapped '''' Auth_ErrInvalidGoogleToken ('': '' @ why)"

definition Verify ::
    "jwt_rs256 \<Rightarrow> 'w network \<Rightarrow> string \<Rightarrow> verifier \<times> 'w \<Rightarrow> (go_error + GoogleClaims) \<times> (verifier \<times> 'w)" where
  "Verify jwt net raw vw =
     (case ParseWithClaims jwt net raw vw of
        (Inl err, vw1) \<Rightarrow> (Inl (invalid_id_token (error_text err)), vw1)
      | (Inr (c, verified), vw1) \<Rightarrow>
          (if ic_Issuer c \<notin> set googleIssuers then (Inl (invalid_id_token (''unexpected issuer '' @ ic_Issuer c)), vw1)
           else if ic_Subject c = '''' then (Inl (invalid_id_token ''empty sub''), vw1)
           else (Inr \<lparr>gl_Subject = ic_Subject c, gl_Email = TrimSpace (ic_Email c),
                      gl_EmailVerified = verified, gl_Name = TrimSpace (ic_Name c)\<rparr>, vw1)))"

section \<open>The authorization code\<close>

definition googleScope :: string where "googleScope = ''openid email profile''"

record exchanger =
  ex_clientID :: string
  ex_clientSecret :: string
  ex_redirectURL :: string
  ex_authURL :: string
  ex_tokenURL :: string

definition NewGoogleExchanger :: "string \<Rightarrow> string \<Rightarrow> string \<Rightarrow> string \<Rightarrow> string \<Rightarrow> exchanger" where
  "NewGoogleExchanger clientID clientSecret redirectURL authURL tokenURL =
     \<lparr>ex_clientID = clientID, ex_clientSecret = clientSecret, ex_redirectURL = redirectURL,
      ex_authURL = authURL, ex_tokenURL = tokenURL\<rparr>"

definition AuthCodeURL :: "exchanger \<Rightarrow> string \<Rightarrow> string \<Rightarrow> string" where
  "AuthCodeURL e state challenge =
     ex_authURL e @ ''?'' @ Values_Encode
       [(''client_id'', [ex_clientID e]), (''redirect_uri'', [ex_redirectURL e]),
        (''response_type'', [''code'']), (''scope'', [googleScope]), (''state'', [state]),
        (''code_challenge'', [challenge]), (''code_challenge_method'', [''S256'']),
        (''access_type'', [''online'']), (''prompt'', [''select_account''])]"

text \<open>The error of the client, then the error of decoding the body, then the answer.\<close>

definition Exchange :: "'w network \<Rightarrow> exchanger \<Rightarrow> string \<Rightarrow> string \<Rightarrow> ('w, string) op" where
  "Exchange net e code codeVerifier w =
     (let form = [(''client_id'', [ex_clientID e]), (''client_secret'', [ex_clientSecret e]),
                  (''code'', [code]), (''code_verifier'', [codeVerifier]),
                  (''grant_type'', [''authorization_code'']), (''redirect_uri'', [ex_redirectURL e])]
      in case nt_request_error net (ex_tokenURL e) of
           Some err \<Rightarrow> (Inl (Wrapped ''auth: build token request: '' (OtherErr err) ''''), w)
         | None \<Rightarrow>
             (case nt_post_form net (ex_tokenURL e) (Values_Encode form) w of
                (Inl err, w1) \<Rightarrow> (Inl (Wrapped ''auth: exchange authorization code: '' (OtherErr err) ''''), w1)
              | (Inr (Inl err), w1) \<Rightarrow> (Inl (Wrapped ''auth: decode token response: '' (OtherErr err) ''''), w1)
              | (Inr (Inr body), w1) \<Rightarrow>
                  (if tk_StatusCode body \<noteq> 200 \<or> tk_Error body \<noteq> ''''
                     then (Inl (invalid_id_token (''google returned '' @ FormatInt (tk_StatusCode body) @ '' '' @
                                  tk_Error body @ '' '' @ tk_ErrorDescription body)), w1)
                   else if tk_IDToken body = ''''
                     then (Inl (invalid_id_token ''token response has no id_token''), w1)
                   else (Inr (tk_IDToken body), w1))))"

end
