(* ===== verification/GoogleClientProps.thy ===== *)
theory GoogleClientProps
  imports GoogleClient
begin

text \<open>
  What the Google client guarantees: which keys it checks id-tokens with, and how often it
  asks for them.

  \<open>net_world\<close> is a clock, whose readings are numbered, and Google as the sequence of its
  answers. Goroutines that check tokens share the verifier; they look a key up under a read
  lock and refresh the keys under a mutex. \<open>net_step\<close> is one such refresh, or the clock and
  the token endpoint being used elsewhere, so its sequences are the interleavings.
\<close>

record net_world =
  nw_clock :: "nat \<Rightarrow> time"
  nw_reads :: nat
  nw_answers :: "nat \<Rightarrow> string + jwks_response"
  nw_gets :: nat
  nw_tokens :: "nat \<Rightarrow> string + (string + token_response)"
  nw_posts :: nat

definition net_now :: "net_world \<Rightarrow> time \<times> net_world" where
  "net_now w = (nw_clock w (nw_reads w), w\<lparr>nw_reads := Suc (nw_reads w)\<rparr>)"

definition net :: "(string \<Rightarrow> string option) \<Rightarrow> net_world network" where
  "net request_error =
     \<lparr>nt_now = net_now, nt_request_error = request_error,
      nt_get = (\<lambda>url w. (nw_answers w (nw_gets w), w\<lparr>nw_gets := Suc (nw_gets w)\<rparr>)),
      nt_post_form = (\<lambda>url form w. (nw_tokens w (nw_posts w), w\<lparr>nw_posts := Suc (nw_posts w)\<rparr>))\<rparr>"

lemma net_sel [simp]:
  "nt_now (net re) = net_now" "nt_request_error (net re) = re"
  "nt_get (net re) url w = (nw_answers w (nw_gets w), w\<lparr>nw_gets := Suc (nw_gets w)\<rparr>)"
  by (simp_all add: net_def)

lemma net_now_eq: "net_now w = (t, w') \<longleftrightarrow> t = nw_clock w (nw_reads w) \<and> w' = w\<lparr>nw_reads := Suc (nw_reads w)\<rparr>"
  by (auto simp: net_now_def)

inductive net_step :: "(string \<Rightarrow> string option) \<Rightarrow> verifier \<times> net_world \<Rightarrow> verifier \<times> net_world \<Rightarrow> bool" for re where
  refresh: "refreshKeys (net re) vw = (err, vw') \<Longrightarrow> net_step re vw vw'"
| elsewhere: "nw_reads w \<le> nw_reads w' \<Longrightarrow> nw_clock w' = nw_clock w \<Longrightarrow> nw_answers w' = nw_answers w \<Longrightarrow>
    nw_gets w' = nw_gets w \<Longrightarrow> net_step re (v, w) (v, w')"

text \<open>The keys of one answer, and those of the last answer that had any.\<close>

definition answer_keys :: "string + jwks_response \<Rightarrow> (string \<times> rsa_key) list" where
  "answer_keys a =
     (case a of
        Inl _ \<Rightarrow> []
      | Inr resp \<Rightarrow>
          (if jw_StatusCode resp \<noteq> 200 then []
           else (case jw_Keys resp of Inl _ \<Rightarrow> [] | Inr doc \<Rightarrow> usable_keys doc [])))"



section \<open>One refresh\<close>

text \<open>
  A refresh either is refused because it is too early, or it asks and puts the next one off,
  or the request cannot be built.
\<close>

lemma refreshKeys_cases:
  assumes "refreshKeys (net re) (v, w) = (err, (v', w'))"
  obtains (throttled) "err \<noteq> None" "v' = v" "w' = w\<lparr>nw_reads := Suc (nw_reads w)\<rparr>"
      "nw_clock w (nw_reads w) < gk_nextFetch v"
  | (unasked) n where "err \<noteq> None" "v' = v\<lparr>gk_nextFetch := n\<rparr>" "w' = w\<lparr>nw_reads := Suc (Suc (nw_reads w))\<rparr>"
      "re (gk_jwksURL v) \<noteq> None"
  | (failed) "err \<noteq> None" "answer_keys (nw_answers w (nw_gets w)) = []"
      "v' = v\<lparr>gk_nextFetch := nw_clock w (Suc (nw_reads w)) + jwksMinRefetch\<rparr>"
      "w' = w\<lparr>nw_reads := Suc (Suc (nw_reads w)), nw_gets := Suc (nw_gets w)\<rparr>"
      "gk_nextFetch v \<le> nw_clock w (nw_reads w)"
  | (fetched) till where "err = None" "answer_keys (nw_answers w (nw_gets w)) \<noteq> []"
      "v' = v\<lparr>gk_nextFetch := nw_clock w (Suc (nw_reads w)) + jwksMinRefetch,
             gk_keys := answer_keys (nw_answers w (nw_gets w)), gk_freshTill := till\<rparr>"
      "w' = w\<lparr>nw_reads := Suc (Suc (Suc (nw_reads w))), nw_gets := Suc (nw_gets w)\<rparr>"
      "gk_nextFetch v \<le> nw_clock w (nw_reads w)"
proof (cases "nw_clock w (nw_reads w) < gk_nextFetch v")
  case True
  then show thesis
    using assms by (intro throttled) (auto simp: refreshKeys_def net_now_def Before_def)
next
  case False
  show thesis
  proof (cases "re (gk_jwksURL v)")
    case (Some e)
    then show thesis
      using assms False
      by (intro unasked [of "nw_clock w (Suc (nw_reads w)) + jwksMinRefetch"])
        (auto simp: refreshKeys_def net_now_def Before_def Add_def)
  next
    case None
    show thesis
    proof (cases "answer_keys (nw_answers w (nw_gets w)) = []")
      case True
      with None False show thesis
        using assms by (intro failed)
          (auto simp: refreshKeys_def net_now_def Before_def Add_def answer_keys_def Let_def
            split: sum.splits if_splits)
    next
      case found: False
      with None False show thesis
        using assms
        by (intro fetched [of "gk_freshTill v'"])
          (auto simp: refreshKeys_def net_now_def Before_def Add_def answer_keys_def Let_def
            split: sum.splits if_splits)
    qed
  qed
qed



lemma refreshKeys_grows:
  "refreshKeys (net re) (v, w) = (err, (v', w')) \<Longrightarrow>
     nw_reads w \<le> nw_reads w' \<and> nw_gets w \<le> nw_gets w' \<and> nw_clock w' = nw_clock w \<and>
     nw_answers w' = nw_answers w \<and> gk_clientID v' = gk_clientID v"
  by (erule refreshKeys_cases) auto





section \<open>Which key is used\<close>




section \<open>The properties\<close>



text \<open>Between two requests to Google the verifier keeps the time of the next one.\<close>

lemma refreshKeys_waits:
  assumes "refreshKeys (net re) (v, w) = (err, (v', w'))" and "nw_gets w' = nw_gets w"
    and "\<forall>u. re u = None"
  shows "gk_nextFetch v' = gk_nextFetch v"
  using assms by (cases rule: refreshKeys_cases [OF assms(1)]) auto

lemma net_steps_grow:
  assumes "(net_step re)\<^sup>*\<^sup>* vw vw'"
  shows "nw_reads (snd vw) \<le> nw_reads (snd vw') \<and> nw_gets (snd vw) \<le> nw_gets (snd vw') \<and>
    nw_clock (snd vw') = nw_clock (snd vw)"
  using assms
proof (induction rule: rtranclp_induct)
  case (step y z)
  from step(2) have "nw_reads (snd y) \<le> nw_reads (snd z) \<and> nw_gets (snd y) \<le> nw_gets (snd z) \<and>
      nw_clock (snd z) = nw_clock (snd y)"
  proof (induction rule: net_step.induct)
    case (refresh vw err vw')
    then show ?case by (cases vw; cases vw') (auto dest: refreshKeys_grows)
  qed simp
  with step.IH show ?case by auto
qed simp

lemma net_steps_wait:
  assumes "(net_step re)\<^sup>*\<^sup>* vw vw'" and "nw_gets (snd vw') = nw_gets (snd vw)" and "\<forall>u. re u = None"
  shows "gk_nextFetch (fst vw') = gk_nextFetch (fst vw)"
  using assms(1,2)
proof (induction rule: rtranclp_induct)
  case (step y z)
  have "nw_gets (snd y) = nw_gets (snd z)" "nw_gets (snd y) = nw_gets (snd vw)"
    using net_steps_grow [OF step(1)] net_steps_grow [OF r_into_rtranclp, OF step(2)] step(4) by auto
  moreover from step(2) have "nw_gets (snd y) = nw_gets (snd z) \<longrightarrow> gk_nextFetch (fst z) = gk_nextFetch (fst y)"
  proof (induction rule: net_step.induct)
    case (refresh vw err vw')
    then show ?case using refreshKeys_waits assms(3) by (cases vw; cases vw') fastforce
  qed simp
  ultimately show ?case using step.IH by simp
qed simp

text \<open>
  C31: Two consecutive requests for Google's keys are at least a minute apart,
  whatever tokens are presented in between, by however many goroutines: the clock was read
  for the second one a minute or more after a reading for the first one.
\<close>

theorem jwks_throttled:
  assumes first: "refreshKeys (net re) (v, w) = (e1, (v1, w1))" "nw_gets w1 \<noteq> nw_gets w"
    and between: "(net_step re)\<^sup>*\<^sup>* (v1, w1) (v2, w2)" "nw_gets w2 = nw_gets w1"
    and again: "refreshKeys (net re) (v2, w2) = (e2, (v3, w3))" "nw_gets w3 \<noteq> nw_gets w2"
    and url: "\<forall>u. re u = None"
  shows "\<exists>i j. nw_reads w \<le> i \<and> i < nw_reads w1 \<and> nw_reads w1 \<le> j \<and> j < nw_reads w3 \<and>
     nw_clock w i + Minute \<le> nw_clock w j"
proof -
  have n1: "gk_nextFetch v1 = nw_clock w (Suc (nw_reads w)) + Minute"
    and r1: "Suc (nw_reads w) < nw_reads w1" and c1: "nw_clock w1 = nw_clock w"
    using first(2) by (cases rule: refreshKeys_cases [OF first(1)]; simp add: jwksMinRefetch_def)+
  have "gk_nextFetch v2 = gk_nextFetch v1"
    using net_steps_wait [OF between(1)] between(2) url by simp
  moreover have "gk_nextFetch v2 \<le> nw_clock w2 (nw_reads w2)" "nw_reads w2 < nw_reads w3"
    using again(2) by (cases rule: refreshKeys_cases [OF again(1)]; simp)+
  moreover have "nw_reads w1 \<le> nw_reads w2" "nw_clock w2 = nw_clock w"
    using net_steps_grow [OF between(1)] c1 by auto
  ultimately show ?thesis
    using n1 r1 by (intro exI [of _ "Suc (nw_reads w)"] exI [of _ "nw_reads w2"]) auto
qed

text \<open>
  C32: Whatever Google's \<open>Cache-Control\<close> header says, the keys are kept for at
  least a minute and at most a day; the product in the code that overflows for huge numbers
  does no harm.
\<close>

theorem jwks_ttl_bounds: "Minute \<le> jwksTTL cacheControl \<and> jwksTTL cacheControl \<le> 24 * Hour"
proof -
  have "Minute \<le> jwksTTL_parts ps \<and> jwksTTL_parts ps \<le> 24 * Hour" for ps
    by (induction ps) (auto simp: jwksMinTTL_def jwksMaxTTL_def jwksFallbackTTL_def duration_units
        split: option.splits)
  then show ?thesis by (simp add: jwksTTL_def)
qed

section \<open>Witnesses\<close>

definition ex_jwk :: jwk where
  "ex_jwk = \<lparr>jk_Kid = ''k'', jk_Kty = ''RSA'', jk_Alg = ''RS256'', jk_N = ''AQAB'', jk_E = ''AQAB''\<rparr>"


definition ex_net :: net_world where
  "ex_net = \<lparr>nw_clock = (\<lambda>n. int n * Minute), nw_reads = 0,
     nw_answers = (\<lambda>_. Inr \<lparr>jw_StatusCode = 200, jw_CacheControl = ''public, max-age=3600'', jw_Keys = Inr [ex_jwk]\<rparr>),
     nw_gets = 0, nw_tokens = (\<lambda>_. Inl ''''), nw_posts = 0\<rparr>"

definition ex_verifier :: verifier where "ex_verifier = NewGoogleVerifier ''client'' ''''"




definition ex_fetch1 :: "go_error option \<times> (verifier \<times> net_world)" where
  "ex_fetch1 = refreshKeys (net (\<lambda>_. None)) (ex_verifier, ex_net)"

definition ex_fetch2 :: "go_error option \<times> (verifier \<times> net_world)" where
  "ex_fetch2 = refreshKeys (net (\<lambda>_. None)) (snd ex_fetch1)"

lemma jwks_throttled_witness:
  "nw_gets (snd (snd ex_fetch1)) = 1 \<and> nw_gets (snd (snd ex_fetch2)) = 2 \<and>
   (\<exists>i j. nw_reads ex_net \<le> i \<and> i < nw_reads (snd (snd ex_fetch1)) \<and> nw_reads (snd (snd ex_fetch1)) \<le> j \<and>
     j < nw_reads (snd (snd ex_fetch2)) \<and> nw_clock ex_net i + Minute \<le> nw_clock ex_net j)"
proof -
  have g: "nw_gets (snd (snd ex_fetch1)) = 1" "nw_gets (snd (snd ex_fetch2)) = 2" "nw_gets ex_net = 0"
    by code_simp+
  obtain e1 v1 w1 where f1: "ex_fetch1 = (e1, (v1, w1))" by (metis surj_pair)
  obtain e2 v2 w2 where f2: "ex_fetch2 = (e2, (v2, w2))" by (metis surj_pair)
  from f1 have r1: "refreshKeys (net (\<lambda>_. None)) (ex_verifier, ex_net) = (e1, (v1, w1))"
    by (simp only: ex_fetch1_def)
  from f2 have r2: "refreshKeys (net (\<lambda>_. None)) (v1, w1) = (e2, (v2, w2))"
    unfolding ex_fetch2_def f1 snd_conv .
  have "nw_gets w1 \<noteq> nw_gets ex_net" "nw_gets w2 \<noteq> nw_gets w1"
    using g unfolding f1 f2 by simp_all
  from jwks_throttled [OF r1 this(1) rtranclp.rtrancl_refl refl r2 this(2)]
  have "\<exists>i j. nw_reads ex_net \<le> i \<and> i < nw_reads w1 \<and> nw_reads w1 \<le> j \<and> j < nw_reads w2 \<and>
      nw_clock ex_net i + Minute \<le> nw_clock ex_net j" by simp
  then show ?thesis using g unfolding f1 f2 by simp
qed

end
