(* ===== verification/Http.thy ===== *)
theory Http
  imports AuthTokens
begin

text \<open>
  A request and the \<open>gin.Context\<close> it is served with, the JSON values of the replies, and
  \<open>internal/response/response.go\<close>.

  A handler takes the context and the state of the process and returns both. A middleware
  gets the handler behind it as its \<open>c.Next()\<close>. \<open>cx_panic\<close> is set when a handler panics:
  nothing after it runs until \<open>Recovery\<close>. Replies are kept as JSON values with the names of
  the struct tags; times, dates and durations stand for the texts that \<open>encoding/json\<close> and
  \<open>Format\<close> make of them, \<open>JRaw\<close> for a \<open>json.RawMessage\<close>.
\<close>

datatype json =
    JNull
  | JBool bool
  | JInt int
  | JStr string
  | JTime time
  | JDate time
  | JDuration duration
  | JRaw string
  | JArr "json list"
  | JObj "(string \<times> json) list"

datatype chunk = JSON json | Text string | Frame int string json

text \<open>
  \<open>rq_query\<close> is what \<open>url\<close> reads in the raw query; \<open>rq_client_ip\<close> is what \<open>c.ClientIP()\<close> finds
  behind the trusted proxies.
\<close>

record request =
  rq_method :: string
  rq_path :: string
  rq_header :: "string \<Rightarrow> string"
  rq_raw_query :: string
  rq_query :: "string \<Rightarrow> string list"
  rq_body :: string
  rq_client_ip :: string

record "context" =
  cx_request :: request
  cx_full_path :: string
  cx_body_limit :: "int option"
  cx_user_id :: "int option"
  cx_role :: "Role option"
  cx_request_id :: "string option"
  cx_status :: int
  cx_headers :: "(string \<times> string) list"
  cx_wrote :: bool
  cx_written :: "chunk list"
  cx_aborted :: bool
  cx_panic :: "string option"

type_synonym 'w handler = "context \<times> 'w \<Rightarrow> context \<times> 'w"
type_synonym 'w middleware = "'w handler \<Rightarrow> 'w handler"

definition new_context :: "request \<Rightarrow> string \<Rightarrow> context" where
  "new_context r path =
     \<lparr>cx_request = r, cx_full_path = path, cx_body_limit = None, cx_user_id = None, cx_role = None,
      cx_request_id = None, cx_status = 200, cx_headers = [], cx_wrote = False, cx_written = [],
      cx_aborted = False, cx_panic = None\<rparr>"

section \<open>The methods of the context\<close>

definition GetHeader :: "context \<Rightarrow> string \<Rightarrow> string" where
  "GetHeader c key = rq_header (cx_request c) key"

definition QueryArray :: "context \<Rightarrow> string \<Rightarrow> string list" where
  "QueryArray c key = rq_query (cx_request c) key"

definition Query :: "context \<Rightarrow> string \<Rightarrow> string" where
  "Query c key = (case QueryArray c key of [] \<Rightarrow> '''' | v # _ \<Rightarrow> v)"

definition Header :: "string \<Rightarrow> string \<Rightarrow> context \<Rightarrow> context" where
  "Header key val c = c\<lparr>cx_headers := filter (\<lambda>h. fst h \<noteq> key) (cx_headers c) @ [(key, val)]\<rparr>"

definition header_of :: "string \<Rightarrow> context \<Rightarrow> string option" where
  "header_of key c = map_of (cx_headers c) key"

text \<open>The status can be set until the header is written.\<close>

definition Status :: "int \<Rightarrow> context \<Rightarrow> context" where
  "Status code c = (if cx_wrote c then c else c\<lparr>cx_status := code\<rparr>)"

definition write_chunk :: "chunk \<Rightarrow> context \<Rightarrow> context" where
  "write_chunk x c = c\<lparr>cx_wrote := True, cx_written := cx_written c @ [x]\<rparr>"

definition send_json :: "int \<Rightarrow> json \<Rightarrow> context \<Rightarrow> context" where
  "send_json code body c = write_chunk (JSON body) (Status code c)"

definition Abort :: "context \<Rightarrow> context" where
  "Abort c = c\<lparr>cx_aborted := True\<rparr>"

definition AbortWithStatus :: "int \<Rightarrow> context \<Rightarrow> context" where
  "AbortWithStatus code c = Abort ((Status code c)\<lparr>cx_wrote := True\<rparr>)"

definition AbortWithStatusJSON :: "int \<Rightarrow> json \<Rightarrow> context \<Rightarrow> context" where
  "AbortWithStatusJSON code body c = send_json code body (Abort c)"

definition Redirect :: "int \<Rightarrow> string \<Rightarrow> context \<Rightarrow> context" where
  "Redirect code location c = (Status code (Header ''Location'' location c))\<lparr>cx_wrote := True\<rparr>"

section \<open>Errors of the API\<close>

definition CodeValidationFailed :: string where "CodeValidationFailed = ''validation_failed''"
definition CodeInvalidCredentials :: string where "CodeInvalidCredentials = ''invalid_credentials''"
definition CodeEmailTaken :: string where "CodeEmailTaken = ''email_taken''"
definition CodePasswordUnavailable :: string where "CodePasswordUnavailable = ''password_login_unavailable''"
definition CodeInvalidToken :: string where "CodeInvalidToken = ''invalid_token''"
definition CodeUnauthorized :: string where "CodeUnauthorized = ''unauthorized''"
definition CodeForbidden :: string where "CodeForbidden = ''forbidden''"
definition CodeNotFound :: string where "CodeNotFound = ''not_found''"
definition CodePayloadTooLarge :: string where "CodePayloadTooLarge = ''payload_too_large''"
definition CodeInvalidOAuthState :: string where "CodeInvalidOAuthState = ''invalid_oauth_state''"
definition CodeInvalidCursor :: string where "CodeInvalidCursor = ''invalid_cursor''"
definition CodeBucketNotClosed :: string where "CodeBucketNotClosed = ''bucket_not_closed''"
definition CodeGoogleDisabled :: string where "CodeGoogleDisabled = ''google_disabled''"
definition CodeGoogleUnverified :: string where "CodeGoogleUnverified = ''google_email_unverified''"
definition CodeInternal :: string where "CodeInternal = ''internal_error''"

definition error_body :: "string \<Rightarrow> string \<Rightarrow> json" where
  "error_body code message = JObj [(''code'', JStr code), (''message'', JStr message)]"

definition error_envelope :: "string \<Rightarrow> string \<Rightarrow> json" where
  "error_envelope code message = JObj [(''error'', error_body code message)]"

definition response_Error :: "int \<Rightarrow> string \<Rightarrow> string \<Rightarrow> context \<Rightarrow> context" where
  "response_Error status code message = AbortWithStatusJSON status (error_envelope code message)"

text \<open>The statuses and the codes of the errors that the API documents.\<close>

definition error_statuses :: "int set" where
  "error_statuses = {400, 401, 403, 404, 409, 413, 500, 501}"

definition error_codes :: "string set" where
  "error_codes = {CodeValidationFailed, CodeInvalidCredentials, CodeEmailTaken, CodePasswordUnavailable,
     CodeInvalidToken, CodeUnauthorized, CodeForbidden, CodeNotFound, CodePayloadTooLarge,
     CodeInvalidOAuthState, CodeInvalidCursor, CodeBucketNotClosed, CodeGoogleDisabled,
     CodeGoogleUnverified, CodeInternal}"

lemma error_statuses [simp]:
  "400 \<in> error_statuses" "401 \<in> error_statuses" "403 \<in> error_statuses" "404 \<in> error_statuses"
  "409 \<in> error_statuses" "413 \<in> error_statuses" "500 \<in> error_statuses" "501 \<in> error_statuses"
  by (simp_all add: error_statuses_def)

lemma error_codes [simp]:
  "CodeValidationFailed \<in> error_codes" "CodeInvalidCredentials \<in> error_codes" "CodeEmailTaken \<in> error_codes"
  "CodePasswordUnavailable \<in> error_codes" "CodeInvalidToken \<in> error_codes" "CodeUnauthorized \<in> error_codes"
  "CodeForbidden \<in> error_codes" "CodeNotFound \<in> error_codes" "CodePayloadTooLarge \<in> error_codes"
  "CodeInvalidOAuthState \<in> error_codes" "CodeInvalidCursor \<in> error_codes" "CodeBucketNotClosed \<in> error_codes"
  "CodeGoogleDisabled \<in> error_codes" "CodeGoogleUnverified \<in> error_codes" "CodeInternal \<in> error_codes"
  by (simp_all add: error_codes_def)

lemma error_status_ge: "s \<in> error_statuses \<Longrightarrow> 400 \<le> s"
  by (auto simp: error_statuses_def)

section \<open>What stays of a context\<close>


text \<open>A reply that has not been started yet.\<close>

definition fresh_reply :: "context \<Rightarrow> bool" where
  "fresh_reply c \<longleftrightarrow> \<not> cx_wrote c \<and> cx_written c = [] \<and> cx_panic c = None"

lemmas reply_defs = send_json_def write_chunk_def Status_def Abort_def AbortWithStatus_def
  AbortWithStatusJSON_def Redirect_def Header_def response_Error_def

lemma send_json_sel [simp]:
  "cx_written (send_json s b c) = cx_written c @ [JSON b]" "cx_wrote (send_json s b c)"
  "cx_status (send_json s b c) = (if cx_wrote c then cx_status c else s)"
  "cx_user_id (send_json s b c) = cx_user_id c" "cx_role (send_json s b c) = cx_role c"
  "cx_headers (send_json s b c) = cx_headers c" "cx_panic (send_json s b c) = cx_panic c"
  "cx_request (send_json s b c) = cx_request c" "cx_request_id (send_json s b c) = cx_request_id c"
  "cx_full_path (send_json s b c) = cx_full_path c"
  by (simp_all add: reply_defs)

lemma response_Error_sel [simp]:
  "cx_written (response_Error s k m c) = cx_written c @ [JSON (error_envelope k m)]"
  "cx_wrote (response_Error s k m c)"
  "cx_status (response_Error s k m c) = (if cx_wrote c then cx_status c else s)"
  "cx_headers (response_Error s k m c) = cx_headers c" "cx_panic (response_Error s k m c) = cx_panic c"
  "cx_request (response_Error s k m c) = cx_request c"
  "cx_full_path (response_Error s k m c) = cx_full_path c"
  "cx_request_id (response_Error s k m c) = cx_request_id c"
  by (simp_all add: reply_defs)

end
