(* ===== verification/Dto.thy ===== *)
theory Dto
  imports Http AggService AuthService
begin

text \<open>
  \<open>internal/handler/dto.go\<close>: the bodies of requests and replies. A reply is the record the
  code fills, and its \<open>..._json\<close> the value that \<open>encoding/json\<close> makes of it by the struct
  tags: a field marked \<open>omitempty\<close> is left out when it is empty, a nil slice of a field
  without it is \<open>null\<close>.
\<close>

definition opt_field :: "string \<Rightarrow> ('a \<Rightarrow> json) \<Rightarrow> 'a option \<Rightarrow> (string \<times> json) list" where
  "opt_field name f v = (case v of None \<Rightarrow> [] | Some x \<Rightarrow> [(name, f x)])"

definition list_field :: "string \<Rightarrow> ('a \<Rightarrow> json) \<Rightarrow> 'a list \<Rightarrow> (string \<times> json) list" where
  "list_field name f xs = (if xs = [] then [] else [(name, JArr (map f xs))])"

definition counts_json :: "counts \<Rightarrow> json" where
  "counts_json cs = JObj (map (\<lambda>(k, n). (k, JInt n)) cs)"

definition utcOrNil :: "time option \<Rightarrow> time option" where
  "utcOrNil t = (case t of None \<Rightarrow> None | Some u \<Rightarrow> Some (UTC u))"

section \<open>Requests\<close>

text \<open>\<open>emailField.UnmarshalJSON\<close> trims the decoded string.\<close>

definition emailField :: "string \<Rightarrow> string" where
  "emailField raw = TrimSpace raw"

record credentialsRequest =
  cq_Email :: string
  cq_Password :: string

record eventRequest =
  vq_Type :: string
  vq_Payload :: string
  vq_OccurredAt :: "time option"
  vq_IdempotencyKey :: string

definition toInput :: "eventRequest \<Rightarrow> EventInput" where
  "toInput r = \<lparr>ei_Type = vq_Type r, ei_Payload = vq_Payload r, ei_OccurredAt = vq_OccurredAt r,
                ei_IdempotencyKey = vq_IdempotencyKey r\<rparr>"

section \<open>Events\<close>

record eventResponse =
  vr_ID :: int
  vr_Type :: string
  vr_Payload :: string
  vr_OccurredAt :: time
  vr_CreatedAt :: time
  vr_IdempotencyKey :: "string option"

definition newEventResponse :: "Event \<Rightarrow> eventResponse" where
  "newEventResponse e =
     \<lparr>vr_ID = ev_ID e, vr_Type = ev_Type e, vr_Payload = ev_Payload e, vr_OccurredAt = UTC (ev_OccurredAt e),
      vr_CreatedAt = UTC (ev_CreatedAt e), vr_IdempotencyKey = ev_IdempotencyKey e\<rparr>"

definition eventResponse_json :: "eventResponse \<Rightarrow> json" where
  "eventResponse_json r =
     JObj ([(''id'', JInt (vr_ID r)), (''type'', JStr (vr_Type r)), (''payload'', JRaw (vr_Payload r)),
            (''occurred_at'', JTime (vr_OccurredAt r)), (''created_at'', JTime (vr_CreatedAt r))] @
           opt_field ''idempotency_key'' JStr (vr_IdempotencyKey r))"

record eventPageResponse =
  vp_UserID :: int
  vp_Items :: "eventResponse list"
  vp_NextCursor :: string

definition newEventPageResponse :: "int \<Rightarrow> EventPage \<Rightarrow> eventPageResponse" where
  "newEventPageResponse userID page =
     \<lparr>vp_UserID = userID, vp_Items = map newEventResponse (ep_Items page), vp_NextCursor = ep_NextCursor page\<rparr>"

definition eventPageResponse_json :: "eventPageResponse \<Rightarrow> json" where
  "eventPageResponse_json r =
     JObj ([(''user_id'', JInt (vp_UserID r)), (''items'', JArr (map eventResponse_json (vp_Items r)))] @
           (if vp_NextCursor r = '''' then [] else [(''next_cursor'', JStr (vp_NextCursor r))]))"

record batchResponse =
  bt_Created :: "eventResponse list"
  bt_CreatedCount :: int
  bt_Duplicates :: int

definition newBatchResponse :: "BatchResult \<Rightarrow> batchResponse" where
  "newBatchResponse result =
     (let created = map newEventResponse (br_Created result)
      in \<lparr>bt_Created = created, bt_CreatedCount = int (length created), bt_Duplicates = br_Duplicates result\<rparr>)"

definition batchResponse_json :: "batchResponse \<Rightarrow> json" where
  "batchResponse_json r =
     JObj [(''created'', JArr (map eventResponse_json (bt_Created r))),
           (''created_count'', JInt (bt_CreatedCount r)), (''duplicates'', JInt (bt_Duplicates r))]"

section \<open>Accounts and sessions\<close>

record accountResponse =
  aq_ID :: int
  aq_Email :: string
  aq_Role :: Role
  aq_EventCount :: int
  aq_LastEventAt :: "time option"

definition newAccountsResponse :: "UserSummary list \<Rightarrow> accountResponse list" where
  "newAccountsResponse users =
     map (\<lambda>u. \<lparr>aq_ID = us_ID u, aq_Email = us_Email u, aq_Role = us_Role u, aq_EventCount = us_EventCount u,
               aq_LastEventAt = utcOrNil (us_LastEventAt u)\<rparr>) users"

definition accountResponse_json :: "accountResponse \<Rightarrow> json" where
  "accountResponse_json a =
     JObj ([(''id'', JInt (aq_ID a)), (''email'', JStr (aq_Email a)), (''role'', JStr (aq_Role a)),
            (''event_count'', JInt (aq_EventCount a))] @ opt_field ''last_event_at'' JTime (aq_LastEventAt a))"

definition accountsResponse_json :: "accountResponse list \<Rightarrow> json" where
  "accountsResponse_json items = JObj [(''items'', JArr (map accountResponse_json items))]"

definition methodsResponse_json :: "bool \<Rightarrow> bool \<Rightarrow> json" where
  "methodsResponse_json password google = JObj [(''password'', JBool password), (''google'', JBool google)]"

record userResponse =
  ur_ID :: int
  ur_Email :: string
  ur_Role :: Role
  ur_Name :: "string option"
  ur_EmailVerified :: bool
  ur_HasPassword :: bool
  ur_HasGoogle :: bool
  ur_CreatedAt :: time

definition newUserResponse :: "User \<Rightarrow> userResponse" where
  "newUserResponse u =
     \<lparr>ur_ID = user_ID u, ur_Email = user_Email u, ur_Role = user_Role u, ur_Name = user_Name u,
      ur_EmailVerified = user_EmailVerified u, ur_HasPassword = HasPassword u, ur_HasGoogle = HasGoogle u,
      ur_CreatedAt = user_CreatedAt u\<rparr>"

definition userResponse_json :: "userResponse \<Rightarrow> json" where
  "userResponse_json u =
     JObj [(''id'', JInt (ur_ID u)), (''email'', JStr (ur_Email u)), (''role'', JStr (ur_Role u)),
           (''name'', case ur_Name u of None \<Rightarrow> JNull | Some n \<Rightarrow> JStr n),
           (''email_verified'', JBool (ur_EmailVerified u)), (''has_password'', JBool (ur_HasPassword u)),
           (''has_google'', JBool (ur_HasGoogle u)), (''created_at'', JTime (ur_CreatedAt u))]"

record sessionResponse =
  sr_AccessToken :: string
  sr_RefreshToken :: string
  sr_TokenType :: string
  sr_ExpiresIn :: int
  sr_User :: userResponse

definition newSessionResponse :: "Session \<Rightarrow> sessionResponse" where
  "newSessionResponse s =
     \<lparr>sr_AccessToken = se_AccessToken s, sr_RefreshToken = se_RefreshToken s, sr_TokenType = ''Bearer'',
      sr_ExpiresIn = se_ExpiresIn s, sr_User = newUserResponse (se_User s)\<rparr>"

definition sessionResponse_json :: "sessionResponse \<Rightarrow> json" where
  "sessionResponse_json s =
     JObj [(''access_token'', JStr (sr_AccessToken s)), (''refresh_token'', JStr (sr_RefreshToken s)),
           (''token_type'', JStr (sr_TokenType s)), (''expires_in'', JInt (sr_ExpiresIn s)),
           (''user'', userResponse_json (sr_User s))]"

section \<open>Aggregation\<close>

record runResponse =
  nr_ID :: int
  nr_BucketStart :: time
  nr_BucketEnd :: time
  nr_Status :: string
  nr_Trigger :: string
  nr_UsersTouched :: int
  nr_StartedAt :: time
  nr_FinishedAt :: "time option"
  nr_Error :: "string option"

definition newRunResponse :: "AggregationRun \<Rightarrow> runResponse" where
  "newRunResponse r =
     \<lparr>nr_ID = run_ID r, nr_BucketStart = UTC (run_BucketStart r), nr_BucketEnd = UTC (run_BucketEnd r),
      nr_Status = RunStatus_string (run_Status r), nr_Trigger = RunTrigger_string (run_Trigger r),
      nr_UsersTouched = run_UsersTouched r, nr_StartedAt = UTC (run_StartedAt r),
      nr_FinishedAt = utcOrNil (run_FinishedAt r), nr_Error = run_Error r\<rparr>"

definition newRunsResponse :: "AggregationRun list \<Rightarrow> runResponse list" where
  "newRunsResponse runs = map newRunResponse runs"

definition runResponse_json :: "runResponse \<Rightarrow> json" where
  "runResponse_json r =
     JObj ([(''id'', JInt (nr_ID r)), (''bucket_start'', JTime (nr_BucketStart r)),
            (''bucket_end'', JTime (nr_BucketEnd r)), (''status'', JStr (nr_Status r)),
            (''trigger'', JStr (nr_Trigger r)), (''users_touched'', JInt (nr_UsersTouched r)),
            (''started_at'', JTime (nr_StartedAt r))] @
           opt_field ''finished_at'' JTime (nr_FinishedAt r) @ opt_field ''error'' JStr (nr_Error r))"

definition runsResponse_json :: "runResponse list \<Rightarrow> json" where
  "runsResponse_json items = JObj [(''items'', JArr (map runResponse_json items))]"

record bucketResponse =
  kr_BucketStart :: time
  kr_BucketEnd :: time
  kr_EventCount :: int
  kr_TypeCounts :: counts
  kr_FirstEventAt :: time
  kr_LastEventAt :: time

record dayResponse =
  dr_Day :: time
  dr_EventCount :: int
  dr_TypeCounts :: counts

record statsResponse =
  tr_UserID :: int
  tr_From :: time
  tr_To :: time
  tr_Bucket :: duration
  tr_Buckets :: "bucketResponse list"
  tr_Days :: "dayResponse list"

definition newStatsResponse :: "int \<Rightarrow> Stats \<Rightarrow> statsResponse" where
  "newStatsResponse userID s =
     \<lparr>tr_UserID = userID, tr_From = st_From s, tr_To = st_To s, tr_Bucket = st_Bucket s,
      tr_Buckets = map (\<lambda>b. \<lparr>kr_BucketStart = UTC (ab_BucketStart b),
                             kr_BucketEnd = UTC (Add (ab_BucketStart b) (st_Bucket s)),
                             kr_EventCount = ab_EventCount b, kr_TypeCounts = ab_TypeCounts b,
                             kr_FirstEventAt = UTC (ab_FirstEventAt b),
                             kr_LastEventAt = UTC (ab_LastEventAt b)\<rparr>) (st_Buckets s),
      tr_Days = map (\<lambda>d. \<lparr>dr_Day = UTC (da_Day d), dr_EventCount = da_EventCount d,
                          dr_TypeCounts = da_TypeCounts d\<rparr>) (st_Days s)\<rparr>"

definition bucketResponse_json :: "bucketResponse \<Rightarrow> json" where
  "bucketResponse_json b =
     JObj [(''bucket_start'', JTime (kr_BucketStart b)), (''bucket_end'', JTime (kr_BucketEnd b)),
           (''event_count'', JInt (kr_EventCount b)), (''type_counts'', counts_json (kr_TypeCounts b)),
           (''first_event_at'', JTime (kr_FirstEventAt b)), (''last_event_at'', JTime (kr_LastEventAt b))]"

definition dayResponse_json :: "dayResponse \<Rightarrow> json" where
  "dayResponse_json d =
     JObj [(''day'', JDate (dr_Day d)), (''event_count'', JInt (dr_EventCount d)),
           (''type_counts'', counts_json (dr_TypeCounts d))]"

definition statsResponse_json :: "statsResponse \<Rightarrow> json" where
  "statsResponse_json r =
     JObj ([(''user_id'', JInt (tr_UserID r)), (''from'', JTime (tr_From r)), (''to'', JTime (tr_To r)),
            (''bucket'', JDuration (tr_Bucket r))] @
           list_field ''buckets'' bucketResponse_json (tr_Buckets r) @
           list_field ''days'' dayResponse_json (tr_Days r))"

section \<open>No secret in a reply\<close>

text \<open>What a reply says of a user does not depend on the hash of the password.\<close>

lemma newUserResponse_hides_hash:
  "h \<noteq> '''' \<Longrightarrow> h' \<noteq> '''' \<Longrightarrow>
     newUserResponse (u\<lparr>user_PasswordHash := Some h\<rparr>) = newUserResponse (u\<lparr>user_PasswordHash := Some h'\<rparr>)"
  by (simp add: newUserResponse_def HasPassword_def HasGoogle_def)

end
