(* ===== verification/Middleware.thy ===== *)
theory Middleware
  imports Http Metrics
begin

text \<open>
  \<open>internal/middleware\<close>: request ids, metrics, the log of requests, recovery from panics, CORS,
  the limit on request bodies, and the guards of the protected routes. \<open>Recovery\<close> is modelled
  without its log entry.
\<close>

section \<open>Every request\<close>

definition HeaderRequestID :: string where "HeaderRequestID = ''X-Request-ID''"

definition RequestID :: "'w library \<Rightarrow> 'w middleware" where
  "RequestID lib nxt = (\<lambda>(c, w).
     (let (i, w) = (if GetHeader c HeaderRequestID = ''''
                    then (case lib_uuid lib w of (u, w1) \<Rightarrow> (lib_uuid_string lib u, w1))
                    else (GetHeader c HeaderRequestID, w))
      in nxt (Header HeaderRequestID i (c\<lparr>cx_request_id := Some i\<rparr>), w)))"

definition RequestIDFrom :: "context \<Rightarrow> string" where
  "RequestIDFrom c = (case cx_request_id c of None \<Rightarrow> '''' | Some i \<Rightarrow> i)"

definition knownMethods :: "string list" where
  "knownMethods = [''GET'', ''HEAD'', ''POST'', ''PUT'', ''PATCH'', ''DELETE'', ''OPTIONS'']"

definition requestMethod :: "string \<Rightarrow> string" where
  "requestMethod m = (if m \<in> set knownMethods then m else ''other'')"

text \<open>
  The deferred function runs after the handlers behind, whether they panicked or not; the
  code then sees the status that has been written so far.
\<close>

definition MetricsMiddleware ::
    "((metrics \<Rightarrow> metrics) \<Rightarrow> 'w \<Rightarrow> 'w) \<Rightarrow> ('w \<Rightarrow> time \<times> 'w) \<Rightarrow> 'w middleware" where
  "MetricsMiddleware update time_Now nxt = (\<lambda>(c, w).
     (let route = (if cx_full_path c = '''' then ''unmatched'' else cx_full_path c);
          verb = requestMethod (rq_method (cx_request c))
      in case time_Now w of
           (start, w1) \<Rightarrow>
             (case nxt (c, update (\<lambda>m. m\<lparr>m_HTTPInFlight := m_HTTPInFlight m + 1\<rparr>) w1) of
                (c2, w2) \<Rightarrow>
                  (case time_Now w2 of
                     (fin, w3) \<Rightarrow>
                       (c2, update (\<lambda>m. (ObserveDuration verb route (Sub fin start) m)
                                      \<lparr>m_HTTPInFlight := m_HTTPInFlight m - 1,
                                       m_HTTPRequests := Inc [verb, route, FormatInt (cx_status c2)]
                                          (m_HTTPRequests m)\<rparr>) w3)))))"

text \<open>
  The log of requests. \<open>sink\<close> takes an entry; the code adds errors that handlers put into the
  context, which none of them does.
\<close>

datatype log_level = LogError | LogWarn | LogInfo

record log_entry =
  le_level :: log_level
  le_method :: string
  le_path :: string
  le_status :: int
  le_latency :: duration
  le_ip :: string
  le_request_id :: string
  le_query :: "string option"

definition level_of :: "int \<Rightarrow> log_level" where
  "level_of status = (if status \<ge> 500 then LogError else if status \<ge> 400 then LogWarn else LogInfo)"

definition Logger_middleware ::
    "(log_entry \<Rightarrow> 'w \<Rightarrow> 'w) \<Rightarrow> ('w \<Rightarrow> time \<times> 'w) \<Rightarrow> string list \<Rightarrow> 'w middleware" where
  "Logger_middleware sink time_Now skipPaths nxt = (\<lambda>(c, w).
     (case time_Now w of
        (start, w1) \<Rightarrow>
          (case nxt (c, w1) of
             (c2, w2) \<Rightarrow>
               (if rq_path (cx_request c2) \<in> set skipPaths then (c2, w2)
                else
                  (case time_Now w2 of
                     (fin, w3) \<Rightarrow>
                       (c2, sink \<lparr>le_level = level_of (cx_status c2), le_method = rq_method (cx_request c2),
                                  le_path = rq_path (cx_request c2), le_status = cx_status c2,
                                  le_latency = Sub fin start, le_ip = rq_client_ip (cx_request c2),
                                  le_request_id = RequestIDFrom c2,
                                  le_query = (if rq_raw_query (cx_request c2) = '''' then None
                                              else Some (rq_raw_query (cx_request c2)))\<rparr> w3))))))"

definition Recovery :: "'w middleware" where
  "Recovery nxt = (\<lambda>(c, w).
     (case nxt (c, w) of
        (c1, w1) \<Rightarrow>
          (case cx_panic c1 of
             None \<Rightarrow> (c1, w1)
           | Some _ \<Rightarrow>
               (AbortWithStatusJSON 500
                  (JObj [(''error'', JObj [(''code'', JStr ''internal_error''),
                                           (''message'', JStr ''Internal server error'')]),
                         (''request_id'', JStr (RequestIDFrom c1))])
                  (c1\<lparr>cx_panic := None\<rparr>), w1))))"

definition BodyLimit :: "int \<Rightarrow> 'w middleware" where
  "BodyLimit maxBytes nxt = (\<lambda>(c, w). nxt (c\<lparr>cx_body_limit := Some maxBytes\<rparr>, w))"

section \<open>CORS\<close>

definition allow_headers :: string where
  "allow_headers = ''Authorization, Content-Type, Idempotency-Key, X-Request-ID''"

definition cors_headers :: "string \<Rightarrow> context \<Rightarrow> context" where
  "cors_headers origin c =
     Header ''Vary'' ''Origin''
       (Header ''Access-Control-Max-Age'' ''600''
         (Header ''Access-Control-Expose-Headers'' HeaderRequestID
           (Header ''Access-Control-Allow-Headers'' allow_headers
             (Header ''Access-Control-Allow-Methods'' ''GET, POST, PATCH, DELETE, OPTIONS''
               (Header ''Access-Control-Allow-Credentials'' ''true''
                 (Header ''Access-Control-Allow-Origin'' origin c))))))"

definition CORS :: "string list \<Rightarrow> 'w middleware" where
  "CORS allowedOrigins nxt = (\<lambda>(c, w).
     (let allowed = map TrimSpace allowedOrigins;
          allowAll = (''*'' \<in> set allowed);
          origin = GetHeader c ''Origin''
      in if origin = '''' then nxt (c, w)
         else if origin \<notin> set allowed \<and> \<not> allowAll then nxt (c, w)
         else if rq_method (cx_request c) = ''OPTIONS''
           then (AbortWithStatus 204 (cors_headers origin c), w)
         else nxt (cors_headers origin c, w)))"

section \<open>The guards\<close>

type_synonym 'w TokenParser = "string \<Rightarrow> ('w, Claims) op"

definition unauthorized :: "context \<Rightarrow> context" where
  "unauthorized = response_Error 401 CodeUnauthorized ''Authorization header with a bearer token is required''"

definition bearerToken :: "string \<Rightarrow> string option" where
  "bearerToken header =
     (case Cut (TrimSpace header) (CHR '' '') of
        (scheme, token, found) \<Rightarrow>
          (if \<not> found \<or> \<not> EqualFold scheme ''Bearer'' then None
           else (let token = TrimSpace token in if token \<noteq> '''' then Some token else None)))"

text \<open>Where \<open>UserID\<close> fails the code goes on with its zero result.\<close>

definition RequireAuth :: "'w TokenParser \<Rightarrow> 'w middleware" where
  "RequireAuth parse nxt = (\<lambda>(c, w).
     (case bearerToken (GetHeader c ''Authorization'') of
        None \<Rightarrow> (unauthorized c, w)
      | Some raw \<Rightarrow>
          (case parse raw w of
             (Inl err, w1) \<Rightarrow>
               (response_Error 401 CodeInvalidToken ''Access token is invalid or expired'' c, w1)
           | (Inr claims, w1) \<Rightarrow>
               (let userID = (case Claims_UserID claims of Inl _ \<Rightarrow> 0 | Inr i \<Rightarrow> i)
                in nxt (c\<lparr>cx_user_id := Some userID, cx_role := Some (cl_Role claims)\<rparr>, w1)))))"

definition UserIDFrom :: "context \<Rightarrow> int option" where
  "UserIDFrom c = cx_user_id c"

definition RoleFrom :: "context \<Rightarrow> Role option" where
  "RoleFrom c = cx_role c"

definition RequireRole :: "Role list \<Rightarrow> 'w middleware" where
  "RequireRole roles nxt = (\<lambda>(c, w).
     (case RoleFrom c of
        None \<Rightarrow> (unauthorized c, w)
      | Some role \<Rightarrow>
          (if role \<notin> set roles
           then (response_Error 403 CodeForbidden ''This action requires a different role'' c, w)
           else nxt (c, w))))"

section \<open>What the guards let through\<close>

lemma bearerToken_trim: "bearerToken header = Some t \<Longrightarrow> \<exists>u. t = TrimSpace u \<and> t \<noteq> ''''"
  by (auto simp: bearerToken_def Let_def split: prod.splits if_splits)

text \<open>The handler behind \<open>RequireAuth\<close> runs only for a token that parses.\<close>

lemma RequireAuth_cases:
  obtains (refused) c1 w1 where "RequireAuth parse nxt (c, w) = (c1, w1)"
      "c1 = unauthorized c \<and> w1 = w \<or>
       (\<exists>raw err. bearerToken (GetHeader c ''Authorization'') = Some raw \<and> parse raw w = (Inl err, w1) \<and>
          c1 = response_Error 401 CodeInvalidToken ''Access token is invalid or expired'' c)"
  | (passed) raw claims w1 where "bearerToken (GetHeader c ''Authorization'') = Some raw"
      "parse raw w = (Inr claims, w1)"
      "RequireAuth parse nxt (c, w) =
        nxt (c\<lparr>cx_user_id := Some (case Claims_UserID claims of Inl _ \<Rightarrow> 0 | Inr i \<Rightarrow> i),
               cx_role := Some (cl_Role claims)\<rparr>, w1)"
  by (cases "bearerToken (GetHeader c ''Authorization'')"; cases "parse (the (bearerToken (GetHeader c ''Authorization''))) w";
      cases "fst (parse (the (bearerToken (GetHeader c ''Authorization''))) w)")
    (auto simp: RequireAuth_def Let_def)

end
