(* ===== verification/HandlerBase.thy ===== *)
theory HandlerBase
  imports Dto Middleware
begin

text \<open>
  What the handlers of \<open>internal/handler\<close> share: binding a JSON body, the client behind a
  request, who is signed in and whose data is asked for.

  \<open>binding\<close> is gin's \<open>ShouldBindJSON\<close> up to what the code adds to it: a decoder per kind of
  body, which reads the body through the limit that \<open>BodyLimit\<close> put on it, the validator's
  check of addresses, and its message for the fields that fail. \<open>bi_time\<close> is \<open>time.Parse\<close>
  for RFC 3339. The tags \<open>required\<close> and \<open>dive\<close> are spelled out here.
\<close>

type_synonym reader = "string \<times> int option"

datatype bind_error = BodyTooLarge | BodyEOF | BadBody string

record binding =
  bi_credentials :: "reader \<Rightarrow> bind_error + (string \<times> string)"
  bi_email_ok :: "string \<Rightarrow> bool"
  bi_secret :: "string \<Rightarrow> reader \<Rightarrow> bind_error + string"
  bi_event :: "reader \<Rightarrow> bind_error + eventRequest"
  bi_batch :: "reader \<Rightarrow> bind_error + eventRequest list option"
  bi_trigger :: "reader \<Rightarrow> bind_error + time option"
  bi_invalid :: "string list \<Rightarrow> string"
  bi_time :: "string \<Rightarrow> time option"

definition body_of :: "context \<Rightarrow> reader" where
  "body_of c = (rq_body (cx_request c), cx_body_limit c)"

definition bind_credentials :: "binding \<Rightarrow> context \<Rightarrow> bind_error + credentialsRequest" where
  "bind_credentials bi c =
     (case bi_credentials bi (body_of c) of
        Inl e \<Rightarrow> Inl e
      | Inr (email, password) \<Rightarrow>
          (let email = emailField email;
               bad = (if email = '''' \<or> \<not> bi_email_ok bi email then [''Email''] else []) @
                     (if password = '''' then [''Password''] else [])
           in if bad \<noteq> [] then Inl (BadBody (bi_invalid bi bad))
              else Inr \<lparr>cq_Email = email, cq_Password = password\<rparr>))"

text \<open>A body with one required string: \<open>refresh_token\<close> or \<open>code\<close>.\<close>

definition bind_secret :: "binding \<Rightarrow> string \<Rightarrow> string \<Rightarrow> context \<Rightarrow> bind_error + string" where
  "bind_secret bi name fld c =
     (case bi_secret bi name (body_of c) of
        Inl e \<Rightarrow> Inl e
      | Inr s \<Rightarrow> (if s = '''' then Inl (BadBody (bi_invalid bi [fld])) else Inr s))"

definition bind_event :: "binding \<Rightarrow> context \<Rightarrow> bind_error + eventRequest" where
  "bind_event bi c =
     (case bi_event bi (body_of c) of
        Inl e \<Rightarrow> Inl e
      | Inr r \<Rightarrow> (if vq_Type r = '''' then Inl (BadBody (bi_invalid bi [''Type''])) else Inr r))"

definition bind_batch :: "binding \<Rightarrow> context \<Rightarrow> bind_error + eventRequest list" where
  "bind_batch bi c =
     (case bi_batch bi (body_of c) of
        Inl e \<Rightarrow> Inl e
      | Inr None \<Rightarrow> Inl (BadBody (bi_invalid bi [''Events'']))
      | Inr (Some rs) \<Rightarrow>
          (if list_ex (\<lambda>r. vq_Type r = '''') rs then Inl (BadBody (bi_invalid bi [''Type''])) else Inr rs))"

text \<open>\<open>bindJSON\<close>: what was bound, or \<open>None\<close> with the error already sent.\<close>

definition bindJSON :: "bind_error + 'a \<Rightarrow> context \<Rightarrow> context \<times> 'a option" where
  "bindJSON r c =
     (case r of
        Inr x \<Rightarrow> (c, Some x)
      | Inl BodyTooLarge \<Rightarrow> (response_Error 413 CodePayloadTooLarge ''Request body is too large'' c, None)
      | Inl BodyEOF \<Rightarrow> (response_Error 400 CodeValidationFailed ''EOF'' c, None)
      | Inl (BadBody msg) \<Rightarrow> (response_Error 400 CodeValidationFailed msg c, None))"

definition clientMeta :: "context \<Rightarrow> ClientMeta" where
  "clientMeta c = \<lparr>cm_UserAgent = GetHeader c ''User-Agent'', cm_IP = rq_client_ip (cx_request c)\<rparr>"

text \<open>An error of a service is answered by the handler's table; a panic goes on unwinding.\<close>

definition on_error :: "(go_error \<Rightarrow> context \<Rightarrow> context) \<Rightarrow> go_error \<Rightarrow> context \<Rightarrow> context" where
  "on_error fail err c = (case err of Panic m \<Rightarrow> c\<lparr>cx_panic := Some m\<rparr> | _ \<Rightarrow> fail err c)"

definition internal_error :: "context \<Rightarrow> context" where
  "internal_error = response_Error 500 CodeInternal ''Internal server error''"

section \<open>Who asks, and for whom\<close>

definition currentUser :: "context \<Rightarrow> context \<times> int option" where
  "currentUser c =
     (case UserIDFrom c of None \<Rightarrow> (unauthorized c, None) | Some userID \<Rightarrow> (c, Some userID))"

definition targetUser :: "context \<Rightarrow> int \<Rightarrow> context \<times> int option" where
  "targetUser c self =
     (let raw = Query c ''user_id''
      in if raw = '''' then (c, Some self)
         else
           (case ParseInt raw of
              None \<Rightarrow>
                (response_Error 400 CodeValidationFailed ''user_id must be a positive number'' c, None)
            | Some requested \<Rightarrow>
                (if requested \<le> 0
                   then (response_Error 400 CodeValidationFailed ''user_id must be a positive number'' c, None)
                 else if requested = self then (c, Some self)
                 else if RoleFrom c \<noteq> Some RoleAdmin
                   then (response_Error 403 CodeForbidden
                           ''Reading another user's activity requires the admin role'' c, None)
                 else (c, Some requested))))"

text \<open>\<open>timeQuery\<close>: the outer \<open>None\<close> is a refused request.\<close>

definition timeQuery :: "binding \<Rightarrow> string \<Rightarrow> context \<Rightarrow> context \<times> time option option" where
  "timeQuery bi key c =
     (let raw = Query c key
      in if raw = '''' then (c, Some None)
         else
           (case bi_time bi raw of
              None \<Rightarrow>
                (response_Error 400 CodeValidationFailed (key @ '' must be an RFC 3339 timestamp'') c, None)
            | Some t \<Rightarrow> (c, Some (Some t))))"

text \<open>The \<open>limit\<close> of a list; 0 when it is not given.\<close>

definition limitQuery :: "context \<Rightarrow> context \<times> int option" where
  "limitQuery c =
     (let raw = Query c ''limit''
      in if raw = '''' then (c, Some 0)
         else
           (case Atoi raw of
              None \<Rightarrow> (response_Error 400 CodeValidationFailed ''limit must be a number'' c, None)
            | Some limit \<Rightarrow> (c, Some limit)))"

section \<open>The guards of a handler\<close>

text \<open>Each of these steps either leaves the context alone or sends one error.\<close>

definition one_error :: "context \<Rightarrow> context \<Rightarrow> bool" where
  "one_error c c' \<longleftrightarrow> (\<exists>s k m. c' = response_Error s k m c \<and> s \<in> error_statuses \<and> k \<in> error_codes)"

lemma one_errorI [simp, intro!]:
  "s \<in> error_statuses \<Longrightarrow> k \<in> error_codes \<Longrightarrow> one_error c (response_Error s k m c)"
  by (auto simp: one_error_def)


lemma bindJSON_cases:
  obtains (bound) x where "r = Inr x" "bindJSON r c = (c, Some x)"
  | (refused) c' where "bindJSON r c = (c', None)" "one_error c c'"
proof (cases r)
  case (Inl e)
  then show thesis
    by (cases e) (rule refused, simp add: bindJSON_def, force)+
next
  case (Inr x)
  then show thesis by (intro bound) (simp_all add: bindJSON_def)
qed

lemma targetUser_cases:
  obtains (self) "targetUser c self = (c, Some self)"
  | (other) u where "targetUser c self = (c, Some u)" "RoleFrom c = Some RoleAdmin" "0 < u"
  | (refused) c' where "targetUser c self = (c', None)" "one_error c c'"
proof (cases "Query c ''user_id'' = ''''")
  case True
  then show thesis by (intro self) (simp add: targetUser_def)
next
  case given: False
  show thesis
  proof (cases "ParseInt (Query c ''user_id'')")
    case None
    with given show thesis
      by (intro refused [of "response_Error 400 CodeValidationFailed ''user_id must be a positive number'' c"])
        (auto simp: targetUser_def)
  next
    case (Some u)
    consider "u \<le> 0" | "0 < u" "u = self" | "0 < u" "u \<noteq> self" "RoleFrom c = Some RoleAdmin"
      | "0 < u" "u \<noteq> self" "RoleFrom c \<noteq> Some RoleAdmin" by linarith
    then show thesis
    proof cases
      case 1
      with given Some show thesis
        by (intro refused [of "response_Error 400 CodeValidationFailed ''user_id must be a positive number'' c"])
          (auto simp: targetUser_def)
    next
      case 2
      with given Some show thesis by (intro self) (simp add: targetUser_def)
    next
      case 3
      with given Some show thesis by (intro other [of u]) (auto simp: targetUser_def)
    next
      case 4
      with given Some show thesis
        by (intro refused [of "response_Error 403 CodeForbidden
            ''Reading another user's activity requires the admin role'' c"])
          (auto simp: targetUser_def)
    qed
  qed
qed

lemma timeQuery_cases:
  obtains (read) t where "timeQuery bi key c = (c, Some t)"
  | (refused) c' where "timeQuery bi key c = (c', None)" "one_error c c'"
  by (cases "Query c key = ''''"; cases "bi_time bi (Query c key)") (auto simp: timeQuery_def)

lemma limitQuery_cases:
  obtains (read) n where "limitQuery c = (c, Some n)"
  | (refused) c' where "limitQuery c = (c', None)" "one_error c c'"
  by (cases "Query c ''limit'' = ''''"; cases "Atoi (Query c ''limit'')") (auto simp: limitQuery_def)

end
