(* ===== verification/AuthHandler.thy ===== *)
theory AuthHandler
  imports HandlerBase GoURL
begin

text \<open>
  \<open>internal/handler/auth.go\<close> and \<open>google_oauth.go\<close>: the endpoints below \<open>/auth\<close> and the list
  of accounts. \<open>AuthAPI\<close> is the interface \<open>AuthService\<close> that the handlers see.
\<close>

record 'w AuthAPI =
  aa_Register :: "string \<Rightarrow> string \<Rightarrow> ClientMeta \<Rightarrow> ('w, Session) op"
  aa_Login :: "string \<Rightarrow> string \<Rightarrow> ClientMeta \<Rightarrow> ('w, Session) op"
  aa_StartGoogleFlow :: "string \<Rightarrow> ('w, string) op"
  aa_CompleteGoogleFlow :: "string \<Rightarrow> string \<Rightarrow> ('w, GoogleCallback) op"
  aa_ExchangeGoogleCode :: "string \<Rightarrow> ClientMeta \<Rightarrow> ('w, Session) op"
  aa_Refresh :: "string \<Rightarrow> ClientMeta \<Rightarrow> ('w, Session) op"
  aa_Logout :: "string \<Rightarrow> ('w, unit) op"
  aa_User :: "int \<Rightarrow> ('w, User) op"
  aa_Accounts :: "int \<Rightarrow> ('w, UserSummary list) op"

record 'w AuthHandler =
  ah_service :: "'w AuthAPI"
  ah_frontendURL :: string
  ah_google :: bool

definition NewAuthHandler :: "'w AuthAPI \<Rightarrow> string \<Rightarrow> bool \<Rightarrow> 'w AuthHandler" where
  "NewAuthHandler svc frontendURL google = \<lparr>ah_service = svc, ah_frontendURL = frontendURL, ah_google = google\<rparr>"

definition Auth_fail :: "go_error \<Rightarrow> context \<Rightarrow> context" where
  "Auth_fail err =
     (if errors_Is err Svc_ErrEmailTaken then
        response_Error 409 CodeEmailTaken ''This email is already registered''
      else if errors_Is err Svc_ErrInvalidCredentials then
        response_Error 401 CodeInvalidCredentials ''Invalid email or password''
      else if errors_Is err Svc_ErrPasswordLoginUnavailable then
        response_Error 409 CodePasswordUnavailable ''This account was created with Google, sign in with Google''
      else if errors_Is err Svc_ErrInvalidRefreshToken then
        response_Error 401 CodeInvalidToken ''Refresh token is invalid or expired, sign in again''
      else if errors_Is err Svc_ErrInvalidGoogleToken then
        response_Error 401 CodeInvalidToken ''Google id-token is invalid''
      else if errors_Is err Svc_ErrGoogleEmailUnverified then
        response_Error 403 CodeGoogleUnverified ''Google has not verified this email address''
      else if errors_Is err Svc_ErrGoogleDisabled then
        response_Error 501 CodeGoogleDisabled ''Google sign-in is not configured on this server''
      else if errors_Is err Svc_ErrInvalidOAuthState then
        response_Error 400 CodeInvalidOAuthState ''Sign-in request is invalid or expired, start again''
      else if errors_Is err Svc_ErrInvalidExchangeCode then
        response_Error 401 CodeInvalidToken ''Exchange code is invalid, expired or already used''
      else if errors_Is err Svc_ErrUserNotFound then
        response_Error 404 CodeNotFound ''User not found''
      else if errors_Is err Auth_ErrPasswordTooShort then
        response_Error 400 CodeValidationFailed ''Password must be at least 8 characters long''
      else if errors_Is err Auth_ErrPasswordTooLong then
        response_Error 400 CodeValidationFailed ''Password must be at most 72 bytes long''
      else if errors_Is err Svc_ErrInvalidEmail then
        response_Error 400 CodeValidationFailed ''Email is empty or too long''
      else internal_error)"

text \<open>The end of every handler that calls a service: its result or the table of errors.\<close>

definition finish ::
    "(go_error \<Rightarrow> context \<Rightarrow> context) \<Rightarrow> ('a \<Rightarrow> context \<Rightarrow> context) \<Rightarrow> context \<Rightarrow> (go_error + 'a) \<times> 'w \<Rightarrow> context \<times> 'w" where
  "finish fail ok c = (\<lambda>(r, w).
     (case r of Inl err \<Rightarrow> (on_error fail err c, w) | Inr x \<Rightarrow> (ok x c, w)))"

definition session_reply :: "int \<Rightarrow> Session \<Rightarrow> context \<Rightarrow> context" where
  "session_reply status s = send_json status (sessionResponse_json (newSessionResponse s))"

definition Auth_Accounts :: "'w AuthHandler \<Rightarrow> 'w handler" where
  "Auth_Accounts h = (\<lambda>(c, w).
     (case limitQuery c of
        (c1, None) \<Rightarrow> (c1, w)
      | (c1, Some limit) \<Rightarrow>
          finish (\<lambda>_. internal_error)
            (\<lambda>accounts. send_json 200 (accountsResponse_json (newAccountsResponse accounts)))
            c1 (aa_Accounts (ah_service h) limit w)))"

definition Auth_Methods :: "'w AuthHandler \<Rightarrow> 'w handler" where
  "Auth_Methods h = (\<lambda>(c, w). (send_json 200 (methodsResponse_json True (ah_google h)) c, w))"

definition Auth_Register :: "binding \<Rightarrow> 'w AuthHandler \<Rightarrow> 'w handler" where
  "Auth_Register bi h = (\<lambda>(c, w).
     (case bindJSON (bind_credentials bi c) c of
        (c1, None) \<Rightarrow> (c1, w)
      | (c1, Some req) \<Rightarrow>
          finish Auth_fail (session_reply 201) c1
            (aa_Register (ah_service h) (cq_Email req) (cq_Password req) (clientMeta c1) w)))"

definition Auth_Login :: "binding \<Rightarrow> 'w AuthHandler \<Rightarrow> 'w handler" where
  "Auth_Login bi h = (\<lambda>(c, w).
     (case bindJSON (bind_credentials bi c) c of
        (c1, None) \<Rightarrow> (c1, w)
      | (c1, Some req) \<Rightarrow>
          finish Auth_fail (session_reply 200) c1
            (aa_Login (ah_service h) (cq_Email req) (cq_Password req) (clientMeta c1) w)))"

definition Auth_Refresh :: "binding \<Rightarrow> 'w AuthHandler \<Rightarrow> 'w handler" where
  "Auth_Refresh bi h = (\<lambda>(c, w).
     (case bindJSON (bind_secret bi ''refresh_token'' ''RefreshToken'' c) c of
        (c1, None) \<Rightarrow> (c1, w)
      | (c1, Some token) \<Rightarrow>
          finish Auth_fail (session_reply 200) c1 (aa_Refresh (ah_service h) token (clientMeta c1) w)))"

definition Auth_Logout :: "binding \<Rightarrow> 'w AuthHandler \<Rightarrow> 'w handler" where
  "Auth_Logout bi h = (\<lambda>(c, w).
     (case bindJSON (bind_secret bi ''refresh_token'' ''RefreshToken'' c) c of
        (c1, None) \<Rightarrow> (c1, w)
      | (c1, Some token) \<Rightarrow>
          finish Auth_fail (\<lambda>_. Status 204) c1 (aa_Logout (ah_service h) token w)))"

definition Auth_Me :: "'w AuthHandler \<Rightarrow> 'w handler" where
  "Auth_Me h = (\<lambda>(c, w).
     (case UserIDFrom c of
        None \<Rightarrow> (unauthorized c, w)
      | Some userID \<Rightarrow>
          finish Auth_fail (\<lambda>user. send_json 200 (userResponse_json (newUserResponse user))) c
            (aa_User (ah_service h) userID w)))"

section \<open>Signing in with Google\<close>

definition frontendCallbackPath :: string where "frontendCallbackPath = ''/auth/callback''"

definition GoogleStart :: "'w AuthHandler \<Rightarrow> 'w handler" where
  "GoogleStart h = (\<lambda>(c, w).
     finish Auth_fail (Redirect 302) c (aa_StartGoogleFlow (ah_service h) (Query c ''redirect_to'') w))"

definition callbackError :: "go_error \<Rightarrow> string" where
  "callbackError err =
     (if errors_Is err Svc_ErrInvalidOAuthState then ''invalid_state''
      else if errors_Is err Svc_ErrGoogleEmailUnverified then ''email_unverified''
      else if errors_Is err Svc_ErrInvalidGoogleToken then ''invalid_token''
      else if errors_Is err Svc_ErrGoogleDisabled then ''google_disabled''
      else ''internal_error'')"

definition redirectToFrontend :: "'w AuthHandler \<Rightarrow> string \<Rightarrow> string \<Rightarrow> string \<Rightarrow> context \<Rightarrow> context" where
  "redirectToFrontend h code redirectTo failure =
     (let q = (if failure \<noteq> '''' then Values_Set ''error'' failure []
               else
                 (let q = Values_Set ''code'' code []
                  in if redirectTo \<noteq> '''' then Values_Set ''redirect_to'' redirectTo q else q))
      in Redirect 302 (ah_frontendURL h @ frontendCallbackPath @ ''?'' @ Values_Encode q))"

definition GoogleCallback_handler :: "'w AuthHandler \<Rightarrow> 'w handler" where
  "GoogleCallback_handler h = (\<lambda>(c, w).
     (if Query c ''error'' \<noteq> '''' then (redirectToFrontend h '''' '''' (Query c ''error'') c, w)
      else
        finish (\<lambda>err. redirectToFrontend h '''' '''' (callbackError err))
          (\<lambda>result. redirectToFrontend h (cb_Code result) (cb_RedirectTo result) '''')
          c (aa_CompleteGoogleFlow (ah_service h) (Query c ''code'') (Query c ''state'') w)))"

definition GoogleExchange :: "binding \<Rightarrow> 'w AuthHandler \<Rightarrow> 'w handler" where
  "GoogleExchange bi h = (\<lambda>(c, w).
     (case bindJSON (bind_secret bi ''code'' ''Code'' c) c of
        (c1, None) \<Rightarrow> (c1, w)
      | (c1, Some code) \<Rightarrow>
          finish Auth_fail (session_reply 200) c1
            (aa_ExchangeGoogleCode (ah_service h) code (clientMeta c1) w)))"

end
