(* ===== verification/EventHandler.thy ===== *)
theory EventHandler
  imports AuthHandler
begin

text \<open>
  \<open>internal/handler/event.go\<close>: recording, listing and streaming events.

  A stream lives until its request is over. \<open>signal\<close> is what wakes its \<open>select\<close>: the end of
  the request, an event that is ready, or the heartbeat; the flag says whether the write
  that follows succeeds. A subscription is the channel and the function \<open>cancel\<close>.
\<close>

definition idempotencyHeader :: string where "idempotencyHeader = ''Idempotency-Key''"
definition streamMediaType :: string where "streamMediaType = ''text/event-stream''"
definition streamEventName :: string where "streamEventName = ''activity''"

definition streamKeepAlive :: string where
  "streamKeepAlive = '': keep-alive'' @ [CHR 0x0A, CHR 0x0A]"

record 'w EventAPI =
  ea_Record :: "int \<Rightarrow> EventInput \<Rightarrow> ('w, Event \<times> bool) op"
  ea_RecordBatch :: "int \<Rightarrow> EventInput list \<Rightarrow> ('w, BatchResult) op"
  ea_List :: "EventQuery \<Rightarrow> ('w, EventPage) op"

datatype received = Blocked | Closed | Got Event

record 'w Subscription =
  sb_receive :: "'w \<Rightarrow> received \<times> 'w"
  sb_cancel :: "'w \<Rightarrow> 'w"

record 'w EventHandler =
  eh_service :: "'w EventAPI"
  eh_Subscribe :: "int \<Rightarrow> 'w \<Rightarrow> 'w Subscription \<times> 'w"

datatype signal = CtxDone | EventReady bool | HeartbeatTick bool

section \<open>The stream\<close>

definition stream_frame :: "Event \<Rightarrow> chunk" where
  "stream_frame e = Frame (ev_ID e) streamEventName (eventResponse_json (newEventResponse e))"

definition Event_write :: "bool \<Rightarrow> chunk \<Rightarrow> context \<Rightarrow> context" where
  "Event_write ok x c = (if ok then write_chunk x c else c)"

fun stream_loop :: "'w Subscription \<Rightarrow> signal list \<Rightarrow> 'w handler" where
  "stream_loop sub [] cw = cw"
| "stream_loop sub (CtxDone # _) cw = cw"
| "stream_loop sub (EventReady ok # sigs) (c, w) =
     (case sb_receive sub w of
        (Blocked, w1) \<Rightarrow> stream_loop sub sigs (c, w1)
      | (Closed, w1) \<Rightarrow> (c, w1)
      | (Got e, w1) \<Rightarrow>
          (if ok then stream_loop sub sigs (Event_write True (stream_frame e) c, w1)
           else (Event_write False (stream_frame e) c, w1)))"
| "stream_loop sub (HeartbeatTick ok # sigs) (c, w) =
     (if ok then stream_loop sub sigs (Event_write True (Text streamKeepAlive) c, w)
      else (Event_write False (Text streamKeepAlive) c, w))"

definition Event_Stream :: "signal list \<Rightarrow> 'w EventHandler \<Rightarrow> 'w handler" where
  "Event_Stream sigs h = (\<lambda>(c, w).
     (case currentUser c of
        (c1, None) \<Rightarrow> (c1, w)
      | (c1, Some userID) \<Rightarrow>
          (case eh_Subscribe h userID w of
             (sub, w1) \<Rightarrow>
               (let c2 = Header ''X-Accel-Buffering'' ''no''
                           (Header ''Connection'' ''keep-alive''
                             (Header ''Cache-Control'' ''no-cache''
                               (Header ''Content-Type'' streamMediaType c1)));
                    c3 = (Status 200 c2)\<lparr>cx_wrote := True\<rparr>
                in case stream_loop sub sigs (c3, w1) of (c4, w2) \<Rightarrow> (c4, sb_cancel sub w2)))))"

section \<open>Recording and listing\<close>

definition badRequest :: "string \<Rightarrow> string \<Rightarrow> context \<Rightarrow> context" where
  "badRequest code message = response_Error 400 code message"

definition Event_fail :: "go_error \<Rightarrow> context \<Rightarrow> context" where
  "Event_fail err =
     (if errors_Is err Svc_ErrInvalidEventType then
        badRequest CodeValidationFailed ''Event type must not be empty and must be at most 64 characters''
      else if errors_Is err Svc_ErrInvalidEventPayload then
        badRequest CodeValidationFailed ''Event payload must be a json object of at most 8 KB''
      else if errors_Is err Svc_ErrEventTimeOutOfRange then
        badRequest CodeValidationFailed ''occurred_at is too far in the future or in the past''
      else if errors_Is err Svc_ErrInvalidIdempotencyKey then
        badRequest CodeValidationFailed ''Idempotency key is too long''
      else if errors_Is err Svc_ErrDuplicateIdempotencyKey then
        badRequest CodeValidationFailed ''The same idempotency key is used twice in one batch''
      else if errors_Is err Svc_ErrEmptyBatch then
        badRequest CodeValidationFailed ''The batch has no events''
      else if errors_Is err Svc_ErrBatchTooLarge then
        badRequest CodeValidationFailed ''The batch holds more events than the limit allows''
      else if errors_Is err Svc_ErrInvalidCursor then
        badRequest CodeInvalidCursor ''Pagination cursor is invalid''
      else if errors_Is err Svc_ErrInvalidTimeRange then
        badRequest CodeValidationFailed ''from must be before to''
      else internal_error)"

definition Event_Create :: "binding \<Rightarrow> 'w EventHandler \<Rightarrow> 'w handler" where
  "Event_Create bi h = (\<lambda>(c, w).
     (case currentUser c of
        (c1, None) \<Rightarrow> (c1, w)
      | (c1, Some userID) \<Rightarrow>
          (case bindJSON (bind_event bi c1) c1 of
             (c2, None) \<Rightarrow> (c2, w)
           | (c2, Some req) \<Rightarrow>
               (let req = (if vq_IdempotencyKey req = ''''
                           then req\<lparr>vq_IdempotencyKey := GetHeader c2 idempotencyHeader\<rparr> else req)
                in finish Event_fail
                     (\<lambda>(event, created).
                        send_json (if created then 201 else 200) (eventResponse_json (newEventResponse event)))
                     c2 (ea_Record (eh_service h) userID (toInput req) w)))))"

definition Event_CreateBatch :: "binding \<Rightarrow> 'w EventHandler \<Rightarrow> 'w handler" where
  "Event_CreateBatch bi h = (\<lambda>(c, w).
     (case currentUser c of
        (c1, None) \<Rightarrow> (c1, w)
      | (c1, Some userID) \<Rightarrow>
          (case bindJSON (bind_batch bi c1) c1 of
             (c2, None) \<Rightarrow> (c2, w)
           | (c2, Some reqs) \<Rightarrow>
               finish Event_fail (\<lambda>result. send_json 201 (batchResponse_json (newBatchResponse result)))
                 c2 (ea_RecordBatch (eh_service h) userID (map toInput reqs) w))))"

definition Event_ListHandler :: "binding \<Rightarrow> 'w EventHandler \<Rightarrow> 'w handler" where
  "Event_ListHandler bi h = (\<lambda>(c, w).
     (case currentUser c of
        (c1, None) \<Rightarrow> (c1, w)
      | (c1, Some userID) \<Rightarrow>
          (case targetUser c1 userID of
             (c2, None) \<Rightarrow> (c2, w)
           | (c2, Some target) \<Rightarrow>
               (case limitQuery c2 of
                  (c3, None) \<Rightarrow> (c3, w)
                | (c3, Some limit) \<Rightarrow>
                    (case timeQuery bi ''from'' c3 of
                       (c4, None) \<Rightarrow> (c4, w)
                     | (c4, Some from) \<Rightarrow>
                         (case timeQuery bi ''to'' c4 of
                            (c5, None) \<Rightarrow> (c5, w)
                          | (c5, Some to) \<Rightarrow>
                              finish Event_fail
                                (\<lambda>page. send_json 200 (eventPageResponse_json (newEventPageResponse target page)))
                                c5
                                (ea_List (eh_service h)
                                   \<lparr>eq_UserID = target, eq_Types = QueryArray c5 ''type'', eq_From = from,
                                    eq_To = to, eq_Limit = limit, eq_Cursor = Query c5 ''cursor''\<rparr> w)))))))"

end
