(* ===== verification/AggHandler.thy ===== *)
theory AggHandler
  imports EventHandler
begin

text \<open>
  \<open>internal/handler/aggregation.go\<close>, \<open>health.go\<close> and \<open>docs.go\<close>: statistics, aggregation runs,
  and the endpoints that say how the process is.
\<close>

record 'w AggAPI =
  ga_RunBucket :: "time \<Rightarrow> RunTrigger \<Rightarrow> ('w, AggregationRun) op"
  ga_Runs :: "int \<Rightarrow> ('w, AggregationRun list) op"
  ga_Stats :: "StatsQuery \<Rightarrow> ('w, Stats) op"

definition Aggregation_fail :: "go_error \<Rightarrow> context \<Rightarrow> context" where
  "Aggregation_fail err =
     (if errors_Is err Svc_ErrBucketNotClosed then
        response_Error 400 CodeBucketNotClosed
          ''This bucket has not closed yet, only a finished window can be aggregated''
      else if errors_Is err Svc_ErrInvalidTimeRange then
        response_Error 400 CodeValidationFailed ''from must be before to''
      else if errors_Is err Svc_ErrStatsRangeTooLarge then
        response_Error 400 CodeValidationFailed
          (''The requested window is longer than '' @ FormatInt (MaxStatsRange div Hour div 24) @ '' days'')
      else internal_error)"

text \<open>A time that is not given is the zero time.\<close>

definition given_time :: "time option \<Rightarrow> time" where
  "given_time t = (case t of None \<Rightarrow> 0 | Some u \<Rightarrow> u)"

definition Aggregation_StatsHandler :: "binding \<Rightarrow> 'w AggAPI \<Rightarrow> 'w handler" where
  "Aggregation_StatsHandler bi svc = (\<lambda>(c, w).
     (case currentUser c of
        (c1, None) \<Rightarrow> (c1, w)
      | (c1, Some userID) \<Rightarrow>
          (case targetUser c1 userID of
             (c2, None) \<Rightarrow> (c2, w)
           | (c2, Some target) \<Rightarrow>
               (case timeQuery bi ''from'' c2 of
                  (c3, None) \<Rightarrow> (c3, w)
                | (c3, Some from) \<Rightarrow>
                    (case timeQuery bi ''to'' c3 of
                       (c4, None) \<Rightarrow> (c4, w)
                     | (c4, Some to) \<Rightarrow>
                         finish Aggregation_fail
                           (\<lambda>stats. send_json 200 (statsResponse_json (newStatsResponse target stats)))
                           c4
                           (ga_Stats svc
                              \<lparr>sq_UserID = target, sq_From = given_time from, sq_To = given_time to,
                               sq_Daily = (Query c4 ''granularity'' = ''day'')\<rparr> w))))))"

text \<open>An empty body asks for the previous window.\<close>

definition Aggregation_Trigger :: "binding \<Rightarrow> 'w AggAPI \<Rightarrow> 'w handler" where
  "Aggregation_Trigger bi svc = (\<lambda>(c, w).
     (case (case bi_trigger bi (body_of c) of
              Inr t \<Rightarrow> Some t
            | Inl BodyEOF \<Rightarrow> Some None
            | Inl _ \<Rightarrow> None) of
        None \<Rightarrow>
          (response_Error 400 CodeValidationFailed ''bucket_start must be an RFC 3339 timestamp'' c, w)
      | Some t \<Rightarrow>
          finish Aggregation_fail (\<lambda>run. send_json 202 (runResponse_json (newRunResponse run)))
            c (ga_RunBucket svc (given_time t) TriggerManual w)))"

definition Aggregation_Runs :: "'w AggAPI \<Rightarrow> 'w handler" where
  "Aggregation_Runs svc = (\<lambda>(c, w).
     (case limitQuery c of
        (c1, None) \<Rightarrow> (c1, w)
      | (c1, Some limit) \<Rightarrow>
          finish Aggregation_fail (\<lambda>runs. send_json 200 (runsResponse_json (newRunsResponse runs)))
            c1 (ga_Runs svc limit w)))"

section \<open>Health and documentation\<close>

record 'w Health =
  he_ping :: "'w \<Rightarrow> bool \<times> 'w"
  he_version :: string
  he_mode :: string

definition Health_Live :: "'w Health \<Rightarrow> 'w handler" where
  "Health_Live h = (\<lambda>(c, w).
     (send_json 200 (JObj [(''status'', JStr ''ok''), (''version'', JStr (he_version h)),
                           (''mode'', JStr (he_mode h))]) c, w))"

definition Health_Ready :: "'w Health \<Rightarrow> 'w handler" where
  "Health_Ready h = (\<lambda>(c, w).
     (case he_ping h w of
        (False, w1) \<Rightarrow>
          (send_json 503 (JObj [(''status'', JStr ''unavailable''), (''database'', JStr ''down'')]) c, w1)
      | (True, w1) \<Rightarrow>
          (send_json 200 (JObj [(''status'', JStr ''ok''), (''database'', JStr ''up'')]) c, w1)))"

text \<open>A fixed document: the OpenAPI file, the page that shows it, the metrics.\<close>

definition serve_document :: "string \<Rightarrow> string \<Rightarrow> 'w handler" where
  "serve_document mediaType document = (\<lambda>(c, w).
     (write_chunk (Text document) (Status 200 (Header ''Content-Type'' mediaType c)), w))"

text \<open>The page that shows the OpenAPI file, line by line.\<close>

definition openAPIMediaType :: string where "openAPIMediaType = ''application/yaml''"
definition docsMediaType :: string where "docsMediaType = ''text/html; charset=utf-8''"

definition docs_lines :: "string list" where
  "docs_lines =
    [''<!doctype html>'',
     ''<html lang='' @ [CHR 0x22] @ ''en'' @ [CHR 0x22] @ ''>'',
     ''<head>'',
     ''  <meta charset='' @ [CHR 0x22] @ ''utf-8'' @ [CHR 0x22] @ ''>'',
     ''  <meta name='' @ [CHR 0x22] @ ''viewport'' @ [CHR 0x22] @ '' content='' @ [CHR 0x22] @ ''width=device-width, initial-scale=1'' @ [CHR 0x22] @ ''>'',
     ''  <title>activity-events-api</title>'',
     ''  <link rel='' @ [CHR 0x22] @ ''stylesheet'' @ [CHR 0x22] @ '' href='' @ [CHR 0x22] @ ''https://unpkg.com/swagger-ui-dist@5/swagger-ui.css'' @ [CHR 0x22] @ ''>'',
     ''  <style>body { margin: 0 } .topbar { display: none }</style>'',
     ''</head>'',
     ''<body>'',
     ''  <div id='' @ [CHR 0x22] @ ''ui'' @ [CHR 0x22] @ ''></div>'',
     ''  <script src='' @ [CHR 0x22] @ ''https://unpkg.com/swagger-ui-dist@5/swagger-ui-bundle.js'' @ [CHR 0x22] @ ''></script>'',
     ''  <script>'',
     ''    window.ui = SwaggerUIBundle({'',
     ''      url: '' @ [CHR 0x27] @ ''openapi.yaml'' @ [CHR 0x27] @ '','',
     ''      dom_id: '' @ [CHR 0x27] @ ''#ui'' @ [CHR 0x27] @ '','',
     ''      docExpansion: '' @ [CHR 0x27] @ ''list'' @ [CHR 0x27] @ '','',
     ''      defaultModelsExpandDepth: 0,'',
     ''      persistAuthorization: true,'',
     ''    })'',
     ''  </script>'',
     ''</body>'',
     ''</html>'']"

definition docsPage :: string where
  "docsPage = tl (concat (map (\<lambda>l. CHR 0x0A # l) docs_lines))"

definition Docs_Spec :: "string \<Rightarrow> 'w handler" where
  "Docs_Spec openAPI = serve_document openAPIMediaType openAPI"

definition Docs_Page :: "'w handler" where
  "Docs_Page = serve_document docsMediaType docsPage"

end
