(* ===== verification/GoDuration.thy ===== *)
theory GoDuration
  imports GoStrings
begin

text \<open>
  \<open>time.ParseDuration\<close>, which reads the durations of the configuration: an optional sign,
  then decimal numbers with a unit each. Numbers are 64-bit and overflow is an error; the
  part of a number after the point is multiplied with the unit in \<open>float64\<close>, which rounds
  to the nearest double, ties to even. \<open>None\<close> is Go's error.
\<close>

section \<open>The float64 product\<close>

fun bit_len :: "int \<Rightarrow> int" where
  "bit_len n = (if n \<le> 0 then 0 else 1 + bit_len (n div 2))"

declare bit_len.simps [simp del]

lemma bit_len_code [code]: "bit_len n = (if n \<le> 0 then 0 else 1 + bit_len (n div 2))"
  by (rule bit_len.simps)

text \<open>\<open>a / b\<close> rounded to an integer, ties to even.\<close>

definition round_even :: "int \<Rightarrow> int \<Rightarrow> int" where
  "round_even a b =
     (let q = a div b; r = a mod b
      in if 2 * r < b \<or> (2 * r = b \<and> even q) then q else q + 1)"

text \<open>The fraction \<open>p / q\<close> that has the value \<open>a / b * 2 powi e\<close>.\<close>

definition scale_frac :: "int \<Rightarrow> int \<Rightarrow> int \<Rightarrow> int \<times> int" where
  "scale_frac a b e = (if e < 0 then (a, b * 2 ^ nat (- e)) else (a * 2 ^ nat e, b))"

text \<open>
  The double next to \<open>a / b\<close>, as a pair \<open>(m, e)\<close> of the value \<open>m * 2 powi e\<close>: the exponent
  is the one that gives the mantissa 53 bits.
\<close>

definition float64_of :: "int \<Rightarrow> int \<Rightarrow> int \<times> int" where
  "float64_of a b =
     (if a = 0 then (0, 0)
      else
        (let e0 = bit_len a - bit_len b - 53;
             (n0, d0) = scale_frac a b (- e0);
             e = (if 2 ^ 53 * d0 \<le> n0 then e0 + 1 else e0);
             (n, d) = scale_frac a b (- e)
         in (round_even n d, e)))"

text \<open>\<open>uint64(float64(f) * (float64(unit) / scale))\<close>.\<close>

definition frac_units :: "int \<Rightarrow> int \<Rightarrow> int \<Rightarrow> int" where
  "frac_units f unt scale =
     (let (mf, ef) = float64_of f 1;
          (mu, eu) = float64_of unt scale;
          (n, d) = scale_frac (mf * mu) 1 (ef + eu);
          (m, e) = float64_of n d;
          (p, q) = scale_frac m 1 e
      in p div q)"

section \<open>Numbers and units\<close>

definition Day :: duration where "Day = 24 * Hour"

text \<open>The units of \<open>unitMap\<close>; the two spellings of the micro sign are in UTF-8.\<close>

definition unit_of :: "string \<Rightarrow> int option" where
  "unit_of u =
     (if u = ''ns'' then Some 1
      else if u = ''us'' \<or> u = [CHR 0xC2, CHR 0xB5, CHR ''s''] \<or> u = [CHR 0xCE, CHR 0xBC, CHR ''s'']
        then Some 1000
      else if u = ''ms'' then Some 1000000
      else if u = ''s'' then Some 1000000000
      else if u = ''m'' then Some 60000000000
      else if u = ''h'' then Some 3600000000000
      else None)"

definition dec_value :: "string \<Rightarrow> int" where
  "dec_value s = foldl (\<lambda>a c. 10 * a + (of_char c - 48)) 0 s"

text \<open>\<open>leadingInt\<close>: the digits in front, as a number of at most 2 to the 63.\<close>

definition leadingInt :: "string \<Rightarrow> (int \<times> string) option" where
  "leadingInt s =
     (let v = dec_value (takeWhile is_digit s)
      in if v > 2 ^ 63 then None else Some (v, dropWhile is_digit s))"

text \<open>\<open>leadingFraction\<close>: digits that no longer fit are skipped.\<close>

fun leadingFraction :: "string \<Rightarrow> int \<Rightarrow> int \<Rightarrow> bool \<Rightarrow> int \<times> int \<times> string" where
  "leadingFraction [] x scale overflow = (x, scale, [])"
| "leadingFraction (c # s) x scale overflow =
     (if \<not> is_digit c then (x, scale, c # s)
      else if overflow \<or> x > (2 ^ 63 - 1) div 10 then leadingFraction s x scale True
      else
        (let y = x * 10 + (of_char c - 48 :: int)
         in if y > 2 ^ 63 then leadingFraction s x scale True
            else leadingFraction s y (scale * 10) overflow))"

definition is_unit_char :: "char \<Rightarrow> bool" where
  "is_unit_char c \<longleftrightarrow> c \<noteq> CHR ''.'' \<and> \<not> is_digit c"

text \<open>
  The number in front: its integral part, its fraction with the scale, whether there was
  any digit, and the rest of the string.
\<close>

definition duration_number :: "string \<Rightarrow> (int \<times> int \<times> int \<times> bool \<times> string) option" where
  "duration_number s =
     (case leadingInt s of
        None \<Rightarrow> None
      | Some (v, s1) \<Rightarrow>
          (case s1 of
             [] \<Rightarrow> Some (v, 0, 1, length s1 \<noteq> length s, s1)
           | d # r \<Rightarrow>
               (if d = CHR ''.''
                then (case leadingFraction r 0 1 False of
                        (f, scale, s2) \<Rightarrow>
                          Some (v, f, scale, length s1 \<noteq> length s \<or> length s2 \<noteq> length r, s2))
                else Some (v, 0, 1, length s1 \<noteq> length s, s1))))"

text \<open>One number with its unit: its nanoseconds and the rest of the string.\<close>

definition duration_part :: "string \<Rightarrow> (int \<times> string) option" where
  "duration_part s =
     (if s = [] \<or> (hd s \<noteq> CHR ''.'' \<and> \<not> is_digit (hd s)) then None
      else
        (case duration_number s of
           None \<Rightarrow> None
         | Some (v, f, scale, digits, s2) \<Rightarrow>
             (if \<not> digits then None
              else
                (case unit_of (takeWhile is_unit_char s2) of
                   None \<Rightarrow> None
                 | Some unt \<Rightarrow>
                     (if v > 2 ^ 63 div unt then None
                      else
                        (let w = v * unt + (if f > 0 then frac_units f unt scale else 0)
                         in if w > 2 ^ 63 then None
                            else Some (w, dropWhile is_unit_char s2)))))))"

lemma leadingFraction_length:
  "leadingFraction s x scale ov = (f, sc, r) \<Longrightarrow> length r \<le> length s"
proof (induction s x scale ov rule: leadingFraction.induct)
  case (2 c s x scale ov)
  then show ?case
    by (simp only: leadingFraction.simps Let_def split: if_splits) auto
qed simp

lemma duration_number_length:
  assumes "duration_number s = Some (v, f, scale, digits, r)"
  shows "length r \<le> length s"
proof -
  from assms obtain s1 where s1: "leadingInt s = Some (v, s1)" and r: "length r \<le> length s1"
    unfolding duration_number_def
    by (auto split: option.splits list.splits if_splits prod.splits dest: leadingFraction_length)
  have "length s1 \<le> length s"
    using s1 by (auto simp: leadingInt_def Let_def length_dropWhile_le split: if_splits)
  with r show ?thesis by simp
qed

lemma unit_of_ne: "unit_of [] = None"
  by (simp add: unit_of_def)

lemma dropWhile_shorter: "takeWhile P s \<noteq> [] \<Longrightarrow> length (dropWhile P s) < length s"
  by (cases s) (auto split: if_splits simp: le_imp_less_Suc length_dropWhile_le)

lemma duration_part_shorter:
  assumes "duration_part s = Some (w, r)"
  shows "length r < length s"
proof -
  from assms obtain v f scale digits s2 where s2: "duration_number s = Some (v, f, scale, digits, s2)"
    and u: "unit_of (takeWhile is_unit_char s2) \<noteq> None" and r: "r = dropWhile is_unit_char s2"
    unfolding duration_part_def Let_def by (force split: if_splits option.splits prod.splits)
  have "takeWhile is_unit_char s2 \<noteq> []" using u unit_of_ne by metis
  with dropWhile_shorter duration_number_length [OF s2] r show ?thesis
    by (metis order_less_le_trans)
qed

text \<open>The sum of the parts is a 64-bit number that wraps around before it is compared.\<close>

function duration_loop :: "int \<Rightarrow> string \<Rightarrow> int option" where
  "duration_loop d s =
     (if s = [] then Some d
      else
        (case duration_part s of
           None \<Rightarrow> None
         | Some (v, r) \<Rightarrow>
             (let d1 = (d + v) mod 2 ^ 64
              in if d1 > 2 ^ 63 then None else duration_loop d1 r)))"
  by pat_completeness auto
termination
  by (relation "measure (\<lambda>(d, s). length s)") (auto dest: duration_part_shorter)

declare duration_loop.simps [simp del]

lemma duration_loop_code [code]:
  "duration_loop d s =
     (if s = [] then Some d
      else
        (case duration_part s of
           None \<Rightarrow> None
         | Some (v, r) \<Rightarrow>
             (let d1 = (d + v) mod 2 ^ 64
              in if d1 > 2 ^ 63 then None else duration_loop d1 r)))"
  by (rule duration_loop.simps)

definition ParseDuration :: "string \<Rightarrow> duration option" where
  "ParseDuration s =
     (let (neg, body) =
        (case s of
           c # r \<Rightarrow> if c = CHR ''-'' then (True, r) else if c = CHR ''+'' then (False, r) else (False, s)
         | [] \<Rightarrow> (False, s))
      in if body = ''0'' then Some 0
         else if body = '''' then None
         else
           (case duration_loop 0 body of
              None \<Rightarrow> None
            | Some d \<Rightarrow>
                (if neg then Some (- d)
                 else if d > 2 ^ 63 - 1 then None else Some d)))"

lemma duration_loop_range:
  "duration_loop d s = Some n \<Longrightarrow> 0 \<le> d \<Longrightarrow> d \<le> 2 ^ 63 \<Longrightarrow> 0 \<le> n \<and> n \<le> 2 ^ 63"
proof (induction d s rule: duration_loop.induct)
  case (1 d s)
  show ?case
  proof (cases "s = []")
    case True
    then show ?thesis using 1(2,3,4) by (simp add: duration_loop.simps [of d "[]"])
  next
    case False
    then obtain v r where p: "duration_part s = Some (v, r)"
      using 1(2) by (auto simp: duration_loop.simps [of d s] split: option.splits)
    define e where "e = (d + v) mod 2 ^ 64"
    have "duration_loop e r = Some n" "0 \<le> e" "e \<le> 2 ^ 63"
      using 1(2) False p by (auto simp: duration_loop.simps [of d s] Let_def e_def split: if_splits)
    then show ?thesis using 1(1) [OF False p] e_def by auto
  qed
qed

text \<open>What it returns is a duration: a 64-bit number.\<close>

lemma ParseDuration_in_int64: "ParseDuration s = Some d \<Longrightarrow> in_int64 d"
  using duration_loop_range [of 0]
  by (force simp: ParseDuration_def in_int64_def min_int64_def max_int64_def Let_def
      split: list.splits if_splits option.splits)

end
