(* ===== verification/Config.thy ===== *)
theory Config
  imports GoDuration
begin

text \<open>
  \<open>internal/config/config.go\<close>: the configuration is read from the environment and checked
  before anything is started.

  \<open>environment\<close> is what the process runs in: \<open>Getenv\<close> (the empty string for a variable that
  is not set) and, as parameters, the Unicode case tables and the parsers of addresses and
  URLs of the packages \<open>netip\<close> and \<open>url\<close>, of which only success counts here. An error has
  one constructor per message, with the values that the message shows.
\<close>

type_synonym Mode = string

definition ModeAPI :: Mode where "ModeAPI = ''api''"
definition ModeWorker :: Mode where "ModeWorker = ''worker''"
definition ModeAll :: Mode where "ModeAll = ''all''"

definition RunsAPI :: "Mode \<Rightarrow> bool" where "RunsAPI m \<longleftrightarrow> m = ModeAPI \<or> m = ModeAll"
definition RunsWorker :: "Mode \<Rightarrow> bool" where "RunsWorker m \<longleftrightarrow> m = ModeWorker \<or> m = ModeAll"

record AggregationConfig =
  ca_Bucket :: duration
  ca_Tick :: duration
  ca_Backfill :: int

record AppConfig =
  cp_Env :: string
  cp_Mode :: Mode
  cp_FrontendURL :: string

definition IsProduction :: "AppConfig \<Rightarrow> bool" where
  "IsProduction a \<longleftrightarrow> cp_Env a = ''production''"

record HTTPConfig =
  ch_Port :: string
  ch_ReadTimeout :: duration
  ch_WriteTimeout :: duration
  ch_ShutdownTimeout :: duration
  ch_MaxBodyBytes :: int
  ch_TrustedProxies :: "string list"

definition HTTP_Addr :: "HTTPConfig \<Rightarrow> string" where
  "HTTP_Addr h = '':'' @ ch_Port h"

record LogConfig =
  cl_Level :: string
  cl_Format :: string

record DBConfig =
  cd_URL :: string
  cd_MaxConns :: "32 word"
  cd_MinConns :: "32 word"
  cd_MigrationsDir :: string
  cd_ConnectRetries :: int
  cd_ConnectBackoff :: duration

record CORSConfig =
  cc_AllowedOrigins :: "string list"

record AuthConfig =
  ct_JWTSecret :: string
  ct_MinSecretLen :: int
  ct_Issuer :: string
  ct_AccessTTL :: duration
  ct_RefreshTTL :: duration
  ct_BcryptCost :: int

record GoogleConfig =
  cg_ClientID :: string
  cg_ClientSecret :: string
  cg_RedirectURL :: string
  cg_AuthURL :: string
  cg_TokenURL :: string
  cg_JWKSURL :: string

definition Google_Enabled :: "GoogleConfig \<Rightarrow> bool" where
  "Google_Enabled g \<longleftrightarrow> cg_ClientID g \<noteq> ''''"

definition CodeFlowEnabled :: "GoogleConfig \<Rightarrow> bool" where
  "CodeFlowEnabled g \<longleftrightarrow> Google_Enabled g \<and> cg_ClientSecret g \<noteq> '''' \<and> cg_RedirectURL g \<noteq> ''''"

record Config =
  cf_App :: AppConfig
  cf_HTTP :: HTTPConfig
  cf_Log :: LogConfig
  cf_DB :: DBConfig
  cf_CORS :: CORSConfig
  cf_Auth :: AuthConfig
  cf_Google :: GoogleConfig
  cf_Aggregation :: AggregationConfig

record Migrations =
  mi_Log :: LogConfig
  mi_DB :: DBConfig

definition defaultMinJWTSecretLen :: int where "defaultMinJWTSecretLen = 32"
definition defaultAggregationBucket :: duration where "defaultAggregationBucket = 4 * Hour"
definition defaultAggregationTick :: duration where "defaultAggregationTick = 5 * Minute"
definition defaultAggregationBackfill :: int where "defaultAggregationBackfill = 12"

datatype config_error =
    UnknownMode string
  | DatabaseURLRequired
  | MinConnsGreater "32 word" "32 word"
  | ShutdownTimeoutNotPositive
  | BucketNotPositive
  | BucketNotDividingDay duration
  | TickNotPositive
  | BackfillNotPositive
  | MaxBodyBytesNotPositive
  | BadTrustedProxy string
  | BadFrontendURL string
  | RedirectURLRequired
  | ClientSecretRequired
  | BadRedirectURL string
  | MinSecretLenTooLow
  | SecretTooShort int
  | AccessTTLNotPositive
  | RefreshTTLTooShort duration duration
  | BadBcryptCost int

section \<open>Reading the environment\<close>

record environment =
  en_Getenv :: "string \<Rightarrow> string"
  en_lower :: "string \<Rightarrow> string"
  en_prefix_ok :: "string \<Rightarrow> bool"
  en_addr_ok :: "string \<Rightarrow> bool"
  en_uri_ok :: "string \<Rightarrow> bool"

definition env :: "environment \<Rightarrow> string \<Rightarrow> string \<Rightarrow> string" where
  "env e key def = (let v = TrimSpace (en_Getenv e key) in if v \<noteq> '''' then v else def)"

definition envInt :: "environment \<Rightarrow> string \<Rightarrow> int \<Rightarrow> int" where
  "envInt e key def = (case Atoi (env e key '''') of None \<Rightarrow> def | Some v \<Rightarrow> v)"

definition envDuration :: "environment \<Rightarrow> string \<Rightarrow> duration \<Rightarrow> duration" where
  "envDuration e key def = (case ParseDuration (env e key '''') of None \<Rightarrow> def | Some v \<Rightarrow> v)"

definition envList :: "environment \<Rightarrow> string \<Rightarrow> string list \<Rightarrow> string list" where
  "envList e key def =
     (let raw = env e key ''''
      in if raw = '''' then def
         else
           (let out = filter (\<lambda>p. p \<noteq> '''') (map TrimSpace (Split raw (CHR '','')))
            in if out = [] then def else out))"

definition loadLog :: "environment \<Rightarrow> LogConfig" where
  "loadLog e =
     \<lparr>cl_Level = ToLower (en_lower e) (env e ''LOG_LEVEL'' ''info''),
      cl_Format = ToLower (en_lower e) (env e ''LOG_FORMAT'' ''json'')\<rparr>"

text \<open>The conversion \<open>int32(n)\<close> keeps the low 32 bits.\<close>

definition loadDB :: "environment \<Rightarrow> DBConfig" where
  "loadDB e =
     \<lparr>cd_URL = env e ''DATABASE_URL'' '''',
      cd_MaxConns = word_of_int (envInt e ''DB_MAX_CONNS'' 10),
      cd_MinConns = word_of_int (envInt e ''DB_MIN_CONNS'' 2),
      cd_MigrationsDir = env e ''MIGRATIONS_DIR'' ''migrations'',
      cd_ConnectRetries = envInt e ''DB_CONNECT_RETRIES'' 10,
      cd_ConnectBackoff = envDuration e ''DB_CONNECT_BACKOFF'' Second\<rparr>"

definition LoadMigrations :: "environment \<Rightarrow> config_error + Migrations" where
  "LoadMigrations e =
     (let cfg = \<lparr>mi_Log = loadLog e, mi_DB = loadDB e\<rparr>
      in if cd_URL (mi_DB cfg) = '''' then Inl DatabaseURLRequired else Inr cfg)"

section \<open>The checks\<close>

fun check_proxies :: "environment \<Rightarrow> string list \<Rightarrow> config_error option" where
  "check_proxies e [] = None"
| "check_proxies e (cidr # rest) =
     (if \<not> en_prefix_ok e cidr \<and> \<not> en_addr_ok e cidr then Some (BadTrustedProxy cidr)
      else check_proxies e rest)"

definition check_aggregation :: "AggregationConfig \<Rightarrow> config_error option" where
  "check_aggregation a =
     (if ca_Bucket a \<le> 0 then Some BucketNotPositive
      else if Day mod ca_Bucket a \<noteq> 0 then Some (BucketNotDividingDay (ca_Bucket a))
      else if ca_Tick a \<le> 0 then Some TickNotPositive
      else if ca_Backfill a \<le> 0 then Some BackfillNotPositive
      else None)"

definition check_google :: "environment \<Rightarrow> GoogleConfig \<Rightarrow> config_error option" where
  "check_google e g =
     (if cg_ClientSecret g \<noteq> '''' \<and> cg_RedirectURL g = '''' then Some RedirectURLRequired
      else if cg_RedirectURL g \<noteq> '''' \<and> cg_ClientSecret g = '''' then Some ClientSecretRequired
      else if CodeFlowEnabled g
        then (if \<not> en_uri_ok e (cg_RedirectURL g) then Some (BadRedirectURL (cg_RedirectURL g)) else None)
      else None)"

definition check_auth :: "AuthConfig \<Rightarrow> config_error option" where
  "check_auth a =
     (if ct_MinSecretLen a < defaultMinJWTSecretLen then Some MinSecretLenTooLow
      else if int (length (ct_JWTSecret a)) < ct_MinSecretLen a then Some (SecretTooShort (ct_MinSecretLen a))
      else if ct_AccessTTL a \<le> 0 then Some AccessTTLNotPositive
      else if ct_RefreshTTL a \<le> ct_AccessTTL a then Some (RefreshTTLTooShort (ct_RefreshTTL a) (ct_AccessTTL a))
      else if ct_BcryptCost a < 4 \<or> ct_BcryptCost a > 31 then Some (BadBcryptCost (ct_BcryptCost a))
      else None)"

text \<open>\<open>validate\<close> returns the first check that fails; \<open>None\<close> is a nil error.\<close>

definition validate :: "environment \<Rightarrow> Config \<Rightarrow> config_error option" where
  "validate e c =
     (if cp_Mode (cf_App c) \<notin> {ModeAPI, ModeWorker, ModeAll} then Some (UnknownMode (cp_Mode (cf_App c)))
      else if cd_URL (cf_DB c) = '''' then Some DatabaseURLRequired
      else if sint (cd_MinConns (cf_DB c)) > sint (cd_MaxConns (cf_DB c))
        then Some (MinConnsGreater (cd_MinConns (cf_DB c)) (cd_MaxConns (cf_DB c)))
      else if ch_ShutdownTimeout (cf_HTTP c) \<le> 0 then Some ShutdownTimeoutNotPositive
      else
        (case check_aggregation (cf_Aggregation c) of
           Some err \<Rightarrow> Some err
         | None \<Rightarrow>
             (if \<not> RunsAPI (cp_Mode (cf_App c)) then None
              else if ch_MaxBodyBytes (cf_HTTP c) \<le> 0 then Some MaxBodyBytesNotPositive
              else
                (case check_proxies e (ch_TrustedProxies (cf_HTTP c)) of
                   Some err \<Rightarrow> Some err
                 | None \<Rightarrow>
                     (if \<not> en_uri_ok e (cp_FrontendURL (cf_App c))
                        then Some (BadFrontendURL (cp_FrontendURL (cf_App c)))
                      else
                        (case check_google e (cf_Google c) of
                           Some err \<Rightarrow> Some err
                         | None \<Rightarrow> check_auth (cf_Auth c)))))))"

definition Load :: "environment \<Rightarrow> config_error + Config" where
  "Load e =
     (let cfg =
        \<lparr>cf_App =
           \<lparr>cp_Env = env e ''APP_ENV'' ''development'',
            cp_Mode = ToLower (en_lower e) (env e ''APP_MODE'' ModeAll),
            cp_FrontendURL = TrimRight (env e ''FRONTEND_URL'' ''http://localhost:5173'') ''/''\<rparr>,
         cf_HTTP =
           \<lparr>ch_Port = env e ''PORT'' (env e ''HTTP_PORT'' ''8080''),
            ch_ReadTimeout = envDuration e ''HTTP_READ_TIMEOUT'' (15 * Second),
            ch_WriteTimeout = envDuration e ''HTTP_WRITE_TIMEOUT'' (30 * Second),
            ch_ShutdownTimeout = envDuration e ''SHUTDOWN_TIMEOUT'' (15 * Second),
            ch_MaxBodyBytes = envInt e ''MAX_BODY_BYTES'' (64 * 1024),
            ch_TrustedProxies = envList e ''TRUSTED_PROXIES'' []\<rparr>,
         cf_Log = loadLog e,
         cf_DB = loadDB e,
         cf_CORS = \<lparr>cc_AllowedOrigins = envList e ''CORS_ALLOWED_ORIGINS'' [''http://localhost:5173'']\<rparr>,
         cf_Auth =
           \<lparr>ct_JWTSecret = env e ''JWT_SECRET'' '''',
            ct_MinSecretLen = envInt e ''JWT_SECRET_MIN_LEN'' defaultMinJWTSecretLen,
            ct_Issuer = env e ''JWT_ISSUER'' ''activity-events-api'',
            ct_AccessTTL = envDuration e ''JWT_ACCESS_TTL'' (15 * Minute),
            ct_RefreshTTL = envDuration e ''JWT_REFRESH_TTL'' (30 * Day),
            ct_BcryptCost = envInt e ''BCRYPT_COST'' 12\<rparr>,
         cf_Google =
           \<lparr>cg_ClientID = env e ''GOOGLE_CLIENT_ID'' '''',
            cg_ClientSecret = env e ''GOOGLE_CLIENT_SECRET'' '''',
            cg_RedirectURL = env e ''GOOGLE_REDIRECT_URL'' '''',
            cg_AuthURL = env e ''GOOGLE_AUTH_URL'' ''https://accounts.google.com/o/oauth2/v2/auth'',
            cg_TokenURL = env e ''GOOGLE_TOKEN_URL'' ''https://oauth2.googleapis.com/token'',
            cg_JWKSURL = env e ''GOOGLE_JWKS_URL'' ''https://www.googleapis.com/oauth2/v3/certs''\<rparr>,
         cf_Aggregation =
           \<lparr>ca_Bucket = envDuration e ''AGGREGATION_BUCKET'' defaultAggregationBucket,
            ca_Tick = envDuration e ''AGGREGATION_TICK'' defaultAggregationTick,
            ca_Backfill = envInt e ''AGGREGATION_BACKFILL'' defaultAggregationBackfill\<rparr>\<rparr>
      in case validate e cfg of Some err \<Rightarrow> Inl err | None \<Rightarrow> Inr cfg)"

section \<open>What is accepted\<close>

lemma check_proxies_None:
  "check_proxies e ps = None \<longleftrightarrow> (\<forall>p\<in>set ps. en_prefix_ok e p \<or> en_addr_ok e p)"
  by (induction ps) auto

lemma Load_Inr: "Load e = Inr c \<Longrightarrow> validate e c = None"
  by (auto simp: Load_def Let_def split: option.splits)

lemma validate_aggregation:
  "validate e c = None \<Longrightarrow> check_aggregation (cf_Aggregation c) = None"
  by (simp add: validate_def split: option.splits if_splits)

lemma validate_api:
  "validate e c = None \<Longrightarrow> RunsAPI (cp_Mode (cf_App c)) \<Longrightarrow>
     check_auth (cf_Auth c) = None \<and> check_google e (cf_Google c) = None \<and> 0 < ch_MaxBodyBytes (cf_HTTP c) \<and>
     en_uri_ok e (cp_FrontendURL (cf_App c)) \<and> check_proxies e (ch_TrustedProxies (cf_HTTP c)) = None"
  by (simp add: validate_def split: option.splits if_splits)

lemma check_aggregation_None:
  "check_aggregation a = None \<longleftrightarrow> 0 < ca_Bucket a \<and> ca_Bucket a dvd Day \<and> 0 < ca_Tick a \<and> 0 < ca_Backfill a"
  by (auto simp: check_aggregation_def)

lemma check_auth_None:
  "check_auth a = None \<longleftrightarrow> 32 \<le> ct_MinSecretLen a \<and> ct_MinSecretLen a \<le> int (length (ct_JWTSecret a)) \<and>
     0 < ct_AccessTTL a \<and> ct_AccessTTL a < ct_RefreshTTL a \<and> 4 \<le> ct_BcryptCost a \<and> ct_BcryptCost a \<le> 31"
  by (auto simp: check_auth_def defaultMinJWTSecretLen_def)

end
