(* ===== verification/Router.thy ===== *)
theory Router
  imports AggHandler Config
begin

text \<open>
  \<open>internal/router/router.go\<close>: the middlewares every request passes, and the table of
  routes. gin matches a request by its method and its path; a request that matches nothing
  still passes the middlewares and then gets gin's 404.

  \<open>process\<close> is what the middlewares use of the process: UUIDs, the clock, the metrics and the
  log; \<open>pr_documents\<close> are the documents the program serves without computing them: the
  metrics in Prometheus' format and the OpenAPI file.
\<close>

record 'w "process" =
  pr_library :: "'w library"
  pr_now :: "'w \<Rightarrow> time \<times> 'w"
  pr_metrics :: "(metrics \<Rightarrow> metrics) \<Rightarrow> 'w \<Rightarrow> 'w"
  pr_log :: "log_entry \<Rightarrow> 'w \<Rightarrow> 'w"
  pr_documents :: "string \<Rightarrow> string"

record 'w RouterDeps =
  rd_Config :: Config
  rd_Health :: "'w Health"
  rd_Auth :: "'w AuthHandler option"
  rd_Events :: "'w EventHandler option"
  rd_Aggregation :: "'w AggAPI option"
  rd_Guard :: "'w TokenParser option"

record 'w route =
  ro_method :: string
  ro_path :: string
  ro_handler :: "'w handler"

definition route_to :: "string \<Rightarrow> string \<Rightarrow> 'w handler \<Rightarrow> 'w route" where
  "route_to verb path h = \<lparr>ro_method = verb, ro_path = path, ro_handler = h\<rparr>"

text \<open>\<open>signals\<close> is what an event stream sees until its request is over.\<close>

definition auth_routes :: "binding \<Rightarrow> 'w TokenParser \<Rightarrow> 'w AuthHandler \<Rightarrow> 'w route list" where
  "auth_routes bi guard a =
     [route_to ''GET'' ''/api/v1/auth/methods'' (Auth_Methods a),
      route_to ''POST'' ''/api/v1/auth/register'' (Auth_Register bi a),
      route_to ''POST'' ''/api/v1/auth/login'' (Auth_Login bi a),
      route_to ''GET'' ''/api/v1/auth/google/start'' (GoogleStart a),
      route_to ''GET'' ''/api/v1/auth/google/callback'' (GoogleCallback_handler a),
      route_to ''POST'' ''/api/v1/auth/google/exchange'' (GoogleExchange bi a),
      route_to ''POST'' ''/api/v1/auth/refresh'' (Auth_Refresh bi a),
      route_to ''POST'' ''/api/v1/auth/logout'' (Auth_Logout bi a),
      route_to ''GET'' ''/api/v1/auth/me'' (RequireAuth guard (Auth_Me a))]"

definition event_routes :: "binding \<Rightarrow> signal list \<Rightarrow> 'w TokenParser \<Rightarrow> 'w EventHandler \<Rightarrow> 'w route list" where
  "event_routes bi signals guard e =
     [route_to ''POST'' ''/api/v1/events'' (RequireAuth guard (Event_Create bi e)),
      route_to ''POST'' ''/api/v1/events/batch'' (RequireAuth guard (Event_CreateBatch bi e)),
      route_to ''GET'' ''/api/v1/events'' (RequireAuth guard (Event_ListHandler bi e)),
      route_to ''GET'' ''/api/v1/events/stream'' (RequireAuth guard (Event_Stream signals e))]"

definition admin_only :: "'w TokenParser \<Rightarrow> 'w middleware" where
  "admin_only guard h = RequireAuth guard (RequireRole [RoleAdmin] h)"

definition stats_routes :: "binding \<Rightarrow> 'w TokenParser \<Rightarrow> 'w AuthHandler \<Rightarrow> 'w AggAPI \<Rightarrow> 'w route list" where
  "stats_routes bi guard a s =
     [route_to ''GET'' ''/api/v1/stats/activity'' (RequireAuth guard (Aggregation_StatsHandler bi s)),
      route_to ''GET'' ''/api/v1/admin/users'' (admin_only guard (Auth_Accounts a)),
      route_to ''POST'' ''/api/v1/admin/aggregation/runs'' (admin_only guard (Aggregation_Trigger bi s)),
      route_to ''GET'' ''/api/v1/admin/aggregation/runs'' (admin_only guard (Aggregation_Runs s))]"

definition registerAPI :: "binding \<Rightarrow> signal list \<Rightarrow> 'w RouterDeps \<Rightarrow> 'w route list" where
  "registerAPI bi signals d =
     (case (rd_Auth d, rd_Guard d) of
        (Some a, Some guard) \<Rightarrow>
          auth_routes bi guard a @
          (case rd_Events d of
             None \<Rightarrow> []
           | Some e \<Rightarrow>
               event_routes bi signals guard e @
               (case rd_Aggregation d of None \<Rightarrow> [] | Some s \<Rightarrow> stats_routes bi guard a s))
      | _ \<Rightarrow> [])"

definition routes :: "'w process \<Rightarrow> binding \<Rightarrow> signal list \<Rightarrow> 'w RouterDeps \<Rightarrow> 'w route list" where
  "routes p bi signals d =
     [route_to ''GET'' ''/healthz'' (Health_Live (rd_Health d)),
      route_to ''GET'' ''/readyz'' (Health_Ready (rd_Health d)),
      route_to ''GET'' ''/metrics'' (serve_document ''text/plain'' (pr_documents p ''metrics''))] @
     (if RunsAPI (cp_Mode (cf_App (rd_Config d)))
      then [route_to ''GET'' ''/docs'' Docs_Page,
            route_to ''GET'' ''/openapi.yaml'' (Docs_Spec (pr_documents p ''openapi''))] @
           registerAPI bi signals d
      else [])"

definition middlewares :: "'w process \<Rightarrow> 'w RouterDeps \<Rightarrow> 'w middleware" where
  "middlewares p d h =
     RequestID (pr_library p)
       (MetricsMiddleware (pr_metrics p) (pr_now p)
         (Logger_middleware (pr_log p) (pr_now p) [''/healthz'', ''/readyz'', ''/metrics'']
           (Recovery
             (CORS (cc_AllowedOrigins (cf_CORS (rd_Config d)))
               (BodyLimit (ch_MaxBodyBytes (cf_HTTP (rd_Config d))) h)))))"

definition find_route :: "'w route list \<Rightarrow> request \<Rightarrow> 'w route option" where
  "find_route rs r = find (\<lambda>x. ro_method x = rq_method r \<and> ro_path x = rq_path r) rs"

text \<open>gin's answer where no route matches, unless a middleware has already answered.\<close>

definition serve_not_found :: "'w process \<Rightarrow> 'w RouterDeps \<Rightarrow> request \<Rightarrow> 'w \<Rightarrow> context \<times> 'w" where
  "serve_not_found p d r w =
     (case middlewares p d (\<lambda>cw. cw) (Status 404 (new_context r ''''), w) of
        (c, w1) \<Rightarrow>
          (if \<not> cx_wrote c \<and> cx_status c = 404
           then (write_chunk (Text ''404 page not found'') c, w1) else (c, w1)))"

definition serve :: "'w process \<Rightarrow> binding \<Rightarrow> signal list \<Rightarrow> 'w RouterDeps \<Rightarrow> request \<Rightarrow> 'w \<Rightarrow> context \<times> 'w" where
  "serve p bi signals d r w =
     (case find_route (routes p bi signals d) r of
        Some x \<Rightarrow> middlewares p d (ro_handler x) (new_context r (ro_path x), w)
      | None \<Rightarrow> serve_not_found p d r w)"


lemma find_route_Some:
  assumes "find_route rs r = Some x"
  shows "x \<in> set rs" and "ro_method x = rq_method r" and "ro_path x = rq_path r"
  using assms by (auto simp: find_route_def find_Some_iff)

end
