(* ===== verification/Scheduler.thy ===== *)
theory Scheduler
  imports AggService
begin

text \<open>
  \<open>internal/scheduler/scheduler.go\<close>: a pass over the pending windows at the start and at
  every tick, until the process stops. \<open>wakeup\<close> is what wakes the \<open>select\<close> of the loop. A
  pass that would not end makes the result \<open>None\<close>; what is logged is left out.
\<close>

datatype wakeup = Tick | Stop

record 'w Scheduler =
  sc_aggregator :: "'w \<Rightarrow> ((AggregationRun list \<times> go_error option) \<times> 'w) option"
  sc_tick :: duration

definition Scheduler_New :: "('w \<Rightarrow> ((AggregationRun list \<times> go_error option) \<times> 'w) option) \<Rightarrow> duration \<Rightarrow> 'w Scheduler" where
  "Scheduler_New aggregator tick =
     \<lparr>sc_aggregator = aggregator, sc_tick = (if tick \<le> 0 then 5 * Minute else tick)\<rparr>"

definition runOnce :: "'w Scheduler \<Rightarrow> 'w \<Rightarrow> 'w option" where
  "runOnce s w = (case sc_aggregator s w of None \<Rightarrow> None | Some (_, w1) \<Rightarrow> Some w1)"

fun run_loop :: "'w Scheduler \<Rightarrow> wakeup list \<Rightarrow> 'w \<Rightarrow> 'w option" where
  "run_loop s [] w = Some w"
| "run_loop s (Stop # _) w = Some w"
| "run_loop s (Tick # rest) w =
     (case runOnce s w of None \<Rightarrow> None | Some w1 \<Rightarrow> run_loop s rest w1)"

definition Scheduler_Run :: "'w Scheduler \<Rightarrow> wakeup list \<Rightarrow> 'w \<Rightarrow> 'w option" where
  "Scheduler_Run s wakeups w =
     (case runOnce s w of None \<Rightarrow> None | Some w1 \<Rightarrow> run_loop s wakeups w1)"

lemma runOnce_total:
  assumes "sc_aggregator s w \<noteq> None"
  shows "\<exists>w'. runOnce s w = Some w'"
  using assms by (auto simp: runOnce_def)

lemma run_loop_total:
  assumes "\<And>w. sc_aggregator s w \<noteq> None"
  shows "run_loop s wakeups w \<noteq> None"
proof (induction wakeups arbitrary: w)
  case (Cons u rest)
  obtain w' where "runOnce s w = Some w'" using runOnce_total [OF assms [of w]] by blast
  with Cons show ?case by (cases u) simp_all
qed simp

end
