(* ===== verification/App.thy ===== *)
theory App
  imports Router AuthWorld GoogleClient Scheduler
begin

text \<open>
  \<open>internal/app/deps.go\<close>: how the components are put together from the configuration, over
  the state \<open>world\<close> of the process.

  \<open>outside_code\<close> holds what is not part of the program: the database server's functions, the
  libraries, Google, the binder of request bodies and the fixed documents.
\<close>

record outside_code =
  oc_postgres :: postgres
  oc_library :: "world library"
  oc_outside :: outside
  oc_binding :: binding
  oc_documents :: "string \<Rightarrow> string"

section \<open>The interfaces of the handlers\<close>

definition auth_api :: "'w library \<Rightarrow> 'w AuthService \<Rightarrow> 'w AuthAPI" where
  "auth_api lib s =
     \<lparr>aa_Register = Register lib s, aa_Login = Login lib s, aa_StartGoogleFlow = StartGoogleFlow lib s,
      aa_CompleteGoogleFlow = CompleteGoogleFlow lib s, aa_ExchangeGoogleCode = ExchangeGoogleCode lib s,
      aa_Refresh = Refresh lib s, aa_Logout = Logout lib s, aa_User = AuthService_User s,
      aa_Accounts = Accounts s\<rparr>"

definition event_api :: "(string \<Rightarrow> string) \<Rightarrow> 'w EventService \<Rightarrow> 'w EventAPI" where
  "event_api lower s =
     \<lparr>ea_Record = Event_Record lower s, ea_RecordBatch = RecordBatch lower s, ea_List = Event_List lower s\<rparr>"

definition agg_api :: "'w Aggregation \<Rightarrow> 'w AggAPI" where
  "agg_api s = \<lparr>ga_RunBucket = RunBucket s, ga_Runs = Runs s, ga_Stats = Aggregation_Stats s\<rparr>"

text \<open>
  The broker behind the streams. \<open>None\<close> would be a panic of \<open>cancel\<close>, which the theorem
  \<open>broker_never_panics\<close> of \<open>BrokerProps\<close> excludes.
\<close>

definition world_receive :: "nat \<Rightarrow> world \<Rightarrow> received \<times> world" where
  "world_receive a w =
     (let s = sub_at (w_broker w) a
      in case su_events s of
           [] \<Rightarrow> (if su_closed s then Closed else Blocked, w)
         | e # _ \<Rightarrow> (Got e, w\<lparr>w_broker := receive a (w_broker w)\<rparr>))"

definition world_cancel :: "nat \<Rightarrow> world \<Rightarrow> world" where
  "world_cancel a w =
     (case Broker_cancel (Some stream_metrics) a (w_broker w, w_metrics w) of
        None \<Rightarrow> w
      | Some (b, m) \<Rightarrow> w\<lparr>w_broker := b, w_metrics := m\<rparr>)"

definition world_subscribe :: "int \<Rightarrow> world \<Rightarrow> world Subscription \<times> world" where
  "world_subscribe userID w =
     (case Broker_Subscribe (Some stream_metrics) userID (w_broker w, w_metrics w) of
        (a, (b, m)) \<Rightarrow>
          (\<lparr>sb_receive = world_receive a, sb_cancel = world_cancel a\<rparr>, w\<lparr>w_broker := b, w_metrics := m\<rparr>))"

text \<open>\<open>pool.Ping\<close>: one round trip.\<close>

definition world_ping :: "world \<Rightarrow> bool \<times> world" where
  "world_ping w = (case round_trip w of (Some _, w1) \<Rightarrow> (False, w1) | (None, w1) \<Rightarrow> (True, w1))"

text \<open>The guard parses a token at the time the JWT library reads.\<close>

definition world_parse :: "world library \<Rightarrow> Manager \<Rightarrow> string \<Rightarrow> (world, Claims) op" where
  "world_parse lib m raw w = (case world_now w of (now, w1) \<Rightarrow> (Manager_Parse lib m now raw, w1))"

section \<open>Wiring\<close>

definition setup_of :: "outside_code \<Rightarrow> Config \<Rightarrow> Manager \<Rightarrow> auth_setup" where
  "setup_of oc cfg jwt =
     (let g = cf_Google cfg;
          exchanger = NewGoogleExchanger (cg_ClientID g) (cg_ClientSecret g) (cg_RedirectURL g)
                        (cg_AuthURL g) (cg_TokenURL g)
      in \<lparr>su_postgres = oc_postgres oc, su_library = oc_library oc,
          su_outside = (oc_outside oc)\<lparr>out_auth_url := AuthCodeURL exchanger\<rparr>,
          su_jwt = jwt, su_cost = ct_BcryptCost (cf_Auth cfg), su_ttl = ct_RefreshTTL (cf_Auth cfg),
          su_google = Google_Enabled g, su_code_flow = CodeFlowEnabled g, su_decoy = ''''\<rparr>)"

definition base_deps :: "Config \<Rightarrow> string \<Rightarrow> world RouterDeps" where
  "base_deps cfg version =
     \<lparr>rd_Config = cfg,
      rd_Health = \<lparr>he_ping = world_ping, he_version = version, he_mode = cp_Mode (cf_App cfg)\<rparr>,
      rd_Auth = None, rd_Events = None, rd_Aggregation = None, rd_Guard = None\<rparr>"

definition api_deps ::
    "outside_code \<Rightarrow> Config \<Rightarrow> string \<Rightarrow> auth_setup \<Rightarrow> world AuthService \<Rightarrow> world Aggregation \<Rightarrow> world RouterDeps" where
  "api_deps oc cfg version x s agg =
     (base_deps cfg version)
       \<lparr>rd_Auth := Some (NewAuthHandler (auth_api (auth_library x) s) (cp_FrontendURL (cf_App cfg))
                           (CodeFlowEnabled (cf_Google cfg))),
        rd_Events := Some \<lparr>eh_service = event_api (lib_lower (oc_library oc)) (event_service (oc_postgres oc)),
                           eh_Subscribe = world_subscribe\<rparr>,
        rd_Aggregation := Some (agg_api agg),
        rd_Guard := Some (world_parse (auth_library x) (su_jwt x))\<rparr>"

definition wireAPI ::
    "outside_code \<Rightarrow> Config \<Rightarrow> string \<Rightarrow> world Aggregation \<Rightarrow> (world, world RouterDeps) op" where
  "wireAPI oc cfg version agg w =
     (case NewManager (ct_JWTSecret (cf_Auth cfg)) (ct_Issuer (cf_Auth cfg)) (ct_AccessTTL (cf_Auth cfg)) of
        Inl err \<Rightarrow> (Inl err, w)
      | Inr jwt \<Rightarrow>
          (let x = setup_of oc cfg jwt
           in case NewAuth (auth_library x) world_now (auth_deps x) w of
                (Inl err, w1) \<Rightarrow> (Inl err, w1)
              | (Inr s, w1) \<Rightarrow> (Inr (api_deps oc cfg version x s agg), w1\<lparr>w_broker := NewBroker\<rparr>)))"

definition BuildDeps ::
    "outside_code \<Rightarrow> Config \<Rightarrow> string \<Rightarrow> (world, world RouterDeps \<times> world Scheduler option) op" where
  "BuildDeps oc cfg version w =
     (let agg = aggregation_service (ca_Bucket (cf_Aggregation cfg)) (ca_Backfill (cf_Aggregation cfg));
          worker = (if RunsWorker (cp_Mode (cf_App cfg)) 
                    then Some (Scheduler_New (RunPending agg) (ca_Tick (cf_Aggregation cfg))) else None)
      in if \<not> RunsAPI (cp_Mode (cf_App cfg)) then (Inr (base_deps cfg version, worker), w)
         else
           (case wireAPI oc cfg version agg w of
              (Inl err, w1) \<Rightarrow> (Inl err, w1)
            | (Inr deps, w1) \<Rightarrow> (Inr (deps, worker), w1)))"

text \<open>The log leaves the process through zap; nothing in the program reads it.\<close>

definition world_process :: "outside_code \<Rightarrow> world process" where
  "world_process oc =
     \<lparr>pr_library = (oc_library oc)\<lparr>lib_rand := world_rand, lib_uuid := world_uuid\<rparr>, pr_now = world_now,
      pr_metrics = (\<lambda>f w. w\<lparr>w_metrics := f (w_metrics w)\<rparr>), pr_log = (\<lambda>_ w. w),
      pr_documents = oc_documents oc\<rparr>"

end
