(* ===== verification/ApiSteps.thy ===== *)
theory ApiSteps
  imports App AuthLogic
begin

text \<open>
  The whole program takes the accounts, the sessions and the Google sign-ins only through
  the steps of the authentication service: every request that the router serves and every
  pass of the scheduler is a sequence of \<open>auth_step\<close>. The first part shows that the other
  components leave the tables of the service alone, the second lifts the rules of
  \<open>AuthLogic\<close> from operations to handlers, middlewares and the router.
\<close>

section \<open>The components beside the authentication service\<close>

text \<open>What \<open>auth_step\<close> allows the rest of the program to do.\<close>

definition auth_same :: "world \<Rightarrow> world \<Rightarrow> bool" where
  "auth_same w w' \<longleftrightarrow> quiet w w' \<and> db_oauth_states w' = db_oauth_states w \<and>
     db_oauth_codes w' = db_oauth_codes w \<and> db_users w' = db_users w \<and> db_users_seq w \<le> db_users_seq w'"

text \<open>What only \<open>MetricsMiddleware\<close> counts.\<close>

definition http_part :: "metrics \<Rightarrow> counter_vec \<times> (string list \<times> duration) list \<times> int" where
  "http_part m = (m_HTTPRequests m, m_HTTPDuration m, m_HTTPInFlight m)"

definition http_same :: "world \<Rightarrow> world \<Rightarrow> bool" where
  "http_same w w' \<longleftrightarrow> http_part (w_metrics w') = http_part (w_metrics w)"

definition beside :: "world \<Rightarrow> world \<Rightarrow> bool" where
  "beside w w' \<longleftrightarrow> auth_same w w' \<and> http_same w w'"

lemma auth_same_more:
  fixes w w' :: world
  shows "db_refresh_tokens w' = db_refresh_tokens w \<Longrightarrow> w_uuids w' = w_uuids w \<Longrightarrow>
    w_uuid_draws w \<le> w_uuid_draws w' \<Longrightarrow> db_oauth_states w' = db_oauth_states w \<Longrightarrow>
    db_oauth_codes w' = db_oauth_codes w \<Longrightarrow> db_users w' = db_users w \<Longrightarrow>
    db_users_seq w \<le> db_users_seq w' \<Longrightarrow> auth_same w w'"
  by (simp add: auth_same_def quiet_def)

lemma beside_more:
  fixes w w' :: world
  shows "db_refresh_tokens w' = db_refresh_tokens w \<Longrightarrow> w_uuids w' = w_uuids w \<Longrightarrow>
    w_uuid_draws w \<le> w_uuid_draws w' \<Longrightarrow> db_oauth_states w' = db_oauth_states w \<Longrightarrow>
    db_oauth_codes w' = db_oauth_codes w \<Longrightarrow> db_users w' = db_users w \<Longrightarrow>
    db_users_seq w \<le> db_users_seq w' \<Longrightarrow> http_part (w_metrics w') = http_part (w_metrics w) \<Longrightarrow> beside w w'"
  by (simp add: beside_def http_same_def auth_same_more)

interpretation elsewhere: table_relation beside
proof unfold_locales
  fix u v w w1 :: world and fs
  show "beside w w" by (simp add: beside_def auth_same_def http_same_def)
  show "beside u v \<Longrightarrow> beside v w \<Longrightarrow> beside u w"
    by (auto simp: beside_def auth_same_def http_same_def intro: quiet_trans)
  show "beside w (w\<lparr>db_faults := fs\<rparr>)" by (simp add: beside_more)
  show "beside w w1 \<Longrightarrow> beside w (rollback w w1)"
    by (simp add: beside_def auth_same_def http_same_def rollback_def quiet_def)
qed

lemma same_process:
  "keeping beside world_now" "keeping beside world_uuid" "keeping beside (world_rand n)"
  "keeping beside world_ping"
  by (auto simp: keeping_def world_now_def world_uuid_def world_rand_def world_ping_def beside_more
      split: prod.splits option.splits dest: elsewhere.R_round_trip)

text \<open>The broker counts subscribers and dropped events, nothing else.\<close>

lemma http_part_stream [simp]:
  "http_part (sm_SubscriberAdded stream_metrics m) = http_part m"
  "http_part (sm_SubscriberRemoved stream_metrics m) = http_part m"
  "http_part (sm_EventDropped stream_metrics m) = http_part m"
  by (simp_all add: http_part_def stream_metrics_def SubscriberAdded_def SubscriberRemoved_def EventDropped_def)

lemma publish_loop_http:
  "publish_loop (Some stream_metrics) e as (b, m) = Some (b', m') \<Longrightarrow> http_part m' = http_part m"
proof (induction as arbitrary: b m)
  case (Cons a as)
  then obtain b1 m1 where t: "try_send (Some stream_metrics) e a (b, m) = Some (b1, m1)"
    and l: "publish_loop (Some stream_metrics) e as (b1, m1) = Some (b', m')"
    by (auto split: option.splits)
  have "http_part m1 = http_part m" using t by (auto simp: try_send_def Let_def split: if_splits)
  with Cons.IH [OF l] show ?case by simp
qed simp

lemma broker_http:
  "Broker_Subscribe (Some stream_metrics) u (b, m) = (a, (b', m')) \<Longrightarrow> http_part m' = http_part m"
  "Broker_cancel (Some stream_metrics) a (b, m) = Some (b', m') \<Longrightarrow> http_part m' = http_part m"
  "Broker_Publish (Some stream_metrics) e (b, m) = Some (b', m') \<Longrightarrow> http_part m' = http_part m"
  by (auto simp: Broker_Subscribe_def Broker_cancel_def cancel_close_def Broker_Publish_def Let_def
      split: if_splits dest: publish_loop_http)

lemma same_broker: "http_part m = http_part (w_metrics w) \<Longrightarrow> beside w (w\<lparr>w_broker := b, w_metrics := m\<rparr>)"
  "beside w (w\<lparr>w_broker := b\<rparr>)"
  by (simp_all add: beside_more)

lemma same_streams:
  "keeping beside (world_receive a)" "beside w (world_cancel a w)"
  "beside w (world_publish e w)" "beside w (world_ingested b w)"
  by (auto simp: keeping_def world_receive_def world_cancel_def world_publish_def world_ingested_def Let_def
      EventIngested_def http_part_def beside_more elsewhere.R_refl same_broker
      split: list.splits option.splits prod.splits dest: broker_http [unfolded http_part_def])

subsection \<open>Events\<close>

lemma same_insert_event: "keeping beside (insert_event pg e)"
  by (auto simp: keeping_def insert_event_def Let_def beside_more elsewhere.R_refl)

lemma same_read: "keeping beside (send (\<lambda>w. (f w, w)))"
  by (rule elsewhere.keeping_send) (simp add: keeping_def elsewhere.R_refl)

lemma same_batch_loop: "keeping beside (batch_loop pg es stored duplicates)"
proof (induction es arbitrary: stored duplicates)
  case Nil
  then show ?case by (simp add: keeping_def elsewhere.R_refl)
next
  case (Cons e es)
  show ?case
    unfolding batch_loop.simps(2) [abs_def]
    by (intro elsewhere.keeping_rules elsewhere.keeping_send same_insert_event Cons.IH)
qed

lemma same_event_repository:
  "keeping beside (EventRepository_Create pg e)"
  "keeping beside (EventRepository_CreateBatch pg es)"
  "keeping beside (EventRepository_List f)"
  unfolding EventRepository_Create_def [abs_def] EventRepository_CreateBatch_def [abs_def]
    EventRepository_List_def [abs_def] byIdempotencyKey_def [abs_def]
  by (intro elsewhere.keeping_rules elsewhere.keeping_send elsewhere.keeping_tx same_insert_event
      same_batch_loop same_read)+


lemma same_normalize: "keeping beside (normalize uni (event_service pg) userID inp)"
proof -
  have "es_now (event_service pg) = world_now" by (simp add: event_service_def)
  then show ?thesis
    unfolding normalize_def [abs_def] Let_def
    by (simp only:) (intro elsewhere.keeping_rules same_process)
qed

lemma same_publish:
  "beside w (publish (event_service pg) e w)" "beside w (record_metric (event_service pg) b w)"
  by (simp_all add: publish_def record_metric_def event_service_def same_streams)

lemma same_Record: "keeping beside (Event_Record uni (event_service pg) userID inp)"
proof -
  have "keeping beside (\<lambda>w. (r, if b then publish (event_service pg) e (record_metric (event_service pg) c w)
      else record_metric (event_service pg) c w))" for r :: "go_error + Event \<times> bool" and b c e
    by (auto simp: keeping_def intro: elsewhere.R_trans [OF same_publish(2) same_publish(1)] same_publish)
  moreover have "es_events (event_service pg) = event_repository pg" by (simp add: event_service_def)
  ultimately show ?thesis
    unfolding Event_Record_def [abs_def] Let_def
    by (simp only: event_repository_def EventRepository.simps)
      (intro elsewhere.keeping_rules same_normalize same_event_repository)
qed

lemma same_normalize_batch:
  "keeping beside (normalize_batch uni (event_service pg) userID i keys events items)"
proof (induction items arbitrary: i keys events)
  case Nil
  then show ?case by (simp add: keeping_def elsewhere.R_refl)
next
  case (Cons item items)
  show ?case
    unfolding normalize_batch.simps(2) [abs_def]
    by (intro elsewhere.keeping_rules same_normalize Cons.IH)
qed

lemma same_fold:
  assumes "\<And>e w. beside w (f e w)"
  shows "beside w (fold f es w)"
proof (induction es arbitrary: w)
  case (Cons e es)
  show ?case using elsewhere.R_trans [OF assms Cons.IH] by simp
qed (simp add: elsewhere.R_refl)

lemma same_funpow: "(\<And>w. beside w (f w)) \<Longrightarrow> beside w ((f ^^ n) w)"
  by (induction n) (auto intro: elsewhere.R_trans elsewhere.R_refl)

lemma same_RecordBatch: "keeping beside (RecordBatch uni (event_service pg) userID inputs)"
proof -
  let ?s = "event_service pg"
  have "keeping beside (\<lambda>w. (r, (record_metric ?s False ^^ n)
      (fold (\<lambda>e w. publish ?s e (record_metric ?s True w)) es w)))" for r :: "go_error + BatchResult" and n es
    unfolding keeping_def
    by (auto intro!: elsewhere.R_trans [OF same_fold same_funpow] same_publish
        intro: elsewhere.R_trans same_publish)
  moreover have "es_events ?s = event_repository pg" by (simp add: event_service_def)
  ultimately show ?thesis
    unfolding RecordBatch_def [abs_def] Let_def
    by (simp only: event_repository_def EventRepository.simps)
      (intro elsewhere.keeping_rules same_normalize_batch same_event_repository)
qed

lemma same_List: "keeping beside (Event_List uni (event_service pg) q)"
proof -
  have "es_events (event_service pg) = event_repository pg" by (simp add: event_service_def)
  then show ?thesis
    unfolding Event_List_def [abs_def] Let_def
    by (simp only: event_repository_def EventRepository.simps)
      (intro elsewhere.keeping_rules same_event_repository)
qed

subsection \<open>Aggregation\<close>

lemma same_aggregate_rows: "keeping beside (aggregate_rows start fin)"
  by (auto simp: keeping_def aggregate_rows_def Let_def beside_more elsewhere.R_refl)

lemma same_insert_run: "keeping beside (insert_run run)"
  by (auto simp: keeping_def insert_run_def Let_def beside_more)

lemma same_aggregation_repository:
  "keeping beside (AggregationRepository_Aggregate start fin)"
  "keeping beside (AggregationRepository_RecordRun run)"
  "keeping beside AggregationRepository_LastSucceededBucket"
  "keeping beside AggregationRepository_EarliestEvent"
  "keeping beside (AggregationRepository_ListRuns n)"
  "keeping beside (AggregationRepository_Buckets userID from to)"
  "keeping beside (AggregationRepository_Daily userID from to)"
  unfolding AggregationRepository_Aggregate_def Aggregate_tx_def Aggregate_body_def [abs_def]
    tryLockBucket_def [abs_def] AggregationRepository_RecordRun_def [abs_def]
    AggregationRepository_LastSucceededBucket_def [abs_def] AggregationRepository_EarliestEvent_def [abs_def]
    AggregationRepository_ListRuns_def [abs_def] AggregationRepository_Buckets_def [abs_def]
    AggregationRepository_Daily_def [abs_def]
  by (intro elsewhere.keeping_rules elsewhere.keeping_send elsewhere.keeping_tx same_aggregate_rows
      same_insert_run same_read)+


lemma agg_service_sel:
  "ag_repo (aggregation_service b n) = aggregation_repository"
  "ag_metrics (aggregation_service b n) = Some aggregation_metrics"
  "ag_now (aggregation_service b n) = world_now"
  by (simp_all add: aggregation_service_def NewAggregation_def)

lemma same_agg_metrics:
  "beside w (run_finished (aggregation_service b n) st tr d rows w)"
  "beside w (reportLag (aggregation_service b n) newest c w)"
  by (simp_all add: run_finished_def reportLag_def agg_service_sel aggregation_metrics_def Let_def beside_more
      RunFinished_def LagSeconds_def http_part_def
      split: option.split)

lemma same_compose:
  "keeping beside op \<Longrightarrow> (\<And>w. beside w (f w)) \<Longrightarrow> keeping beside (\<lambda>w. op (f w))"
  unfolding keeping_def by (blast intro: elsewhere.R_trans)

lemma same_RunBucket: "keeping beside (RunBucket (aggregation_service b n) t trigger)"
  unfolding RunBucket_def [abs_def] Let_def agg_service_sel
  by (simp only: aggregation_repository_def AggregationRepository.simps)
    (intro elsewhere.keeping_rules same_process same_aggregation_repository same_compose same_agg_metrics)

lemma same_agg_reads:
  "keeping beside (Runs (aggregation_service b n) limit)"
  "keeping beside (Aggregation_Stats (aggregation_service b n) q)"
  unfolding Runs_def [abs_def] Aggregation_Stats_def [abs_def] Let_def agg_service_sel
  by (simp_all only: aggregation_repository_def AggregationRepository.simps)
    (intro elsewhere.keeping_rules same_process same_aggregation_repository)+

lemma same_pending_loop: "keeping beside (pending_loop (aggregation_service b n) starts runs)"
  unfolding keeping_def
proof (intro allI, induction starts arbitrary: runs)
  case (Cons start rest)
  obtain r w1 where 1: "RunBucket (aggregation_service b n) start TriggerSchedule w = (r, w1)" by fastforce
  have "beside w w1" using same_RunBucket 1 by (rule keepingD)
  with 1 Cons.IH show ?case by (cases r) (auto intro: elsewhere.R_trans)
qed (simp add: elsewhere.R_refl)

lemma same_pendingBuckets:
  assumes "pendingBuckets (aggregation_service b n) w = Some (r, w')"
  shows "beside w w'"
proof -
  let ?s = "aggregation_service b n"
  obtain now w1 where 1: "world_now w = (now, w1)" by fastforce
  obtain r2 w2 where 2: "AggregationRepository_LastSucceededBucket w1 = (r2, w2)" by fastforce
  have q2: "beside w w2"
    using keepingD [OF same_process(1) 1] keepingD [OF same_aggregation_repository(3) 2]
    by (rule elsewhere.R_trans)
  show ?thesis
  proof (cases r2)
    case (Inl e)
    with assms 1 2 q2 show ?thesis
      by (simp add: pendingBuckets_def agg_service_sel aggregation_repository_def)
  next
    case (Inr newest)
    define c where "c = Add (BucketStart (UTC now) (ag_bucket ?s)) (- ag_bucket ?s)"
    define w3 where "w3 = reportLag ?s newest c w2"
    have q3: "beside w w3" unfolding w3_def by (rule elsewhere.R_trans [OF q2 same_agg_metrics(2)])
    obtain r4 w4 where 4: "AggregationRepository_EarliestEvent w3 = (r4, w4)" by fastforce
    have q4: "beside w w4"
      using q3 keepingD [OF same_aggregation_repository(4) 4] by (rule elsewhere.R_trans)
    have "w' = w3 \<or> w' = w4"
      using assms 1 2 Inr 4 c_def w3_def
      by (auto simp: pendingBuckets_def pending_from_def agg_service_sel aggregation_repository_def Let_def
          split: option.splits sum.splits if_splits)
    with q3 q4 show ?thesis by blast
  qed
qed

lemma same_RunPending:
  assumes "RunPending (aggregation_service b n) w = Some (r, w')"
  shows "beside w w'"
proof -
  obtain p w1 where 1: "pendingBuckets (aggregation_service b n) w = Some (p, w1)"
    using assms by (auto simp: RunPending_def split: option.splits)
  have q1: "beside w w1" using 1 by (rule same_pendingBuckets)
  consider "w' = w1" | starts where "pending_loop (aggregation_service b n) starts [] w1 = (r, w')"
    using assms 1 by (auto simp: RunPending_def split: sum.splits if_splits)
  then show ?thesis
    by cases (use q1 in \<open>auto intro: elsewhere.R_trans keepingD [OF same_pending_loop]\<close>)
qed

subsection \<open>Reading accounts\<close>

lemma same_tables_auth: "same_tables w w' \<Longrightarrow> db_users_seq w' = db_users_seq w \<Longrightarrow> beside w w'"
  using same_more_sources [of w' w]
  by (cases w; cases w') (simp add: beside_def auth_same_def http_same_def quiet_def same_tables_def)

lemma same_accounts:
  "keeping beside (AuthService_User (auth_service x) i)" "keeping beside (Accounts (auth_service x) limit)"
proof -
  have "keeping beside (UserRepository_ByID i)"
    by (rule keepingI, rule same_tables_auth) (auto dest: UserReads_same UserReads_seq)
  then show "keeping beside (AuthService_User (auth_service x) i)"
    unfolding AuthService_User_def [abs_def] auth_service_sel repository_sel by (intro elsewhere.keeping_rules)
  show "keeping beside (Accounts (auth_service x) limit)"
    unfolding Accounts_def auth_service_sel repository_sel UserRepository_List_def [abs_def]
    by (intro elsewhere.keeping_rules same_read)
qed


section \<open>From operations to the router\<close>

definition keeps :: "('w \<Rightarrow> 'w \<Rightarrow> bool) \<Rightarrow> 'w handler \<Rightarrow> bool" where
  "keeps R h \<longleftrightarrow> (\<forall>c. keeping R (\<lambda>w. h (c, w)))"

lemma keepsI: "(\<And>c. keeping R (\<lambda>w. h (c, w))) \<Longrightarrow> keeps R h"
  by (simp add: keeps_def)

lemma keepsD: "keeps R h \<Longrightarrow> h (c, w) = (c', w') \<Longrightarrow> R w w'"
  by (auto simp: keeps_def keeping_def) (metis snd_conv)

lemma keeping_finish: "keeping R m \<Longrightarrow> keeping R (\<lambda>w. finish fail ok c (m w))"
  by (auto simp: keeping_def finish_def split: prod.splits sum.splits) (metis snd_conv)+

text \<open>
  \<open>handler_relation\<close>: a relation that holds across whatever the components beside the
  authentication service do, and so across their handlers.
\<close>

locale handler_relation = state_relation R for R :: "world \<Rightarrow> world \<Rightarrow> bool" +
  assumes R_same: "beside w w' \<Longrightarrow> R w w'"

context handler_relation
begin

lemma keeping_same: "keeping beside m \<Longrightarrow> keeping R m"
  by (simp add: keeping_def R_same)

lemmas keeping_api = keeping_rules keeping_finish
  keeping_same [OF same_Record] keeping_same [OF same_RecordBatch] keeping_same [OF same_List]
  keeping_same [OF same_RunBucket] keeping_same [OF same_agg_reads(1)] keeping_same [OF same_agg_reads(2)]
  keeping_same [OF same_process(1)] keeping_same [OF same_process(2)] keeping_same [OF same_process(4)]

subsection \<open>The handlers\<close>

lemma keeps_event_handlers:
  fixes lower pg
  defines "h \<equiv> \<lparr>eh_service = event_api lower (event_service pg), eh_Subscribe = world_subscribe\<rparr>"
  shows "keeps R (Event_Create bi h)" "keeps R (Event_CreateBatch bi h)" "keeps R (Event_ListHandler bi h)"
  unfolding Event_Create_def Event_CreateBatch_def Event_ListHandler_def Let_def h_def
    event_api_def EventHandler.simps EventAPI.simps prod.case
  by (intro keepsI, unfold prod.case, intro keeping_api)+

lemma keeps_agg_handlers:
  fixes b n
  defines "s \<equiv> agg_api (aggregation_service b n)"
  shows "keeps R (Aggregation_StatsHandler bi s)" "keeps R (Aggregation_Trigger bi s)"
    "keeps R (Aggregation_Runs s)"
  unfolding Aggregation_StatsHandler_def Aggregation_Trigger_def Aggregation_Runs_def s_def
    agg_api_def AggAPI.simps prod.case
  by (intro keepsI, unfold prod.case, intro keeping_api)+

text \<open>A stream only reads from the broker.\<close>

lemma stream_loop_same:
  "(\<And>w r w'. sb_receive sub w = (r, w') \<Longrightarrow> R w w') \<Longrightarrow> stream_loop sub sigs (c, w) = (c', w') \<Longrightarrow> R w w'"
proof (induction sub sigs "(c, w)" arbitrary: c w rule: stream_loop.induct)
  case (3 sub ok sigs c w)
  obtain r w1 where 1: "sb_receive sub w = (r, w1)" by fastforce
  have "R w w1" using 3(3) 1 by blast
  with 3 1 show ?case by (cases r) (auto intro: R_trans split: if_splits)
qed (auto intro: R_refl split: if_splits)

lemma keeps_stream:
  "keeps R (Event_Stream sigs \<lparr>eh_service = s, eh_Subscribe = world_subscribe\<rparr>)"
proof (intro keepsI keepingI)
  fix c w c' w'
  assume s: "Event_Stream sigs \<lparr>eh_service = s, eh_Subscribe = world_subscribe\<rparr> (c, w) = (c', w')"
  show "R w w'"
  proof (cases "UserIDFrom c")
    case None
    with s show ?thesis by (simp add: Event_Stream_def currentUser_def R_refl)
  next
    case (Some userID)
    obtain a b m where sub: "Broker_Subscribe (Some stream_metrics) userID (w_broker w, w_metrics w) = (a, (b, m))"
      by (metis prod.collapse)
    let ?sub = "\<lparr>sb_receive = world_receive a, sb_cancel = world_cancel a\<rparr>"
    obtain c3 c4 w2 where l: "stream_loop ?sub sigs (c3, w\<lparr>w_broker := b, w_metrics := m\<rparr>) = (c4, w2)"
      and w': "w' = world_cancel a w2"
      using s Some sub by (auto simp: Event_Stream_def currentUser_def world_subscribe_def Let_def split: prod.splits)
    have "R (w\<lparr>w_broker := b, w_metrics := m\<rparr>) w2"
      by (rule stream_loop_same [OF _ l]) (use same_streams(1) in \<open>auto dest: keepingD intro: R_same\<close>)
    moreover have "R w (w\<lparr>w_broker := b, w_metrics := m\<rparr>)"
      by (rule R_same, rule same_broker(1), rule broker_http(1) [OF sub])
    moreover have "R w2 (world_cancel a w2)" by (rule R_same, rule same_streams)
    ultimately show ?thesis unfolding w' by (blast intro: R_trans)
  qed

qed

lemma keeps_health: 
  "keeps R (Health_Live h)" "he_ping h = world_ping \<Longrightarrow> keeps R (Health_Ready h)"
  "keeps R (serve_document media document)"
proof -
  show "keeps R (Health_Live h)" "keeps R (serve_document media document)"
    unfolding Health_Live_def serve_document_def by (intro keepsI, unfold prod.case, intro keeping_api)+
  have bool: "keeping R f \<Longrightarrow> keeping R g \<Longrightarrow> keeping R (\<lambda>w. case b of True \<Rightarrow> f w | False \<Rightarrow> g w)"
    for f g :: "world \<Rightarrow> context \<times> world" and b
    by (cases b) simp_all
  assume h: "he_ping h = world_ping"
  show "keeps R (Health_Ready h)"
    unfolding Health_Ready_def h by (intro keepsI, unfold prod.case, intro bool keeping_api)
qed

subsection \<open>Guards and middlewares\<close>

lemma keeps_guards:
  assumes "keeps R h"
  shows "keeps R (RequireAuth (world_parse lib m) h)" and "keeps R (RequireRole roles h)"
    and "keeps R (admin_only (world_parse lib m) h)"
proof -
  have h: "keeping R (\<lambda>w. h (c, w))" for c using assms by (simp add: keeps_def)
  have auth: "keeps R (RequireAuth (world_parse lib m) k)" if "\<And>c. keeping R (\<lambda>w. k (c, w))" for k
    unfolding RequireAuth_def world_parse_def Let_def
    by (intro keepsI, unfold prod.case, intro keeping_api that)
  have role: "keeps R (RequireRole roles h)" for roles
    unfolding RequireRole_def by (intro keepsI, unfold prod.case, intro keeping_api h)
  show "keeps R (RequireAuth (world_parse lib m) h)" using h by (rule auth)
  show "keeps R (RequireRole roles h)" by (rule role)
  show "keeps R (admin_only (world_parse lib m) h)"
    unfolding admin_only_def by (rule auth) (use role in \<open>simp add: keeps_def\<close>)
qed

lemma keeps_routes:
  assumes "he_ping (rd_Health d) = world_ping"
    and "\<And>ro. ro \<in> set (registerAPI bi signals d) \<Longrightarrow> keeps R (ro_handler ro)"
    and "ro \<in> set (routes p bi signals d)"
  shows "keeps R (ro_handler ro)"
  using assms unfolding routes_def route_to_def Docs_Page_def Docs_Spec_def
  by (auto intro: keeps_health split: if_splits)

lemma keeping_runOnce:
  assumes "s = Scheduler_New (RunPending (aggregation_service b n)) tick" and "runOnce s w = Some w'"
  shows "R w w'"
  using assms by (auto simp: runOnce_def Scheduler_New_def split: option.splits intro: R_same same_RunPending)

end

text \<open>\<open>program_relation\<close>: also across the metrics of the middlewares, and so of whole requests.\<close>

locale program_relation = handler_relation R for R :: "world \<Rightarrow> world \<Rightarrow> bool" +
  assumes R_metrics: "R w (w\<lparr>w_metrics := m\<rparr>)"

context program_relation
begin

lemma keeps_middlewares:
  assumes "keeps R h"
  shows "keeps R (middlewares (world_process oc) d h)"
proof -
  have h: "keeping R (\<lambda>w. h (c, w))" for c using assms by (simp add: keeps_def)
  have body: "keeps R (BodyLimit n h)" for n
    unfolding BodyLimit_def by (intro keepsI, unfold prod.case, rule h)
  have cors: "keeps R (CORS origins (BodyLimit n h))" for origins n
    using body unfolding CORS_def Let_def keeps_def by (unfold prod.case) (intro allI keeping_api, auto)
  have keeping_metrics: "keeping R (\<lambda>w. (r, w\<lparr>w_metrics := f (w_metrics w)\<rparr>))" for r :: "context" and f
    by (simp add: keeping_def R_metrics)
  have at: "keeping R (\<lambda>w. k (c, w\<lparr>w_metrics := f (w_metrics w)\<rparr>))" if "keeps R k" for k c f
  proof (rule keepingI)
    fix w r w'
    assume "k (c, w\<lparr>w_metrics := f (w_metrics w)\<rparr>) = (r, w')"
    with that have "R (w\<lparr>w_metrics := f (w_metrics w)\<rparr>) w'" by (rule keepsD)
    moreover have "R w (w\<lparr>w_metrics := f (w_metrics w)\<rparr>)" by (rule R_metrics)
    ultimately show "R w w'" by (blast intro: R_trans)
  qed
  have rec: "keeps R (Recovery (CORS origins (BodyLimit n h)))" for origins n
    using cors unfolding Recovery_def keeps_def by (unfold prod.case) (intro allI keeping_api, auto)
  have log: "keeps R (Logger_middleware (\<lambda>_ w. w) world_now skip k)" if "keeps R k" for k skip
    using that unfolding Logger_middleware_def keeps_def by (unfold prod.case) (intro allI keeping_api, auto)
  have met: "keeps R (MetricsMiddleware (\<lambda>f w. w\<lparr>w_metrics := f (w_metrics w)\<rparr>) world_now k)" if "keeps R k" for k
    unfolding MetricsMiddleware_def Let_def
    by (intro keepsI, unfold prod.case, intro keeping_api keeping_metrics at that)
  have "keeps R (RequestID ((oc_library oc)\<lparr>lib_rand := world_rand, lib_uuid := world_uuid\<rparr>) k)" if "keeps R k" for k
    using that unfolding RequestID_def Let_def keeps_def library.simps
    by (unfold prod.case) (intro allI keeping_api, auto simp: keeping_same [OF same_process(2)])
  then show ?thesis
    unfolding middlewares_def world_process_def process.simps using met [OF log [OF rec]] by simp
qed


lemma keeping_serve:
  assumes "\<And>ro. ro \<in> set (routes (world_process oc) bi signals d) \<Longrightarrow> keeps R (ro_handler ro)"
  shows "keeping R (serve (world_process oc) bi signals d r)"
proof -
  have mid: "keeping R (\<lambda>w. middlewares (world_process oc) d h (c, w))" if "keeps R h" for h c
    using keeps_middlewares [OF that] by (simp add: keeps_def)
  have idle: "keeps R (\<lambda>cw. cw)" by (simp add: keeps_def keeping_return)
  have "keeping R (serve_not_found (world_process oc) d r)"
    unfolding serve_not_found_def [abs_def] by (intro keeping_rules mid idle)
  moreover have "keeping R (\<lambda>w. middlewares (world_process oc) d (ro_handler ro) (new_context r (ro_path ro), w))"
    if "find_route (routes (world_process oc) bi signals d) r = Some ro" for ro
    by (intro mid assms) (rule find_route_Some [OF that])
  ultimately show ?thesis
    unfolding serve_def [abs_def]
    by (cases "find_route (routes (world_process oc) bi signals d) r") simp_all
qed

lemma keeping_base_serve: "keeping R (serve (world_process oc) bi signals (base_deps cfg version) r)"
  by (rule keeping_serve, rule keeps_routes) (auto simp: base_deps_def registerAPI_def)

end

subsection \<open>The process with the API\<close>

text \<open>\<open>api_handlers\<close>: a relation that also holds across the operations of the service.\<close>

locale api_handlers = handler_relation R for R :: "world \<Rightarrow> world \<Rightarrow> bool" +
  fixes x :: auth_setup
  assumes R_register: "keeping R (Register (auth_library x) (auth_service x) email pw meta)"
    and R_login: "keeping R (Login (auth_library x) (auth_service x) email pw meta)"
    and R_refresh: "keeping R (Refresh (auth_library x) (auth_service x) raw meta)"
    and R_logout: "keeping R (Logout (auth_library x) (auth_service x) raw)"
    and R_start: "keeping R (StartGoogleFlow (auth_library x) (auth_service x) redir)"
    and R_complete: "keeping R (CompleteGoogleFlow (auth_library x) (auth_service x) code state)"
    and R_exchange: "keeping R (ExchangeGoogleCode (auth_library x) (auth_service x) code meta)"

context api_handlers
begin

lemmas keeping_service = keeping_api R_register R_login R_refresh R_logout R_start R_complete R_exchange
  keeping_same [OF same_accounts(1)] keeping_same [OF same_accounts(2)]

lemma keeps_auth_handlers:
  fixes url :: string and g :: bool
  defines "h \<equiv> NewAuthHandler (auth_api (auth_library x) (auth_service x)) url g"
  shows "keeps R (Auth_Accounts h)" "keeps R (Auth_Methods h)" "keeps R (Auth_Register bi h)"
    "keeps R (Auth_Login bi h)" "keeps R (Auth_Refresh bi h)" "keeps R (Auth_Logout bi h)"
    "keeps R (Auth_Me h)" "keeps R (GoogleStart h)" "keeps R (GoogleCallback_handler h)"
    "keeps R (GoogleExchange bi h)"
proof -
  have h: "ah_service h = auth_api (auth_library x) (auth_service x)"
    by (simp add: h_def NewAuthHandler_def)
  note unfolds = Auth_Accounts_def Auth_Methods_def Auth_Register_def Auth_Login_def Auth_Refresh_def
    Auth_Logout_def Auth_Me_def GoogleStart_def GoogleCallback_handler_def GoogleExchange_def h
    auth_api_def AuthAPI.simps prod.case
  show "keeps R (Auth_Accounts h)" "keeps R (Auth_Methods h)" "keeps R (Auth_Register bi h)"
    "keeps R (Auth_Login bi h)" "keeps R (Auth_Refresh bi h)" "keeps R (Auth_Logout bi h)"
    "keeps R (Auth_Me h)" "keeps R (GoogleStart h)" "keeps R (GoogleCallback_handler h)"
    "keeps R (GoogleExchange bi h)"
    unfolding unfolds by (intro keepsI, unfold prod.case, intro keeping_service)+
qed


lemma keeps_registerAPI:
  assumes "ro \<in> set (registerAPI bi signals (api_deps oc cfg version x (auth_service x) (aggregation_service b n)))"
  shows "keeps R (ro_handler ro)"
proof -
  note keeps = keeps_auth_handlers keeps_event_handlers keeps_agg_handlers keeps_stream keeps_guards
  let ?d = "api_deps oc cfg version x (auth_service x) (aggregation_service b n)"
  have "rd_Guard ?d = Some (world_parse (auth_library x) (su_jwt x))"
    and "rd_Auth ?d = Some (NewAuthHandler (auth_api (auth_library x) (auth_service x))
      (cp_FrontendURL (cf_App cfg)) (CodeFlowEnabled (cf_Google cfg)))"
    and "rd_Events ?d = Some \<lparr>eh_service = event_api (lib_lower (oc_library oc)) (event_service (oc_postgres oc)),
      eh_Subscribe = world_subscribe\<rparr>"
    and "rd_Aggregation ?d = Some (agg_api (aggregation_service b n))"
    by (simp_all add: api_deps_def)
  with assms show ?thesis
    unfolding registerAPI_def auth_routes_def event_routes_def stats_routes_def route_to_def
    by (auto intro!: keeps)
qed

end

locale api_relation = program_relation R + api_handlers R x
  for R :: "world \<Rightarrow> world \<Rightarrow> bool" and x :: auth_setup

context api_relation
begin

lemma keeping_api_serve:
  "keeping R (serve (world_process oc) bi signals
     (api_deps oc cfg version x (auth_service x) (aggregation_service b n)) r)"
  by (rule keeping_serve, rule keeps_routes) (auto simp: api_deps_def base_deps_def intro: keeps_registerAPI)



end

section \<open>The relations of the program\<close>

lemma auth_same_step: "auth_same w w' \<Longrightarrow> auth_step x w w'"
  by (rule auth_step.elsewhere) (simp_all add: auth_same_def)

lemma auth_same_steps: "auth_same w w' \<Longrightarrow> (auth_step x)\<^sup>*\<^sup>* w w'"
  by (rule r_into_rtranclp, rule auth_same_step)

text \<open>A process without an API leaves the accounts alone.\<close>

lemma auth_same_refl: "auth_same w w"
  by (simp add: auth_same_def)

lemma auth_same_trans: "auth_same u v \<Longrightarrow> auth_same v w \<Longrightarrow> auth_same u w"
  by (auto simp: auth_same_def intro: quiet_trans)

interpretation worker: program_relation auth_same
  by unfold_locales (auto simp: beside_def auth_same_more auth_same_refl intro: auth_same_trans)

text \<open>A process with an API takes them through steps of the service.\<close>

interpretation api: api_relation "(auth_step x)\<^sup>*\<^sup>*" x for x
proof unfold_locales
  show "beside w w' \<Longrightarrow> (auth_step x)\<^sup>*\<^sup>* w w'" for w w'
    by (rule auth_same_steps) (simp add: beside_def)
  show "(auth_step x)\<^sup>*\<^sup>* w (w\<lparr>w_metrics := m\<rparr>)" for w :: world and m
    by (rule auth_same_steps) (simp add: auth_same_more)
  show "(auth_step x)\<^sup>*\<^sup>* u v \<Longrightarrow> (auth_step x)\<^sup>*\<^sup>* v w \<Longrightarrow> (auth_step x)\<^sup>*\<^sup>* u w" for u v w
    by (rule rtranclp_trans)
qed (rule rtranclp.rtrancl_refl | (rule keepingI, rule r_into_rtranclp, erule auth_step.intros))+

text \<open>No handler touches the metrics of the middleware.\<close>

lemma http_same_more: "db.more w' = db.more w \<Longrightarrow> http_same w w'" for w w' :: world
  by (cases w; cases w') (simp add: http_same_def)

lemma http_same_but:
  fixes w w' :: world
  shows "same_tables (w'\<lparr>db_users := us\<rparr>) w \<Longrightarrow> http_same w w'"
    and "same_tables (w'\<lparr>db_oauth_states := ss\<rparr>) w \<Longrightarrow> http_same w w'"
    and "same_tables (w'\<lparr>db_oauth_codes := cs\<rparr>) w \<Longrightarrow> http_same w w'"
    and "same_tables w w' \<Longrightarrow> http_same w w'"
  by (auto intro!: http_same_more simp: same_tables_def)

interpretation http_service: service_relation http_same x for x
proof unfold_locales
  show "http_same u v \<Longrightarrow> http_same v w \<Longrightarrow> http_same u w" for u v w by (simp add: http_same_def)
qed (auto simp: http_same_def world_now_def world_rand_def world_uuid_def
    dest: UserCreate_keeps [THEN http_same_but(1)] AttachGoogle_more [THEN http_same_more]
      TokenCreate_more [THEN http_same_more] Rotate_more [THEN http_same_more]
      RevokeFamily_more [THEN http_same_more] CreateState_keeps [THEN http_same_but(2)]
      TakeState_keeps [THEN http_same_but(2)] CreateCode_keeps [THEN http_same_but(3)]
      TakeCode_keeps [THEN http_same_but(3)] http_same_but(4))

interpretation http: api_handlers http_same x for x
  by unfold_locales (simp_all only: beside_def http_service.keeping_Register http_service.keeping_Login
      http_service.keeping_Refresh http_service.keeping_Logout http_service.keeping_StartGoogleFlow
      http_service.keeping_CompleteGoogleFlow http_service.keeping_ExchangeGoogleCode)

end
