(* ===== verification/ApiExamples.thy ===== *)
theory ApiExamples
  imports App AuthExamples
begin

text \<open>
  A configuration, the code around the program and a few requests, at which the witnesses of
  the properties of the whole program apply them.
\<close>

definition ex_claims :: "Role \<Rightarrow> Claims" where
  "ex_claims role = \<lparr>cl_Role = role, cl_Issuer = ''i'', cl_Subject = ''1'', cl_ID = ''u'', cl_IssuedAt = 0,
     cl_NotBefore = 0, cl_ExpiresAt = 0\<rparr>"

text \<open>The tokens \<open>user\<close> and \<open>admin\<close> are those of the account 1 in either role.\<close>

definition ex_api_library :: "world library" where
  "ex_api_library = ex_library\<lparr>lib_jwt_parse := (\<lambda>secret issuer now raw.
     if raw = ''user'' then Some (ex_claims RoleUser, True)
     else if raw = ''admin'' then Some (ex_claims RoleAdmin, True) else None)\<rparr>"

definition ex_binding :: binding where
  "ex_binding = \<lparr>bi_credentials = (\<lambda>r. Inr (''a@b'', fst r)), bi_email_ok = (\<lambda>_. True),
     bi_secret = (\<lambda>name r. Inr (fst r)), bi_event = (\<lambda>_. Inl BodyEOF), bi_batch = (\<lambda>_. Inl BodyEOF),
     bi_trigger = (\<lambda>_. Inl BodyEOF), bi_invalid = (\<lambda>_. ''invalid''), bi_time = (\<lambda>_. None)\<rparr>"

definition ex_outside_code :: outside_code where
  "ex_outside_code = \<lparr>oc_postgres = ex_pg, oc_library = ex_api_library, oc_outside = ex_outside,
     oc_binding = ex_binding, oc_documents = (\<lambda>_. '''')\<rparr>"

definition ex_config :: "Mode \<Rightarrow> Config" where
  "ex_config mode =
     \<lparr>cf_App = \<lparr>cp_Env = ''development'', cp_Mode = mode, cp_FrontendURL = ''http://f''\<rparr>,
      cf_HTTP = \<lparr>ch_Port = ''8080'', ch_ReadTimeout = Second, ch_WriteTimeout = Second,
                 ch_ShutdownTimeout = Second, ch_MaxBodyBytes = 100, ch_TrustedProxies = []\<rparr>,
      cf_Log = \<lparr>cl_Level = ''info'', cl_Format = ''text''\<rparr>,
      cf_DB = \<lparr>cd_URL = ''db'', cd_MaxConns = 4, cd_MinConns = 1, cd_MigrationsDir = ''m'',
               cd_ConnectRetries = 3, cd_ConnectBackoff = Second\<rparr>,
      cf_CORS = \<lparr>cc_AllowedOrigins = [''http://f'']\<rparr>,
      cf_Auth = \<lparr>ct_JWTSecret = ''s'', ct_MinSecretLen = 1, ct_Issuer = ''i'', ct_AccessTTL = Minute,
                 ct_RefreshTTL = Hour, ct_BcryptCost = 10\<rparr>,
      cf_Google = \<lparr>cg_ClientID = '''', cg_ClientSecret = '''', cg_RedirectURL = '''', cg_AuthURL = '''',
                   cg_TokenURL = '''', cg_JWKSURL = ''''\<rparr>,
      cf_Aggregation = \<lparr>ca_Bucket = Hour, ca_Tick = Minute, ca_Backfill = 12\<rparr>\<rparr>"

definition ex_request :: "string \<Rightarrow> string \<Rightarrow> string \<Rightarrow> string \<Rightarrow> request" where
  "ex_request verb path token body =
     \<lparr>rq_method = verb, rq_path = path,
      rq_header = (\<lambda>k. if k = ''Authorization'' then token else if k = ''Origin'' then ''http://f'' else ''''),
      rq_raw_query = '''', rq_query = (\<lambda>_. []), rq_body = body, rq_client_ip = ''''\<rparr>"

text \<open>The program with API and worker, as it is built over the state of the login example.\<close>

definition ex_build :: "(go_error + world RouterDeps \<times> world Scheduler option) \<times> world" where
  "ex_build = BuildDeps ex_outside_code (ex_config ModeAll) ''v'' ex_start"

definition ex_deps :: "world RouterDeps" where
  "ex_deps = (case fst ex_build of Inr (d, worker) \<Rightarrow> d | _ \<Rightarrow> base_deps (ex_config ModeAll) ''v'')"

definition ex_worker :: "world Scheduler option" where
  "ex_worker = (case fst ex_build of Inr (d, worker) \<Rightarrow> worker | _ \<Rightarrow> None)"

lemma ex_build_eq:
  "BuildDeps ex_outside_code (ex_config ModeAll) ''v'' ex_start = (Inr (ex_deps, ex_worker), snd ex_build)"
proof -
  have "is_ok (fst ex_build)" by code_simp
  then show ?thesis
    by (cases "fst ex_build") (auto simp: ex_deps_def ex_worker_def ex_build_def prod_eq_iff split: prod.splits)
qed

definition ex_serve :: "request \<Rightarrow> world \<Rightarrow> context \<times> world" where
  "ex_serve = serve (world_process ex_outside_code) ex_binding [] ex_deps"

definition ex_api_login :: "context \<times> world" where
  "ex_api_login = ex_serve (ex_request ''POST'' ''/api/v1/auth/login'' '''' ''h'') (snd ex_build)"

lemma ex_api_login:
  "(\<lambda>(c, w). (cx_status c, length (db_refresh_tokens w), w_uuid_draws w)) ex_api_login = (200, 1, 4)"
  by code_simp

end
