(* ===== verification/ApiProps.thy ===== *)
theory ApiProps
  imports ApiSteps ApiExamples AccountInv AuthProps
begin

text \<open>
  Properties of the program as \<open>BuildDeps\<close> puts it together: the router over the services
  over the database, and the scheduler beside it.
\<close>

section \<open>The running program\<close>

text \<open>
  A step of the program: a request is served, the scheduler makes a pass, or something else
  happens around the tables of the accounts: time passes, the database drops a connection,
  another process aggregates.
\<close>

inductive app_step :: "outside_code \<Rightarrow> world RouterDeps \<Rightarrow> world Scheduler option \<Rightarrow> world \<Rightarrow> world \<Rightarrow> bool"
  for oc d worker where
  request: "serve (world_process oc) bi signals d r w = (c, w') \<Longrightarrow> app_step oc d worker w w'"
| pass: "worker = Some s \<Longrightarrow> runOnce s w = Some w' \<Longrightarrow> app_step oc d worker w w'"
| around: "auth_same w w' \<Longrightarrow> app_step oc d worker w w'"

inductive_cases app_stepE: "app_step oc d worker w w'"

lemma setup_decoy [simp]:
  "auth_library (x\<lparr>su_decoy := s\<rparr>) = auth_library x" "su_jwt (x\<lparr>su_decoy := s\<rparr>) = su_jwt x"
  "su_postgres (x\<lparr>su_decoy := s\<rparr>) = su_postgres x"
  by (simp_all add: auth_library_def)

lemma BuildDeps_cases:
  assumes "BuildDeps oc cfg version w = (Inr (d, worker), w')"
  obtains (worker) "\<not> RunsAPI (cp_Mode (cf_App cfg))" "d = base_deps cfg version"
      "w' = w"
  | (api) jwt decoy b n where "RunsAPI (cp_Mode (cf_App cfg))"
      "NewManager (ct_JWTSecret (cf_Auth cfg)) (ct_Issuer (cf_Auth cfg)) (ct_AccessTTL (cf_Auth cfg)) = Inr jwt"
      "d = api_deps oc cfg version ((setup_of oc cfg jwt)\<lparr>su_decoy := decoy\<rparr>)
         (auth_service ((setup_of oc cfg jwt)\<lparr>su_decoy := decoy\<rparr>)) (aggregation_service b n)"
proof (cases "RunsAPI (cp_Mode (cf_App cfg))")
  case False
  with assms show thesis by (intro worker) (auto simp: BuildDeps_def Let_def)
next
  case True
  let ?agg = "aggregation_service (ca_Bucket (cf_Aggregation cfg)) (ca_Backfill (cf_Aggregation cfg))"
  obtain w1 where w1: "wireAPI oc cfg version ?agg w = (Inr d, w1)"
    using assms True by (auto simp: BuildDeps_def Let_def split: prod.splits sum.splits)
  then obtain jwt s w2 where jwt: "NewManager (ct_JWTSecret (cf_Auth cfg)) (ct_Issuer (cf_Auth cfg))
      (ct_AccessTTL (cf_Auth cfg)) = Inr jwt"
    and s: "NewAuth (auth_library (setup_of oc cfg jwt)) world_now (auth_deps (setup_of oc cfg jwt)) w = (Inr s, w2)"
    and d: "d = api_deps oc cfg version (setup_of oc cfg jwt) s ?agg"
    by (auto simp: wireAPI_def Let_def split: sum.splits prod.splits)
  let ?x = "(setup_of oc cfg jwt)\<lparr>su_decoy := as_decoyHash s\<rparr>"
  have "d = api_deps oc cfg version ?x (auth_service ?x) ?agg"
    unfolding d by (simp add: api_deps_def NewAuth_auth_service [OF s, symmetric])
  with True jwt show thesis by (rule api)
qed

lemma BuildDeps_worker:
  assumes "BuildDeps oc cfg version w = (Inr (d, Some s), w')"
  shows "s = Scheduler_New (RunPending (aggregation_service (ca_Bucket (cf_Aggregation cfg))
      (ca_Backfill (cf_Aggregation cfg)))) (ca_Tick (cf_Aggregation cfg))"
  using assms by (auto simp: BuildDeps_def Let_def split: if_splits prod.splits sum.splits)

lemma pass_same:
  "BuildDeps oc cfg version w = (Inr (d, worker), w') \<Longrightarrow> worker = Some s \<Longrightarrow> runOnce s u = Some v \<Longrightarrow> auth_same u v"
  using worker.keeping_runOnce [OF BuildDeps_worker] by blast

lemma BuildDeps_uuids:
  assumes "BuildDeps oc cfg version w = (r, w')"
  shows "w_uuids w' = w_uuids w"
proof -
  have auth: "w_uuids v' = w_uuids v" if n: "NewAuth (auth_library x) world_now d v = (s, v')" for x d v v' s
  proof -
    obtain h u where "HashPassword (auth_library x) decoyPassword (dp_BcryptCost d) v = (h, u)" by fastforce
    with n have "quiet v u" and "v' = u"
      by (auto simp: NewAuth_def intro: quiet_auth split: sum.splits)
    then show ?thesis by (simp add: quiet_def)
  qed
  have "w_uuids v' = w_uuids v" if "wireAPI oc cfg version agg v = (s, v')" for agg v v' s
    using that by (auto simp: wireAPI_def Let_def split: sum.splits prod.splits dest: auth)
  with assms show ?thesis
    by (auto simp: BuildDeps_def Let_def split: if_splits sum.splits prod.splits)
qed

text \<open>The setup of the service behind the API of a configuration.\<close>

definition wired_setup :: "outside_code \<Rightarrow> Config \<Rightarrow> auth_setup \<Rightarrow> bool" where
  "wired_setup oc cfg x \<longleftrightarrow> (\<exists>jwt decoy.
     NewManager (ct_JWTSecret (cf_Auth cfg)) (ct_Issuer (cf_Auth cfg)) (ct_AccessTTL (cf_Auth cfg)) = Inr jwt \<and>
     x = (setup_of oc cfg jwt)\<lparr>su_decoy := decoy\<rparr>)"

lemma app_steps_auth:
  assumes "BuildDeps oc cfg version w0 = (Inr (d, worker), w1)"
  obtains (worker) "\<not> RunsAPI (cp_Mode (cf_App cfg))" "\<And>u v. (app_step oc d worker)\<^sup>*\<^sup>* u v \<Longrightarrow> auth_same u v"
  | (api) x where "RunsAPI (cp_Mode (cf_App cfg))" "wired_setup oc cfg x"
      "\<And>u v. (app_step oc d worker)\<^sup>*\<^sup>* u v \<Longrightarrow> (auth_step x)\<^sup>*\<^sup>* u v"
  using assms
proof (cases rule: BuildDeps_cases)
  case 1: worker
  have step: "auth_same u v" if "app_step oc d worker u v" for u v
    using that by cases (use 1(2) pass_same [OF assms] in \<open>auto dest: keepingD [OF worker.keeping_base_serve]\<close>)
  have "(app_step oc d worker)\<^sup>*\<^sup>* u v \<Longrightarrow> auth_same u v" for u v
    by (induction rule: rtranclp_induct) (auto intro: auth_same_trans auth_same_refl step)
  with 1(1) show thesis by (rule worker)
next
  case 2: (api jwt decoy b n)
  let ?x = "(setup_of oc cfg jwt)\<lparr>su_decoy := decoy\<rparr>"
  have step: "(auth_step ?x)\<^sup>*\<^sup>* u v" if "app_step oc d worker u v" for u v
    using that by cases (use 2(3) pass_same [OF assms] in
      \<open>auto dest: keepingD [OF api.keeping_api_serve] intro: auth_same_steps\<close>)
  have "(app_step oc d worker)\<^sup>*\<^sup>* u v \<Longrightarrow> (auth_step ?x)\<^sup>*\<^sup>* u v" for u v
    by (induction rule: rtranclp_induct) (auto intro: rtranclp_trans dest: step)
  with 2(1,2) show thesis by (intro api [of ?x]) (auto simp: wired_setup_def)
qed

text \<open>
  C33: Whatever the running program does, request after request and pass after pass, it does
  to the accounts, the sessions and the Google sign-ins only what steps of the one
  authentication service do that the configuration sets up; a process without an API does
  nothing to them.
\<close>

theorem api_refines_auth:
  assumes "BuildDeps oc cfg version w0 = (Inr (d, worker), w1)"
    and "(app_step oc d worker)\<^sup>*\<^sup>* w w'"
  shows "if RunsAPI (cp_Mode (cf_App cfg)) then \<exists>x. wired_setup oc cfg x \<and> (auth_step x)\<^sup>*\<^sup>* w w'
    else auth_same w w'"
  using assms(1) by (cases rule: app_steps_auth) (use assms(2) in auto)

lemma ex_app_login: "(app_step ex_outside_code ex_deps ex_worker)\<^sup>*\<^sup>* (snd ex_build) (snd ex_api_login)"
  unfolding ex_api_login_def ex_serve_def by (rule r_into_rtranclp, rule app_step.request [OF surjective_pairing])

theorem api_refines_auth_witness:
  "\<exists>x. wired_setup ex_outside_code (ex_config ModeAll) x \<and> (auth_step x)\<^sup>*\<^sup>* (snd ex_build) (snd ex_api_login) \<and>
     db_refresh_tokens (snd ex_api_login) \<noteq> []"
proof -
  have "RunsAPI (cp_Mode (cf_App (ex_config ModeAll)))" by (simp add: ex_config_def RunsAPI_def)
  moreover have "db_refresh_tokens (snd ex_api_login) \<noteq> []"
    using ex_api_login by (auto simp: case_prod_beta)
  ultimately show ?thesis
    using api_refines_auth [OF ex_build_eq ex_app_login] by simp
qed

text \<open>
  C34: In every state that the program reaches from a sound one without sessions, the
  accounts are sound and no request has raised a role, changed an identity or lost an
  account, and every family of refresh tokens has at most one live token.
\<close>

theorem program_invariants:
  assumes "BuildDeps oc cfg version w0 = (Inr (d, worker), w1)"
    and "(app_step oc d worker)\<^sup>*\<^sup>* w w'"
    and "accounts_ok (oc_postgres oc) w" and "db_refresh_tokens w = []" and "distinct_uuids w'"
  shows "accounts_ok (oc_postgres oc) w' \<and> accounts_extend (db_users w) (db_users w') \<and>
    token_keys (db_refresh_tokens w') \<and> length (live_in_family f (db_refresh_tokens w')) \<le> 1"
  using assms(1)
proof (cases rule: app_steps_auth)
  case worker
  then have "auth_same w w'" using assms(2) by blast
  then have kept: "accounts_kept (oc_postgres oc) w w'" and "db_refresh_tokens w' = []"
    using assms(4) by (auto simp: auth_same_def quiet_def intro: accounts_kept_same)
  then show ?thesis using assms(3) by (simp add: accounts_kept_def token_keys_def live_in_family_def)
next
  case (api x)
  have pg: "su_postgres x = oc_postgres oc" using api(2) by (auto simp: wired_setup_def setup_of_def Let_def)
  have steps: "(auth_step x)\<^sup>*\<^sup>* w w'" using api(3) assms(2) by blast
  have "accounts_kept (oc_postgres oc) w w'"
    unfolding pg [symmetric] by (rule account_service.auth_steps_R [OF steps]) (simp add: accounts_kept_same)
  moreover have "token_ok (token_state w')"
    using auth_steps_run [OF steps] assms(5) token_ok_empty [OF assms(4)] by (rule token_run_ok)
  ultimately show ?thesis using assms(3) by (simp add: accounts_kept_def token_ok_def token_inv_def)
qed

theorem program_invariants_witness:
  "accounts_ok ex_pg (snd ex_api_login) \<and> length (live_in_family 1 (db_refresh_tokens (snd ex_api_login))) \<le> 1"
proof -
  have pg: "oc_postgres ex_outside_code = ex_pg" by (simp add: ex_outside_code_def)
  have start: "db_users (snd ex_build) = [ex_user] \<and> db_users_seq (snd ex_build) = 1 \<and>
      db_refresh_tokens (snd ex_build) = [] \<and> w_uuid_draws (snd ex_build) = 0" by code_simp
  then have ok: "accounts_ok ex_pg (snd ex_build)"
    by (simp add: accounts_ok_def ex_user_def Role_Valid_def)
  obtain x where x: "(auth_step x)\<^sup>*\<^sup>* (snd ex_build) (snd ex_api_login)"
    using ex_build_eq by (cases rule: app_steps_auth) (use ex_app_login in \<open>auto simp: ex_config_def RunsAPI_def\<close>)
  have "w_uuids (snd ex_build) = of_nat"
    using BuildDeps_uuids [OF ex_build_eq] by (simp add: ex_start_def ex_world_def)
  then have "distinct_uuids (snd ex_api_login)"
    using auth_steps_run [OF x] ex_api_login of_nat_uuid_inj [of 4]
    by (auto simp: token_run_def grows_def distinct_uuids_def case_prod_beta)
  from program_invariants [OF ex_build_eq ex_app_login _ _ this, unfolded pg] ok start
  show ?thesis by blast
qed

end
