(* ===== verification/ApiAccess.thy ===== *)
theory ApiAccess
  imports ApiProps EventProps
begin

text \<open>
  What every request passes: the middlewares around a handler, the counters they keep, the
  guards of the protected routes, and whose data a reply can hold.
\<close>

section \<open>A request through the middlewares\<close>

text \<open>
  The context a handler sees differs from the one the router starts with in headers, request
  id and body limit; the state in a UUID, a reading of the clock and the gauge.
\<close>

definition begun :: "context \<Rightarrow> context \<Rightarrow> bool" where
  "begun start c \<longleftrightarrow> (\<exists>hs i n. c = start\<lparr>cx_headers := hs, cx_request_id := i, cx_body_limit := n\<rparr>)"

lemma begunD:
  assumes "begun start c"
  shows "cx_request c = cx_request start" "cx_full_path c = cx_full_path start"
    "cx_user_id c = cx_user_id start" "cx_role c = cx_role start" "cx_status c = cx_status start"
    "cx_wrote c = cx_wrote start" "cx_written c = cx_written start" "cx_panic c = cx_panic start"
    "cx_aborted c = cx_aborted start"
  using assms by (auto simp: begun_def)

lemma begun_steps:
  "begun start (start\<lparr>cx_request_id := i\<rparr>)" "begun start c \<Longrightarrow> begun start (Header k v c)"
  "begun start c \<Longrightarrow> begun start (cors_headers origin c)"
  "begun start c \<Longrightarrow> begun start (c\<lparr>cx_body_limit := n\<rparr>)"
proof -
  have set_headers: "begun start c \<Longrightarrow> begun start (c\<lparr>cx_headers := hs\<rparr>)" for c hs
    by (cases start; cases c) (auto simp: begun_def)
  show "begun start (start\<lparr>cx_request_id := i\<rparr>)" "begun start c \<Longrightarrow> begun start (c\<lparr>cx_body_limit := n\<rparr>)"
    by (cases start; cases c; auto simp: begun_def)+
  show header: "begun start c \<Longrightarrow> begun start (Header k v c)" for c k v
    unfolding Header_def by (rule set_headers)
  show "begun start c \<Longrightarrow> begun start (cors_headers origin c)"
    unfolding cors_headers_def by (intro header)
qed

definition before_handler :: "world \<Rightarrow> world \<Rightarrow> bool" where
  "before_handler w w0 \<longleftrightarrow> (\<exists>n. w0 = w\<lparr>w_uuid_draws := n, w_reads := Suc (Suc (w_reads w)),
     w_metrics := (w_metrics w)\<lparr>m_HTTPInFlight := m_HTTPInFlight (w_metrics w) + 1\<rparr>\<rparr>)"

definition recovered :: "context \<Rightarrow> context" where
  "recovered c = fst (Recovery (\<lambda>cw. cw) (c, ()))"

lemma Recovery_recovered: "Recovery nxt cw = (case nxt cw of (c, w) \<Rightarrow> (recovered c, w))"
  by (auto simp: Recovery_def recovered_def split: prod.split option.split)

definition request_labels :: "context \<Rightarrow> context \<Rightarrow> string list" where
  "request_labels start c =
     [requestMethod (rq_method (cx_request start)),
      if cx_full_path start = '''' then ''unmatched'' else cx_full_path start, FormatInt (cx_status c)]"

definition after_handler :: "context \<Rightarrow> context \<Rightarrow> nat \<Rightarrow> duration \<Rightarrow> world \<Rightarrow> world" where
  "after_handler start c n d w =
     w\<lparr>w_reads := n,
       w_metrics := (w_metrics w)
         \<lparr>m_HTTPDuration := m_HTTPDuration (w_metrics w) @ [(butlast (request_labels start c), d)],
          m_HTTPInFlight := m_HTTPInFlight (w_metrics w) - 1,
          m_HTTPRequests := Inc (request_labels start c) (m_HTTPRequests (w_metrics w))\<rparr>\<rparr>"

text \<open>The log reads the clock before the handler, and after it unless the path is left out.\<close>

lemma Logger_run:
  assumes "nxt (c, w\<lparr>w_reads := Suc (w_reads w)\<rparr>) = (c2, w2)"
  shows "\<exists>l. Logger_middleware (\<lambda>_ w. w) world_now skip nxt (c, w) = (c2, w2\<lparr>w_reads := l\<rparr>)"
proof (cases "rq_path (cx_request c2) \<in> set skip")
  case True
  then have "Logger_middleware (\<lambda>_ w. w) world_now skip nxt (c, w) = (c2, w2\<lparr>w_reads := w_reads w2\<rparr>)"
    using assms by (simp add: Logger_middleware_def world_now_def)
  then show ?thesis by blast
next
  case False
  then have "Logger_middleware (\<lambda>_ w. w) world_now skip nxt (c, w) = (c2, w2\<lparr>w_reads := Suc (w_reads w2)\<rparr>)"
    using assms by (simp add: Logger_middleware_def world_now_def)
  then show ?thesis by blast
qed

text \<open>The handler runs, unless CORS has answered a preflight request.\<close>

lemma middlewares_run:
  assumes "middlewares (world_process oc) d h (start, w) = (c', w')"
  obtains c0 w0 c1 w1 n t where "begun start c0" "before_handler w w0"
    "h (c0, w0) = (c1, w1) \<or>
     rq_method (cx_request start) = ''OPTIONS'' \<and> c1 = AbortWithStatus 204 c0 \<and> w1 = w0"
    "c' = recovered c1" "w' = after_handler start c' n t w1"
proof -
  let ?origins = "cc_AllowedOrigins (cf_CORS (rd_Config d))"
    and ?n = "ch_MaxBodyBytes (cf_HTTP (rd_Config d))"
  define i where "i = (if GetHeader start HeaderRequestID = ''''
    then lib_uuid_string (oc_library oc) (w_uuids w (w_uuid_draws w)) else GetHeader start HeaderRequestID)"
  define n where "n = (if GetHeader start HeaderRequestID = '''' then Suc (w_uuid_draws w) else w_uuid_draws w)"
  define ca where "ca = Header HeaderRequestID i (start\<lparr>cx_request_id := Some i\<rparr>)"
  have ca: "begun start ca" unfolding ca_def by (intro begun_steps)
  define w0 where "w0 = w\<lparr>w_uuid_draws := n, w_reads := Suc (Suc (w_reads w)),
     w_metrics := (w_metrics w)\<lparr>m_HTTPInFlight := m_HTTPInFlight (w_metrics w) + 1\<rparr>\<rparr>"
  have w0: "before_handler w w0" unfolding before_handler_def w0_def by blast
  have uuid: "RequestID (pr_library (world_process oc)) k (start, w) = k (ca, w\<lparr>w_uuid_draws := n\<rparr>)" for k
    by (simp add: RequestID_def world_process_def world_uuid_def ca_def i_def n_def Let_def)
  define k where "k = CORS ?origins (BodyLimit ?n h)"
  obtain c1 w1 where k: "k (ca, w0) = (c1, w1)" by fastforce
  have path: "cx_full_path ca = cx_full_path start" and req: "cx_request ca = cx_request start"
    using begunD [OF ca] by simp_all
  define wm where "wm = w\<lparr>w_uuid_draws := n, w_reads := Suc (w_reads w),
     w_metrics := (w_metrics w)\<lparr>m_HTTPInFlight := m_HTTPInFlight (w_metrics w) + 1\<rparr>\<rparr>"
  have wm: "wm\<lparr>w_reads := Suc (w_reads wm)\<rparr> = w0" by (simp add: wm_def w0_def)
  have "Recovery k (ca, wm\<lparr>w_reads := Suc (w_reads wm)\<rparr>) = (recovered c1, w1)"
    by (simp add: Recovery_recovered k wm)
  then obtain l where log: "Logger_middleware (\<lambda>_ w. w) world_now [''/healthz'', ''/readyz'', ''/metrics''] (Recovery k)
      (ca, wm) = (recovered c1, w1\<lparr>w_reads := l\<rparr>)"
    using Logger_run by blast
  have c': "c' = recovered c1"
    and w': "w' = after_handler start c' (Suc l) (Sub (w_clock w1 l) (w_clock w (w_reads w))) w1"
    using assms unfolding middlewares_def uuid
    by (auto simp: k_def [symmetric] MetricsMiddleware_def ObserveDuration_def world_process_def world_now_def
        wm_def [symmetric] log after_handler_def request_labels_def path req Let_def)
  consider (plain) "h (ca\<lparr>cx_body_limit := Some ?n\<rparr>, w0) = (c1, w1)"
    | (allowed) origin where "h ((cors_headers origin ca)\<lparr>cx_body_limit := Some ?n\<rparr>, w0) = (c1, w1)"
    | (preflight) origin where "rq_method (cx_request start) = ''OPTIONS''"
        "c1 = AbortWithStatus 204 (cors_headers origin ca)" "w1 = w0"
    using k req unfolding k_def CORS_def BodyLimit_def Let_def by (auto split: if_splits)
  then have "\<exists>c0. begun start c0 \<and> (h (c0, w0) = (c1, w1) \<or>
      rq_method (cx_request start) = ''OPTIONS'' \<and> c1 = AbortWithStatus 204 c0 \<and> w1 = w0)"
    using ca by cases (blast intro: begun_steps)+
  with w0 c' w' show thesis using that by blast
qed


section \<open>Counting requests\<close>

lemma base_api_deps [simp]:
  "rd_Config (base_deps cfg v) = cfg" "rd_Config (api_deps oc cfg v x s agg) = cfg"
  "rd_Health (api_deps oc cfg v x s agg) = rd_Health (base_deps cfg v)"
  by (simp_all add: base_deps_def api_deps_def)

lemma routes_http:
  assumes "BuildDeps oc cfg version w0 = (Inr (d, worker), w1)" and "ro \<in> set (routes p bi signals d)"
  shows "keeps http_same (ro_handler ro)"
  using assms(1)
proof (cases rule: BuildDeps_cases)
  case worker
  show ?thesis
    by (rule http.keeps_routes [OF _ _ assms(2)])
      (use worker in \<open>auto simp: base_deps_def registerAPI_def\<close>)
next
  case (api jwt decoy b n)
  show ?thesis
  proof (rule http.keeps_routes [OF _ _ assms(2)])
    show "he_ping (rd_Health d) = world_ping" unfolding api(3) by (simp add: base_deps_def)
    show "ro' \<in> set (registerAPI bi signals d) \<Longrightarrow> keeps http_same (ro_handler ro')" for ro'
      unfolding api(3) by (rule http.keeps_registerAPI)
  qed

qed

text \<open>The label of the route in the metrics.\<close>

definition route_label :: "'w route list \<Rightarrow> request \<Rightarrow> string" where
  "route_label rs r = (case find_route rs r of
     Some x \<Rightarrow> (if ro_path x = '''' then ''unmatched'' else ro_path x) | None \<Rightarrow> ''unmatched'')"

text \<open>
  C37: Every request is counted once, under its method, its route and the status that was
  sent, whether it was served, refused, not found or ended in a panic, and the gauge of
  requests in flight is back where it was.
\<close>

theorem requests_counted:
  assumes "BuildDeps oc cfg version w0 = (Inr (d, worker), w1)"
    and "serve (world_process oc) bi signals d r w = (c, w')"
  shows "m_HTTPInFlight (w_metrics w') = m_HTTPInFlight (w_metrics w) \<and>
    length (m_HTTPDuration (w_metrics w')) = Suc (length (m_HTTPDuration (w_metrics w))) \<and>
    (\<forall>labels. count_of labels (m_HTTPRequests (w_metrics w')) = count_of labels (m_HTTPRequests (w_metrics w)) +
       (if labels = [requestMethod (rq_method r),
            route_label (routes (world_process oc) bi signals d) r, FormatInt (cx_status c)] then 1 else 0))"
proof -
  have counted: "m_HTTPInFlight (w_metrics v') = m_HTTPInFlight (w_metrics v) \<and>
      length (m_HTTPDuration (w_metrics v')) = Suc (length (m_HTTPDuration (w_metrics v))) \<and>
      m_HTTPRequests (w_metrics v') = Inc (request_labels start c') (m_HTTPRequests (w_metrics v))"
    if m: "middlewares (world_process oc) d h (start, v) = (c', v')" and h: "keeps http_same h" for h start v c' v'
    using m
  proof (cases rule: middlewares_run)
    case (1 c0 u0 c1 u1 n t)
    have "http_same u0 u1" using 1(3) h by (auto dest: keepsD simp: http_same_def)
    with 1(2,5) show ?thesis
      by (auto simp: before_handler_def after_handler_def http_same_def http_part_def)
  qed
  show ?thesis
  proof (cases "find_route (routes (world_process oc) bi signals d) r")
    case None
    obtain c1 w2 where 1: "middlewares (world_process oc) d (\<lambda>cw. cw) (Status 404 (new_context r ''''), w) = (c1, w2)"
      by fastforce
    have "w' = w2" "cx_status c = cx_status c1"
      using assms(2) None 1 by (auto simp: serve_def serve_not_found_def write_chunk_def split: if_splits)
    with counted [OF 1] None show ?thesis
      by (auto simp: keeps_def keeping_def http_same_def request_labels_def route_label_def count_Inc
          new_context_def Status_def)
  next
    case (Some x)
    then have 1: "middlewares (world_process oc) d (ro_handler x) (new_context r (ro_path x), w) = (c, w')"
      using assms(2) by (simp add: serve_def)
    have "keeps http_same (ro_handler x)"
      using assms(1) find_route_Some(1) [OF Some] by (rule routes_http)
    from counted [OF 1 this] Some show ?thesis
      by (auto simp: request_labels_def route_label_def count_Inc new_context_def)
  qed
qed

lemma ex_serve_eq: "serve (world_process ex_outside_code) ex_binding [] ex_deps r w = (fst (ex_serve r w), snd (ex_serve r w))"
  by (simp add: ex_serve_def)

theorem requests_counted_witness:
  "count_of [''POST'', ''/api/v1/auth/login'', ''200''] (m_HTTPRequests (w_metrics (snd ex_api_login))) =
   count_of [''POST'', ''/api/v1/auth/login'', ''200''] (m_HTTPRequests (w_metrics (snd ex_build))) + 1"
proof -
  let ?r = "ex_request ''POST'' ''/api/v1/auth/login'' '''' ''h''"
  have labels: "[requestMethod (rq_method ?r),
      route_label (routes (world_process ex_outside_code) ex_binding [] ex_deps) ?r,
      FormatInt 200] = [''POST'', ''/api/v1/auth/login'', ''200'']" by code_simp
  have status: "cx_status (fst (ex_serve ?r (snd ex_build))) = 200"
    using ex_api_login by (simp add: case_prod_beta ex_api_login_def)
  show ?thesis
    unfolding ex_api_login_def labels [symmetric]
    using requests_counted [OF ex_build_eq ex_serve_eq, of ?r "snd ex_build"] unfolding status by simp
qed


section \<open>The guards of the API\<close>

text \<open>The paths that need no token.\<close>

definition public_paths :: "string list" where
  "public_paths = [''/healthz'', ''/readyz'', ''/metrics'', ''/docs'', ''/openapi.yaml'',
     ''/api/v1/auth/methods'', ''/api/v1/auth/register'', ''/api/v1/auth/login'',
     ''/api/v1/auth/google/start'', ''/api/v1/auth/google/callback'', ''/api/v1/auth/google/exchange'',
     ''/api/v1/auth/refresh'', ''/api/v1/auth/logout'']"

text \<open>The claims of the token a request presents, if it is acceptable at that time.\<close>

definition presented :: "'w library \<Rightarrow> Manager \<Rightarrow> time \<Rightarrow> request \<Rightarrow> Claims option" where
  "presented lib m now r =
     (case bearerToken (rq_header r ''Authorization'') of
        None \<Rightarrow> None
      | Some raw \<Rightarrow> (case Manager_Parse lib m now raw of Inl _ \<Rightarrow> None | Inr claims \<Rightarrow> Some claims))"

text \<open>The tables and the broker are as they were; a request has been counted.\<close>

definition untouched :: "world \<Rightarrow> world \<Rightarrow> bool" where
  "untouched w w' \<longleftrightarrow> db.truncate w' = db.truncate w \<and> w_broker w' = w_broker w"

lemma untouched_around:
  "before_handler w w0 \<Longrightarrow> untouched w w0" "untouched w u \<Longrightarrow> untouched w (after_handler start c n t u)"
  "untouched w u \<Longrightarrow> untouched w (u\<lparr>w_reads := n\<rparr>)"
  by (auto simp: untouched_def before_handler_def after_handler_def db.defs)

lemma guarded_handler:
  assumes "ro \<in> set (routes p bi signals (api_deps oc cfg v x s agg))" and "ro_path ro \<notin> set public_paths"
  obtains h where "ro_handler ro = RequireAuth (world_parse (auth_library x) (su_jwt x)) h"
    "HasPrefix (ro_path ro) ''/api/v1/admin/'' \<Longrightarrow> \<exists>k. h = RequireRole [RoleAdmin] k"
proof -
  have "\<exists>h. ro_handler ro = RequireAuth (world_parse (auth_library x) (su_jwt x)) h \<and>
      (HasPrefix (ro_path ro) ''/api/v1/admin/'' \<longrightarrow> (\<exists>k. h = RequireRole [RoleAdmin] k))"
    using assms unfolding routes_def registerAPI_def auth_routes_def event_routes_def stats_routes_def
      public_paths_def api_deps_def base_deps_def admin_only_def
    by (auto simp: route_to_def HasPrefix_def split: if_splits)
  then show thesis using that by blast
qed

lemma Manager_Parse_auth: "Manager_Parse (auth_library x) m now raw = Manager_Parse (su_library x) m now raw"
  by (simp add: Manager_Parse_def)

text \<open>What the guard makes of a request, at the time it reads.\<close>

lemma RequireAuth_presented:
  fixes x w h m c
  defines "guarded \<equiv> RequireAuth (world_parse (auth_library x) m) h (c, w)"
    and "p \<equiv> presented (su_library x) m (w_clock w (w_reads w)) (cx_request c)"
  shows "p = None \<Longrightarrow> \<exists>k msg n. guarded = (response_Error 401 k msg c, w\<lparr>w_reads := n\<rparr>)"
    and "p = Some claims \<Longrightarrow> guarded = h (c\<lparr>cx_user_id := Some (case Claims_UserID claims of Inl _ \<Rightarrow> 0 | Inr i \<Rightarrow> i),
      cx_role := Some (cl_Role claims)\<rparr>, w\<lparr>w_reads := Suc (w_reads w)\<rparr>)"
proof -
  show "\<exists>k msg n. guarded = (response_Error 401 k msg c, w\<lparr>w_reads := n\<rparr>)" if "p = None"
  proof (cases "bearerToken (rq_header (cx_request c) ''Authorization'')")
    case None
    then have "guarded = (response_Error 401 CodeUnauthorized
        ''Authorization header with a bearer token is required'' c, w\<lparr>w_reads := w_reads w\<rparr>)"
      unfolding guarded_def RequireAuth_def unauthorized_def GetHeader_def by simp
    then show ?thesis by blast
  next
    case (Some raw)
    then obtain err where "Manager_Parse (su_library x) m (w_clock w (w_reads w)) raw = Inl err"
      using \<open>p = None\<close> unfolding p_def presented_def by (auto split: sum.splits)
    with Some have "guarded = (response_Error 401 CodeInvalidToken ''Access token is invalid or expired'' c,
        w\<lparr>w_reads := Suc (w_reads w)\<rparr>)"
      unfolding guarded_def RequireAuth_def GetHeader_def
      by (simp add: world_parse_def world_now_def Manager_Parse_auth)
    then show ?thesis by blast
  qed
  show "guarded = h (c\<lparr>cx_user_id := Some (case Claims_UserID claims of Inl _ \<Rightarrow> 0 | Inr i \<Rightarrow> i),
      cx_role := Some (cl_Role claims)\<rparr>, w\<lparr>w_reads := Suc (w_reads w)\<rparr>)" if "p = Some claims"
    using that unfolding guarded_def p_def RequireAuth_def GetHeader_def presented_def
    by (auto simp: world_parse_def world_now_def Manager_Parse_auth Let_def split: option.splits sum.splits)
qed

text \<open>
  A request for a guarded route: it is refused, or its handler runs with the identity of the
  token in a context without a reply.
\<close>

lemma guarded_run:
  assumes serve: "serve (world_process oc) bi signals d r w = (c, w')"
    and route: "find_route (routes (world_process oc) bi signals d) r = Some ro"
    and ro: "ro_handler ro = RequireAuth (world_parse (auth_library x) m) h" and verb: "rq_method r \<noteq> ''OPTIONS''"
  defines "p \<equiv> presented (su_library x) m (w_clock w (Suc (Suc (w_reads w)))) r"
  obtains (refused) "p = None" "cx_status c = 401" "untouched w w'"
  | (passed) claims c2 u2 c1 u1 n t where "p = Some claims"
      "cx_request c2 = r" "fresh_reply c2" "cx_status c2 = 200" "cx_role c2 = Some (cl_Role claims)"
      "cx_user_id c2 = Some (case Claims_UserID claims of Inl _ \<Rightarrow> 0 | Inr i \<Rightarrow> i)"
      "untouched w u2" "h (c2, u2) = (c1, u1)" "c = recovered c1"
      "w' = after_handler (new_context r (ro_path ro)) c n t u1"
proof -
  have m: "middlewares (world_process oc) d (ro_handler ro) (new_context r (ro_path ro), w) = (c, w')"
    using serve route by (simp add: serve_def)
  show thesis
    using m
  proof (cases rule: middlewares_run)
    case (1 c0 u0 c1 u1 n t)
    have run: "ro_handler ro (c0, u0) = (c1, u1)" using 1(3) verb by (simp add: new_context_def)
    have req: "cx_request c0 = r" and fresh: "fresh_reply c0" "cx_status c0 = 200"
      using begunD [OF 1(1)] by (simp_all add: new_context_def fresh_reply_def)
    have clock: "w_clock u0 (w_reads u0) = w_clock w (Suc (Suc (w_reads w)))"
      using 1(2) by (auto simp: before_handler_def)
    note guard = RequireAuth_presented [where c = c0 and x = x and w = u0 and m = m and h = h,
        folded ro, unfolded run clock req, folded p_def]
    show thesis
    proof (cases p)
      case None
      then obtain k msg n where "c1 = response_Error 401 k msg c0" "u1 = u0\<lparr>w_reads := n\<rparr>"
        using guard(1) by blast
      with 1(2,4,5) fresh None show thesis
        by (intro refused) (auto simp: recovered_def Recovery_def fresh_reply_def intro: untouched_around)
    next
      case (Some claims)
      have "untouched w (u0\<lparr>w_reads := Suc (w_reads u0)\<rparr>)" using 1(2) by (intro untouched_around)
      with fresh req guard(2) [OF Some] 1(4,5) show thesis
        by (intro passed [OF Some]) (auto simp: fresh_reply_def)
    qed
  qed
qed

text \<open>
  C35: A request for any path but the public ones that presents no token, or one that is
  not acceptable at the time it is served, is answered with 401; a request below \<open>/admin\<close> with a token of
  another role is answered with 403. Neither touches a table or the broker.
\<close>

theorem access_control:
  assumes "BuildDeps oc cfg version w0 = (Inr (d, worker), w1)"
    and "NewManager (ct_JWTSecret (cf_Auth cfg)) (ct_Issuer (cf_Auth cfg)) (ct_AccessTTL (cf_Auth cfg)) = Inr jwt"
    and "serve (world_process oc) bi signals d r w = (c, w')"
    and "find_route (routes (world_process oc) bi signals d) r = Some ro" and "rq_path r \<notin> set public_paths"
    and "p = presented (oc_library oc) jwt (w_clock w (Suc (Suc (w_reads w)))) r"
  shows "(p = None \<longrightarrow> cx_status c = 401 \<and> untouched w w') \<and>
    (\<forall>claims. p = Some claims \<longrightarrow> HasPrefix (rq_path r) ''/api/v1/admin/'' \<longrightarrow> cl_Role claims \<noteq> RoleAdmin \<longrightarrow>
       cx_status c = 403 \<and> untouched w w')"
  using assms(1)
proof (cases rule: BuildDeps_cases)
  case worker
  have "rq_path r \<in> set public_paths"
    using find_route_Some [OF assms(4)] worker
    by (auto simp: routes_def route_to_def base_deps_def registerAPI_def public_paths_def split: if_splits)
  with assms(5) show ?thesis by contradiction
next
  case (api jwt' decoy b n)
  let ?x = "(setup_of oc cfg jwt')\<lparr>su_decoy := decoy\<rparr>"
  have x: "su_jwt ?x = jwt" "su_library ?x = oc_library oc"
    using api(2) assms(2) by (simp_all add: setup_of_def Let_def)
  note ro = find_route_Some [OF assms(4)]
  obtain h where h: "ro_handler ro = RequireAuth (world_parse (auth_library ?x) (su_jwt ?x)) h"
    and admin: "HasPrefix (rq_path r) ''/api/v1/admin/'' \<Longrightarrow> \<exists>k. h = RequireRole [RoleAdmin] k"
    using guarded_handler [OF ro(1) [unfolded api(3)]] assms(5) ro(3) by metis
  have verb: "rq_method r \<noteq> ''OPTIONS''"
    using ro unfolding api(3) routes_def registerAPI_def auth_routes_def event_routes_def stats_routes_def
    by (auto simp: route_to_def split: if_splits option.splits)
  have p: "p = presented (su_library ?x) (su_jwt ?x) (w_clock w (Suc (Suc (w_reads w)))) r"
    unfolding assms(6) x ..
  show ?thesis
    using assms(3,4) h verb
  proof (cases rule: guarded_run)
    case refused
    then show ?thesis by (simp add: p)
  next
    case (passed claims c2 u2 c1 u1 n t)
    have "cx_status c = 403 \<and> untouched w w'"
      if a: "HasPrefix (rq_path r) ''/api/v1/admin/''" "cl_Role claims \<noteq> RoleAdmin"
    proof -
      obtain k where "h = RequireRole [RoleAdmin] k" using admin [OF a(1)] by blast
      then have "c1 = response_Error 403 CodeForbidden ''This action requires a different role'' c2" "u1 = u2"
        using passed(5,8) a(2) by (simp_all add: RequireRole_def RoleFrom_def)
      with passed(3,4,7,9,10) show ?thesis
        by (auto simp: recovered_def Recovery_def fresh_reply_def intro: untouched_around)
    qed
    with passed(1) show ?thesis by (simp add: p)
  qed
qed


lemma ex_manager:
  "NewManager (ct_JWTSecret (cf_Auth (ex_config ModeAll))) (ct_Issuer (cf_Auth (ex_config ModeAll)))
     (ct_AccessTTL (cf_Auth (ex_config ModeAll))) = Inr \<lparr>mg_secret = ''s'', mg_issuer = ''i'', mg_accessTTL = Minute\<rparr>"
  by (simp add: NewManager_def ex_config_def Minute_def Second_def)

theorem access_control_witness:
  "cx_status (fst (ex_serve (ex_request ''GET'' ''/api/v1/admin/users'' ''Bearer user'' '''') (snd ex_build))) = 403 \<and>
   cx_status (fst (ex_serve (ex_request ''GET'' ''/api/v1/events'' ''Bearer x'' '''') (snd ex_build))) = 401"
proof -
  let ?rs = "routes (world_process ex_outside_code) ex_binding [] ex_deps"
    and ?user = "ex_request ''GET'' ''/api/v1/admin/users'' ''Bearer user'' ''''"
    and ?none = "ex_request ''GET'' ''/api/v1/events'' ''Bearer x'' ''''"
    and ?m = "\<lparr>mg_secret = ''s'', mg_issuer = ''i'', mg_accessTTL = Minute\<rparr>"
    and ?now = "w_clock (snd ex_build) (Suc (Suc (w_reads (snd ex_build))))"
  have "\<not> Option.is_none (find_route ?rs ?user)" "\<not> Option.is_none (find_route ?rs ?none)" by code_simp+
  then obtain ro ro' where ro: "find_route ?rs ?user = Some ro" "find_route ?rs ?none = Some ro'"
    by (auto simp: Option.is_none_def)
  have p: "presented (oc_library ex_outside_code) ?m ?now ?user = Some (ex_claims RoleUser)"
    "presented (oc_library ex_outside_code) ?m ?now ?none = None" by code_simp+
  have paths: "rq_path ?user \<notin> set public_paths" "rq_path ?none \<notin> set public_paths"
    "HasPrefix (rq_path ?user) ''/api/v1/admin/''" "cl_Role (ex_claims RoleUser) \<noteq> RoleAdmin"
    by (simp_all add: ex_request_def public_paths_def HasPrefix_def ex_claims_def RoleUser_def RoleAdmin_def)
  note ac = access_control [OF ex_build_eq ex_manager ex_serve_eq]
  show ?thesis
    using ac [OF ro(1) paths(1) p(1) [symmetric]] ac [OF ro(2) paths(2) p(2) [symmetric]] paths(3,4) by blast
qed

section \<open>Whose data a reply holds\<close>





















end
