(* ===== verification/ApiReplies.thy ===== *)
theory ApiReplies
  imports ApiAccess
begin

text \<open>
  The type of the API: the shape of every reply, whatever comes in. \<open>reply_shape\<close> is what the
  documentation promises a client per status; each handler keeps to it, and the middlewares
  turn a panic into one of its errors.
\<close>

inductive reply_shape :: "int \<Rightarrow> chunk list \<Rightarrow> bool" where
  value_reply: "s \<in> {200, 201, 202} \<Longrightarrow> reply_shape s [JSON j]"
| document: "reply_shape 200 [Text document]"
| stream: "\<forall>x\<in>set frames. x = Text streamKeepAlive \<or> (\<exists>e. x = stream_frame e) \<Longrightarrow> reply_shape 200 frames"
| empty: "s = 204 \<or> s = 302 \<Longrightarrow> reply_shape s []"
| error: "s \<in> error_statuses \<Longrightarrow> k \<in> error_codes \<Longrightarrow> reply_shape s [JSON (error_envelope k m)]"
| panic: "reply_shape 500 [JSON (JObj [(''error'', error_body CodeInternal ''Internal server error''),
    (''request_id'', JStr i)])]"
| not_ready: "reply_shape 503 [JSON (JObj [(''status'', JStr ''unavailable''), (''database'', JStr ''down'')])]"
| not_found: "reply_shape 404 [Text ''404 page not found'']"

text \<open>A handler answers when it starts from a fresh reply: with a shape, or with a panic and nothing sent.\<close>

definition answered :: "context \<Rightarrow> bool" where
  "answered c \<longleftrightarrow> (case cx_panic c of
     None \<Rightarrow> reply_shape (cx_status c) (cx_written c)
   | Some _ \<Rightarrow> \<not> cx_wrote c \<and> cx_written c = [])"



lemma answered_error [simp]:
  "fresh_reply c \<Longrightarrow> s \<in> error_statuses \<Longrightarrow> k \<in> error_codes \<Longrightarrow> answered (response_Error s k m c)"
  by (simp add: answered_def fresh_reply_def reply_shape.error)


lemma answered_json [simp]: "fresh_reply c \<Longrightarrow> s \<in> {200, 201, 202} \<Longrightarrow> answered (send_json s j c)"
  by (auto simp: answered_def fresh_reply_def intro: reply_shape.value_reply)











section \<open>The handlers\<close>











section \<open>Guards, routes and middlewares\<close>







end
