(* ===== verification/Startup.thy ===== *)
theory Startup
  imports App
begin

text \<open>
  From the start of the process to its end: \<open>internal/database/postgres.go\<close> and
  \<open>migrator.go\<close>, \<open>internal/logger/logger.go\<close>, and the \<open>run\<close> functions of \<open>cmd/app\<close> and
  \<open>cmd/migrate\<close>.

  \<open>driver\<close> is what the driver pgx, the package \<open>sql\<close> and goose do over the state \<open>'w\<close>: each
  operation returns the text of its error, or \<open>None\<close>. \<open>dv_wait\<close> is the \<open>select\<close> between the
  end of the context and a timer: true when the context is over.
\<close>

record Logger =
  lg_level :: string
  lg_console :: bool

record PoolConfig =
  pl_URL :: string
  pl_MaxConns :: "32 word"
  pl_MinConns :: "32 word"
  pl_MaxConnLifetime :: duration
  pl_MaxConnIdleTime :: duration
  pl_HealthCheckPeriod :: duration

record 'w driver =
  dv_parse :: "string \<Rightarrow> string option"
  dv_open :: "PoolConfig \<Rightarrow> 'w \<Rightarrow> string option \<times> 'w"
  dv_ping :: "'w \<Rightarrow> string option \<times> 'w"
  dv_wait :: "duration \<Rightarrow> 'w \<Rightarrow> bool \<times> 'w"
  dv_close :: "'w \<Rightarrow> 'w"

datatype startup_error =
    ConfigError config_error
  | UnknownLevel string string
  | BadDatabaseURL string
  | NoPool string
  | CouldNotConnect int string
  | MigratorUnavailable int string
  | ContextOver
  | WiringError go_error
  | HTTPServerError string
  | ShutdownError string
  | NoMigrationsDir string string
  | NoDialect string
  | GooseError string
  | NoMigratorDB string
  | CommandError string string
  | NoSchemaVersion string

section \<open>Connecting\<close>

definition logger_New :: "(string \<Rightarrow> string option) \<Rightarrow> string \<Rightarrow> string \<Rightarrow> startup_error + Logger" where
  "logger_New parse_level level format =
     (case parse_level level of
        Some err \<Rightarrow> Inl (UnknownLevel level err)
      | None \<Rightarrow> Inr \<lparr>lg_level = level, lg_console = (format = ''console'')\<rparr>)"

text \<open>The backoff doubles, at 64 bits, until it has reached 10 s.\<close>

definition next_backoff :: "duration \<Rightarrow> duration" where
  "next_backoff backoff = (if backoff < 10 * Second then wrap64 (backoff * 2) else backoff)"

text \<open>
  The loop of \<open>ping\<close> and of \<open>waitForDB\<close>; the result also lists what \<open>log.Warn\<close> reports, the
  attempts that failed and the pause after each.
\<close>

function retry_loop ::
    "'w driver \<Rightarrow> (int \<Rightarrow> string \<Rightarrow> startup_error) \<Rightarrow> int \<Rightarrow> int \<Rightarrow> duration \<Rightarrow> 'w \<Rightarrow>
     (startup_error option \<times> (int \<times> duration) list) \<times> 'w" where
  "retry_loop dv failed retries attempt backoff w =
     (case dv_ping dv w of
        (None, w1) \<Rightarrow> ((None, []), w1)
      | (Some err, w1) \<Rightarrow>
          (if attempt \<ge> retries then ((Some (failed attempt err), []), w1)
           else
             (case dv_wait dv backoff w1 of
                (True, w2) \<Rightarrow> ((Some ContextOver, [(attempt, backoff)]), w2)
              | (False, w2) \<Rightarrow>
                  (case retry_loop dv failed retries (attempt + 1) (next_backoff backoff) w2 of
                     ((r, warnings), w3) \<Rightarrow> ((r, (attempt, backoff) # warnings), w3)))))"
  by pat_completeness auto

termination by (relation "measure (\<lambda>(dv, failed, retries, attempt, backoff, w). nat (retries - attempt))") auto

declare retry_loop.simps [simp del]

definition database_ping :: "'w driver \<Rightarrow> DBConfig \<Rightarrow> 'w \<Rightarrow> (startup_error option \<times> (int \<times> duration) list) \<times> 'w" where
  "database_ping dv cfg = retry_loop dv CouldNotConnect (cd_ConnectRetries cfg) 1 (cd_ConnectBackoff cfg)"

definition Connect :: "'w driver \<Rightarrow> DBConfig \<Rightarrow> 'w \<Rightarrow> (startup_error + PoolConfig) \<times> 'w" where
  "Connect dv cfg w =
     (case dv_parse dv (cd_URL cfg) of
        Some err \<Rightarrow> (Inl (BadDatabaseURL err), w)
      | None \<Rightarrow>
          (let pool = \<lparr>pl_URL = cd_URL cfg, pl_MaxConns = cd_MaxConns cfg, pl_MinConns = cd_MinConns cfg,
                       pl_MaxConnLifetime = Hour, pl_MaxConnIdleTime = 30 * Minute,
                       pl_HealthCheckPeriod = Minute\<rparr>
           in case dv_open dv pool w of
                (Some err, w1) \<Rightarrow> (Inl (NoPool err), w1)
              | (None, w1) \<Rightarrow>
                  (case database_ping dv cfg w1 of
                     ((Some err, warnings), w2) \<Rightarrow> (Inl err, dv_close dv w2)
                   | ((None, warnings), w2) \<Rightarrow> (Inr pool, w2))))"

section \<open>Migrations\<close>

text \<open>
  \<open>goose\<close>: the directory, the dialect, a command with or without a database, the version.
\<close>

record 'w goose =
  go_Stat :: "string \<Rightarrow> string option"
  go_SetDialect :: "string \<Rightarrow> string option"
  go_Run :: "string \<Rightarrow> bool \<Rightarrow> string \<Rightarrow> string list \<Rightarrow> 'w \<Rightarrow> string option \<times> 'w"
  go_Version :: "'w \<Rightarrow> (string + int) \<times> 'w"
  go_Open :: "string \<Rightarrow> string option"

record Migrator =
  mr_dsn :: string
  mr_dir :: string

definition NewMigrator :: "string \<Rightarrow> string \<Rightarrow> Migrator" where
  "NewMigrator dsn dir = \<lparr>mr_dsn = dsn, mr_dir = dir\<rparr>"

definition waitForDB :: "'w driver \<Rightarrow> 'w \<Rightarrow> (startup_error option \<times> (int \<times> duration) list) \<times> 'w" where
  "waitForDB dv = retry_loop dv MigratorUnavailable 10 1 Second"

definition Migrator_Run ::
    "'w driver \<Rightarrow> 'w goose \<Rightarrow> Migrator \<Rightarrow> string \<Rightarrow> string list \<Rightarrow> 'w \<Rightarrow> startup_error option \<times> 'w" where
  "Migrator_Run dv go m command args w =
     (case go_Stat go (mr_dir m) of
        Some err \<Rightarrow> (Some (NoMigrationsDir (mr_dir m) err), w)
      | None \<Rightarrow>
          (case go_SetDialect go ''postgres'' of
             Some err \<Rightarrow> (Some (NoDialect err), w)
           | None \<Rightarrow>
               (if command = ''create'' \<or> command = ''fix''
                then
                  (case go_Run go command False (mr_dir m) args w of
                     (err, w1) \<Rightarrow> (map_option GooseError err, w1))
                else
                  (case go_Open go (mr_dsn m) of
                     Some err \<Rightarrow> (Some (NoMigratorDB err), w)
                   | None \<Rightarrow>
                       (case waitForDB dv w of
                          ((Some err, warnings), w1) \<Rightarrow> (Some err, dv_close dv w1)
                        | ((None, warnings), w1) \<Rightarrow>
                            (case go_Run go command True (mr_dir m) args w1 of
                               (Some err, w2) \<Rightarrow> (Some (CommandError command err), dv_close dv w2)
                             | (None, w2) \<Rightarrow>
                                 (case go_Version go w2 of
                                    (Inl err, w3) \<Rightarrow> (Some (NoSchemaVersion err), dv_close dv w3)
                                  | (Inr version, w3) \<Rightarrow> (None, dv_close dv w3))))))))"

definition migrate_run ::
    "environment \<Rightarrow> (string \<Rightarrow> string option) \<Rightarrow> 'w driver \<Rightarrow> 'w goose \<Rightarrow> string list \<Rightarrow> 'w \<Rightarrow> startup_error option \<times> 'w" where
  "migrate_run e parse_level dv go args w =
     (case args of
        [] \<Rightarrow> (None, w)
      | command # rest \<Rightarrow>
          (if command = ''help'' \<or> command = ''-h'' \<or> command = ''--help'' then (None, w)
           else
             (case LoadMigrations e of
                Inl err \<Rightarrow> (Some (ConfigError err), w)
              | Inr cfg \<Rightarrow>
                  (case logger_New parse_level (cl_Level (mi_Log cfg)) (cl_Format (mi_Log cfg)) of
                     Inl err \<Rightarrow> (Some err, w)
                   | Inr log \<Rightarrow>
                       Migrator_Run dv go (NewMigrator (cd_URL (mi_DB cfg)) (cd_MigrationsDir (mi_DB cfg)))
                         command rest w))))"


section \<open>The main program\<close>

text \<open>
  What happens to the running process, in the order it happens: a request, a pass of the
  scheduler, a listener that fails, or the signal to stop, with what \<open>Shutdown\<close> returns.
\<close>

datatype moment =
    Request request "signal list"
  | Pass
  | ListenFailed string
  | StopSignal "string option"

datatype outcome = Serving | Stopped "startup_error option"

fun app_serve ::
    "outside_code \<Rightarrow> world RouterDeps \<Rightarrow> world Scheduler option \<Rightarrow> moment list \<Rightarrow> world \<Rightarrow> (outcome \<times> world) option" where
  "app_serve oc d worker [] w = Some (Serving, w)"
| "app_serve oc d worker (Request r signals # rest) w =
     app_serve oc d worker rest (snd (serve (world_process oc) (oc_binding oc) signals d r w))"
| "app_serve oc d worker (Pass # rest) w =
     (case worker of
        None \<Rightarrow> app_serve oc d worker rest w
      | Some s \<Rightarrow> (case runOnce s w of None \<Rightarrow> None | Some w1 \<Rightarrow> app_serve oc d worker rest w1))"
| "app_serve oc d worker (ListenFailed err # rest) w = Some (Stopped (Some (HTTPServerError err)), w)"
| "app_serve oc d worker (StopSignal err # rest) w = Some (Stopped (map_option ShutdownError err), w)"

definition app_run ::
    "outside_code \<Rightarrow> environment \<Rightarrow> (string \<Rightarrow> string option) \<Rightarrow> world driver \<Rightarrow> string \<Rightarrow> moment list \<Rightarrow>
     world \<Rightarrow> (outcome \<times> world) option" where
  "app_run oc e parse_level dv version moments w =
     (case Load e of
        Inl err \<Rightarrow> Some (Stopped (Some (ConfigError err)), w)
      | Inr cfg \<Rightarrow>
          (case logger_New parse_level (cl_Level (cf_Log cfg)) (cl_Format (cf_Log cfg)) of
             Inl err \<Rightarrow> Some (Stopped (Some err), w)
           | Inr log \<Rightarrow>
               (case Connect dv (cf_DB cfg) w of
                  (Inl err, w1) \<Rightarrow> Some (Stopped (Some err), w1)
                | (Inr pool, w1) \<Rightarrow>
                    (case BuildDeps oc cfg version (w1\<lparr>w_metrics := Metrics_New\<rparr>) of
                       (Inl err, w2) \<Rightarrow> Some (Stopped (Some (WiringError err)), dv_close dv w2)
                     | (Inr (d, worker), w2) \<Rightarrow>
                         (case app_serve oc d worker moments w2 of
                            None \<Rightarrow> None
                          | Some (Serving, w3) \<Rightarrow> Some (Serving, w3)
                          | Some (Stopped err, w3) \<Rightarrow> Some (Stopped err, dv_close dv w3))))))"

end
