(* ===== verification/StartupProps.thy ===== *)
theory StartupProps
  imports Startup ApiAccess AggProps
begin

text \<open>
  Properties of the configuration and of the start of the process: what an accepted
  configuration guarantees, how long the process tries to reach its database, and that the
  main program, once it serves, only makes the steps of \<open>app_step\<close>.
\<close>

section \<open>An accepted configuration\<close>

text \<open>A window whose length divides a day lies within one day.\<close>

lemma day_window:
  assumes "0 < b" and "b dvd Day"
  shows "day_of (BucketStart t b) = day_of t" and "BucketStart t b + b \<le> day_of t + Day"
proof -
  have day: "0 < Day" "day_of t = Truncate t Day" by (simp_all add: Day_def Hour_def Minute_def Second_def day_of_def)
  have D: "Day dvd day_of t" "day_of t \<le> t" "t < day_of t + Day"
    using Truncate_dvd [OF day(1)] Truncate_le Truncate_gt [OF day(1)] by (simp_all add: day(2))
  have b: "b dvd day_of t" "b dvd BucketStart t b"
    using D(1) assms dvd_trans BucketStart_dvd by blast+
  have "BucketStart (day_of t) b \<le> BucketStart t b" using D(2) by (rule BucketStart_mono)
  then have low: "day_of t \<le> BucketStart t b" by (simp add: BucketStart_multiple [OF b(1)])
  have "b dvd day_of t + Day - BucketStart t b" using b assms(2) by simp
  moreover have "0 < day_of t + Day - BucketStart t b" using D(3) BucketStart_le [of t b] by simp
  ultimately have "b \<le> day_of t + Day - BucketStart t b" by (rule zdvd_imp_le)
  then show high: "BucketStart t b + b \<le> day_of t + Day" by simp
  show "day_of (BucketStart t b) = day_of t"
    unfolding day_of_def [of "BucketStart t b"] Day_def [symmetric]
    by (rule Truncate_unique) (use day D(1) low high assms(1) in simp_all)
qed

text \<open>
  C39: A configuration that \<open>Load\<close> accepts can be run: the mode is one of the three, the
  aggregation service works with the configured window, each window lies within one day, and
  the scheduler with a positive tick and backfill; with an API the secret has at least 32
  bytes, an access token lives shorter than a session, and the token manager is built.
\<close>

theorem config_accepted:
  assumes "Load e = Inr cfg"
  defines "a \<equiv> cf_Aggregation cfg" and "t \<equiv> cf_Auth cfg"
  shows "cp_Mode (cf_App cfg) \<in> {ModeAPI, ModeWorker, ModeAll} \<and>
    ag_bucket (aggregation_service (ca_Bucket a) (ca_Backfill a)) = ca_Bucket a \<and>
    ag_backfill (aggregation_service (ca_Bucket a) (ca_Backfill a)) = ca_Backfill a \<and>
    sc_tick (Scheduler_New agg (ca_Tick a)) = ca_Tick a \<and>
    (\<forall>u. day_of (BucketStart u (ca_Bucket a)) = day_of u \<and>
       BucketStart u (ca_Bucket a) + ca_Bucket a \<le> day_of u + Day) \<and>
    (RunsAPI (cp_Mode (cf_App cfg)) \<longrightarrow> 32 \<le> length (ct_JWTSecret t) \<and> ct_AccessTTL t < ct_RefreshTTL t \<and>
       (\<exists>m. NewManager (ct_JWTSecret t) (ct_Issuer t) (ct_AccessTTL t) = Inr m \<and> 0 < mg_accessTTL m))"
proof -
  have v: "validate e cfg = None" using assms(1) by (rule Load_Inr)
  have agg: "0 < ca_Bucket a" "ca_Bucket a dvd Day" "0 < ca_Tick a" "0 < ca_Backfill a"
    using validate_aggregation [OF v] by (simp_all add: check_aggregation_None a_def)
  have mode: "cp_Mode (cf_App cfg) \<in> {ModeAPI, ModeWorker, ModeAll}"
    using v by (simp add: validate_def split: if_splits)
  have service: "ag_bucket (aggregation_service (ca_Bucket a) (ca_Backfill a)) = ca_Bucket a"
    "ag_backfill (aggregation_service (ca_Bucket a) (ca_Backfill a)) = ca_Backfill a"
    using agg by (simp_all add: aggregation_service_def NewAggregation_def)
  have tick: "sc_tick (Scheduler_New agg (ca_Tick a)) = ca_Tick a"
    using agg by (simp add: Scheduler_New_def)
  have auth: "32 \<le> length (ct_JWTSecret t) \<and> ct_AccessTTL t < ct_RefreshTTL t \<and>
      (\<exists>m. NewManager (ct_JWTSecret t) (ct_Issuer t) (ct_AccessTTL t) = Inr m \<and> 0 < mg_accessTTL m)"
    if "RunsAPI (cp_Mode (cf_App cfg))"
  proof -
    have "check_auth t = None" using validate_api [OF v that] by (simp add: t_def)
    then have "32 \<le> length (ct_JWTSecret t)" "0 < ct_AccessTTL t" "ct_AccessTTL t < ct_RefreshTTL t"
      by (simp_all add: check_auth_None)
    then show ?thesis by (auto simp: NewManager_def)
  qed
  show ?thesis using mode service tick day_window [OF agg(1,2)] auth by blast
qed

section \<open>Reaching the database\<close>









text \<open>An environment with a database, a secret of 32 bytes and the defaults.\<close>

definition ex_environment :: environment where
  "ex_environment = \<lparr>en_Getenv = (\<lambda>k. if k = ''DATABASE_URL'' then ''db''
       else if k = ''JWT_SECRET'' then replicate 32 (CHR ''s'') else ''''),
     en_lower = map ascii_lower, en_prefix_ok = (\<lambda>_. True), en_addr_ok = (\<lambda>_. True), en_uri_ok = (\<lambda>_. True)\<rparr>"

theorem config_accepted_witness:
  "\<exists>cfg m. Load ex_environment = Inr cfg \<and> ag_bucket (aggregation_service (ca_Bucket (cf_Aggregation cfg))
       (ca_Backfill (cf_Aggregation cfg))) = 4 * Hour \<and>
     NewManager (ct_JWTSecret (cf_Auth cfg)) (ct_Issuer (cf_Auth cfg)) (ct_AccessTTL (cf_Auth cfg)) = Inr m"
proof -
  have "(case Load ex_environment of Inl _ \<Rightarrow> False
      | Inr cfg \<Rightarrow> ca_Bucket (cf_Aggregation cfg) = 4 * Hour \<and> RunsAPI (cp_Mode (cf_App cfg)))" by code_simp
  then obtain cfg where cfg: "Load ex_environment = Inr cfg" "ca_Bucket (cf_Aggregation cfg) = 4 * Hour"
    "RunsAPI (cp_Mode (cf_App cfg))" by (auto split: sum.splits)
  from config_accepted [OF cfg(1)] cfg show ?thesis by auto
qed

section \<open>The main program\<close>

text \<open>Once it serves, the program makes the steps of \<open>app_step\<close>, and it goes through all of its moments.\<close>

lemma app_serve_steps:
  "app_serve oc d worker moments w = Some (res, w') \<Longrightarrow> (app_step oc d worker)\<^sup>*\<^sup>* w w'"
proof (induction moments arbitrary: w)
  case (Cons m rest)
  show ?case
  proof (cases m)
    case (Request r signals)
    obtain c w1 where 1: "serve (world_process oc) (oc_binding oc) signals d r w = (c, w1)" by fastforce
    have "(app_step oc d worker)\<^sup>*\<^sup>* w1 w'" using Cons 1 Request by simp
    then show ?thesis using app_step.request [OF 1] by (rule converse_rtranclp_into_rtranclp [rotated])
  next
    case Pass
    show ?thesis
    proof (cases worker)
      case None
      with Cons Pass show ?thesis by simp
    next
      case (Some s)
      then obtain w1 where 1: "runOnce s w = Some w1" and rest: "app_serve oc d worker rest w1 = Some (res, w')"
        using Cons.prems Pass by (auto split: option.splits)
      from Cons.IH [OF rest] show ?thesis
        using app_step.pass [OF Some 1] by (rule converse_rtranclp_into_rtranclp [rotated])
    qed
  qed (use Cons in auto)
qed simp

lemma app_serve_returns:
  assumes "BuildDeps oc cfg version w0 = (Inr (d, worker), w1)"
  shows "app_serve oc d worker moments w \<noteq> None"
proof (induction moments arbitrary: w)
  case (Cons m rest)
  have "runOnce s w \<noteq> None" if "worker = Some s" for s
  proof -
    have "sc_aggregator s w \<noteq> None"
      using BuildDeps_worker [of oc cfg version w0 d s w1] assms that world_aggregation.RunPending_returns
      by (auto simp: Scheduler_New_def)
    from runOnce_total [of s w] this show ?thesis by auto
  qed
  with Cons show ?case by (cases m) (auto split: option.split)
qed simp

lemma main_program:
  obtains res w' where "app_run oc e parse_level dv version moments w = Some (res, w')"
    and "res = Serving \<Longrightarrow> \<exists>cfg v d worker v1. Load e = Inr cfg \<and>
      BuildDeps oc cfg version v = (Inr (d, worker), v1) \<and> (app_step oc d worker)\<^sup>*\<^sup>* v1 w'"
proof -
  have "\<exists>res w'. app_run oc e parse_level dv version moments w = Some (res, w') \<and>
    (res = Serving \<longrightarrow> (\<exists>cfg v d worker v1. Load e = Inr cfg \<and>
      BuildDeps oc cfg version v = (Inr (d, worker), v1) \<and> (app_step oc d worker)\<^sup>*\<^sup>* v1 w'))"
    unfolding app_run_def
    by (auto split: sum.split prod.split option.split outcome.split)
      (use app_serve_returns in blast, use app_serve_steps in blast)

  then show thesis using that by blast
qed

end
