(* ===== verification/Seed.thy ===== *)
theory Seed
  imports Startup
begin

text \<open>
  \<open>cmd/seed/main.go\<close>: two demonstration accounts, random events for them, and the windows of
  those days aggregated. \<open>intn n\<close> is \<open>rand.IntN(n)\<close>; what is logged is left out.
\<close>

type_synonym random = "int \<Rightarrow> world \<Rightarrow> int \<times> world"

definition batchSize :: int where "batchSize = 100"
definition seedBcryptCost :: int where "seedBcryptCost = 10"
definition defaultDays :: int where "defaultDays = 7"
definition defaultEvents :: int where "defaultEvents = 600"
definition viewerEventsDivisor :: int where "viewerEventsDivisor = 3"
definition minUploadKB :: int where "minUploadKB = 50"
definition maxUploadKB :: int where "maxUploadKB = 4000"

definition eventTypes :: "(string \<times> int) list" where
  "eventTypes = [(''page.view'', 50), (''button.click'', 20), (''form.submit'', 10), (''search.query'', 8),
     (''file.upload'', 5), (''settings.change'', 4), (''session.start'', 3)]"

definition hourWeight :: "int list" where
  "hourWeight = [1, 1, 1, 1, 1, 2, 4, 8, 14, 18, 20, 18, 12, 16, 20, 19, 16, 12, 9, 7, 6, 5, 3, 2]"

datatype seed_error =
    SeedStart startup_error
  | SeedRole string
  | SeedFailed go_error
  | SeedWindowFailed time

record account =
  ac_email :: string
  ac_password :: string
  ac_role :: Role

section \<open>The environment of the seed\<close>

definition seed_env :: "environment \<Rightarrow> string \<Rightarrow> string \<Rightarrow> string" where
  "seed_env e key def = (let v = TrimSpace (en_Getenv e key) in if v \<noteq> '''' then v else def)"

definition seed_envDuration :: "environment \<Rightarrow> string \<Rightarrow> duration \<Rightarrow> duration" where
  "seed_envDuration e key def =
     (case ParseDuration (TrimSpace (en_Getenv e key)) of
        None \<Rightarrow> def
      | Some v \<Rightarrow> (if v \<le> 0 then def else v))"

definition seed_envInt :: "environment \<Rightarrow> string \<Rightarrow> int \<Rightarrow> int" where
  "seed_envInt e key def =
     (case Atoi (TrimSpace (en_Getenv e key)) of
        None \<Rightarrow> def
      | Some v \<Rightarrow> (if v \<le> 0 then def else v))"

section \<open>Accounts\<close>

definition demoUser :: "postgres \<Rightarrow> world library \<Rightarrow> account \<Rightarrow> (world, User) op" where
  "demoUser pg lib spec w =
     (case UserRepository_ByEmail pg (ac_email spec) w of
        (Inr existing, w1) \<Rightarrow> (Inr existing, w1)
      | (Inl err, w1) \<Rightarrow>
          (if \<not> errors_Is err Repo_ErrNotFound then (Inl err, w1)
           else
             (case HashPassword lib (ac_password spec) seedBcryptCost w1 of
                (Inl err, w2) \<Rightarrow> (Inl err, w2)
              | (Inr hash, w2) \<Rightarrow>
                  UserRepository_Create pg
                    \<lparr>user_ID = 0, user_Email = ac_email spec, user_PasswordHash = Some hash,
                     user_Role = ac_role spec, user_GoogleSub = None, user_Name = None,
                     user_EmailVerified = True, user_CreatedAt = 0, user_UpdatedAt = 0\<rparr> w2)))"

section \<open>Random events\<close>

fun pick_type :: "(string \<times> int) list \<Rightarrow> int \<Rightarrow> string" where
  "pick_type [] n = fst (hd eventTypes)"
| "pick_type ((name, weight) # rest) n = (if n < weight then name else pick_type rest (n - weight))"

definition pickType :: "random \<Rightarrow> world \<Rightarrow> string \<times> world" where
  "pickType intn w =
     (case intn (sum_list (map snd eventTypes)) w of (n, w1) \<Rightarrow> (pick_type eventTypes n, w1))"

text \<open>The hour \<open>h\<close> the weights from \<open>h\<close> on give to \<open>n\<close>; 0 when they are used up.\<close>

fun pick_hour :: "int \<Rightarrow> int list \<Rightarrow> int \<Rightarrow> int" where
  "pick_hour h [] n = 0"
| "pick_hour h (weight # rest) n = (if n < weight then h else pick_hour (h + 1) rest (n - weight))"

definition pickMoment :: "random \<Rightarrow> time \<Rightarrow> int \<Rightarrow> world \<Rightarrow> time \<times> world" where
  "pickMoment intn now days w =
     (case intn (sum_list hourWeight) w of
        (n, w1) \<Rightarrow>
          (case intn days w1 of
             (back, w2) \<Rightarrow>
               (case intn 60 w2 of
                  (minutes, w3) \<Rightarrow>
                    (case intn 60 w3 of
                       (seconds, w4) \<Rightarrow>
                         (let midnight = Truncate (Add now (- (back * Day))) Day;
                              moment = Add midnight
                                (pick_hour 0 hourWeight n * Hour + minutes * Minute + seconds * Second)
                          in if After moment now
                             then (case intn (Hour div Second) w4 of
                                     (ago, w5) \<Rightarrow> (Add now (- (ago * Second)), w5))
                             else (moment, w4))))))"

text \<open>\<open>fmt.Sprintf\<close> puts the chosen text between quotes with \<open>%q\<close>.\<close>

definition payload_text :: "string \<Rightarrow> string \<Rightarrow> string" where
  "payload_text key val = ''{'' @ [CHR 0x22] @ key @ [CHR 0x22] @ '':'' @ val @ ''}''"

definition quoted :: "string \<Rightarrow> string" where
  "quoted s = [CHR 0x22] @ s @ [CHR 0x22]"

definition payloadFor :: "random \<Rightarrow> string \<Rightarrow> world \<Rightarrow> string \<times> world" where
  "payloadFor intn eventType w =
     (if eventType = ''page.view'' then
        (let pages = [''/'', ''/events'', ''/stats'', ''/settings'']
         in case intn (int (length pages)) w of
              (i, w1) \<Rightarrow> (payload_text ''path'' (quoted (pages ! nat i)), w1))
      else if eventType = ''search.query'' then
        (let terms = [''activity'', ''report'', ''export'', ''api'']
         in case intn (int (length terms)) w of
              (i, w1) \<Rightarrow> (payload_text ''term'' (quoted (terms ! nat i)), w1))
      else if eventType = ''file.upload'' then
        (case intn (maxUploadKB - minUploadKB) w of
           (n, w1) \<Rightarrow> (payload_text ''size_kb'' (FormatInt (minUploadKB + n)), w1))
      else (''{}'', w))"

section \<open>Filling and aggregating\<close>

definition time_Unix_of :: "time \<Rightarrow> int" where
  "time_Unix_of t = (t - unix_epoch) div Second"

text \<open>The inner loop of \<open>fill\<close>: the next \<open>size\<close> events of a batch, from index \<open>i\<close>.\<close>

fun seed_batch :: "random \<Rightarrow> int \<Rightarrow> time \<Rightarrow> int \<Rightarrow> int \<Rightarrow> nat \<Rightarrow> world \<Rightarrow> Event list \<times> world" where
  "seed_batch intn userID now days i 0 w = ([], w)"
| "seed_batch intn userID now days i (Suc n) w =
     (case pickType intn w of
        (eventType, w1) \<Rightarrow>
          (case payloadFor intn eventType w1 of
             (payload, w2) \<Rightarrow>
               (case pickMoment intn now days w2 of
                  (moment, w3) \<Rightarrow>
                    (case seed_batch intn userID now days (i + 1) n w3 of
                       (rest, w4) \<Rightarrow>
                         (\<lparr>ev_ID = 0, ev_UserID = userID, ev_Type = eventType, ev_Payload = payload,
                           ev_OccurredAt = moment, ev_CreatedAt = 0,
                           ev_IdempotencyKey =
                             Some (''seed-'' @ FormatInt (time_Unix_of now) @ ''-'' @ FormatInt i)\<rparr> # rest,
                          w4)))))"

function fill_loop ::
    "postgres \<Rightarrow> random \<Rightarrow> int \<Rightarrow> time \<Rightarrow> int \<Rightarrow> int \<Rightarrow> int \<Rightarrow> int \<Rightarrow> world \<Rightarrow> (int \<times> go_error option) \<times> world" where
  "fill_loop pg intn userID now days amount sent created w =
     (if \<not> sent < amount then ((created, None), w)
      else
        (case seed_batch intn userID now days sent (nat (min batchSize (amount - sent))) w of
           (batch, w1) \<Rightarrow>
             (case EventRepository_CreateBatch pg batch w1 of
                (Inl err, w2) \<Rightarrow> ((created, Some err), w2)
              | (Inr (stored, duplicates), w2) \<Rightarrow>
                  fill_loop pg intn userID now days amount (sent + batchSize)
                    (created + int (length stored)) w2)))"
  by pat_completeness auto

termination
  by (relation "measure (\<lambda>(pg, intn, userID, now, days, amount, sent, created, w). nat (amount - sent))")
    (auto simp: batchSize_def)

declare fill_loop.simps [simp del]

definition fill :: "postgres \<Rightarrow> random \<Rightarrow> int \<Rightarrow> int \<Rightarrow> int \<Rightarrow> world \<Rightarrow> (int \<times> go_error option) \<times> world" where
  "fill pg intn userID days amount w =
     (case world_now w of (now, w1) \<Rightarrow> fill_loop pg intn userID (UTC now) days amount 0 0 w1)"

fun seed_windows :: "world Aggregation \<Rightarrow> time list \<Rightarrow> int \<Rightarrow> world \<Rightarrow> (int \<times> seed_error option) \<times> world" where
  "seed_windows s [] amount w = ((amount, None), w)"
| "seed_windows s (start # rest) amount w =
     (case RunBucket s start TriggerManual w of
        (Inl err, w1) \<Rightarrow> ((amount, Some (SeedFailed err)), w1)
      | (Inr run, w1) \<Rightarrow>
          (if run_Status run = RunFailed then ((amount, Some (SeedWindowFailed (run_BucketStart run))), w1)
           else seed_windows s rest (amount + 1) w1))"

definition seed_aggregate :: "environment \<Rightarrow> int \<Rightarrow> world \<Rightarrow> ((int \<times> seed_error option) \<times> world) option" where
  "seed_aggregate e days w =
     (let bucket = seed_envDuration e ''AGGREGATION_BUCKET'' BucketDuration;
          s = NewAggregation world_now
                \<lparr>ad_Repo = aggregation_repository, ad_Metrics = None, ad_Now = None,
                 ad_Bucket = bucket, ad_Backfill = 0\<rparr>
      in case world_now w of
           (now, w1) \<Rightarrow>
             (let from = BucketStart (Add (UTC now) (- (days * Day))) bucket;
                  newestClosed = Add (BucketStart (UTC now) bucket) (- bucket)
              in case BucketsBetween from newestClosed bucket of
                   None \<Rightarrow> None
                 | Some starts \<Rightarrow> Some (seed_windows s starts 0 w1)))"


section \<open>The run\<close>

text \<open>The two \<open>fill\<close>s, for the administrator and for the plain account; the first error ends them.\<close>

fun seed_fills :: "postgres \<Rightarrow> random \<Rightarrow> int \<Rightarrow> (User \<times> int) list \<Rightarrow> world \<Rightarrow> go_error option \<times> world" where
  "seed_fills pg intn days [] w = (None, w)"
| "seed_fills pg intn days ((user, amount) # rest) w =
     (case fill pg intn (user_ID user) days amount w of
        ((created, Some err), w1) \<Rightarrow> (Some err, w1)
      | ((created, None), w1) \<Rightarrow> seed_fills pg intn days rest w1)"

text \<open>Go's \<open>/\<close> rounds towards zero; the count is positive.\<close>

definition seed_data ::
    "postgres \<Rightarrow> world library \<Rightarrow> random \<Rightarrow> environment \<Rightarrow> world \<Rightarrow> (seed_error option \<times> world) option" where
  "seed_data pg lib intn e w =
     (let role = seed_env e ''SEED_ROLE'' RoleAdmin
      in if \<not> Role_Valid role then Some (Some (SeedRole role), w)
         else
           (case demoUser pg lib
                  \<lparr>ac_email = seed_env e ''SEED_EMAIL'' ''demo@example.com'',
                   ac_password = seed_env e ''SEED_PASSWORD'' ''demo-password-123'', ac_role = role\<rparr> w of
              (Inl err, w1) \<Rightarrow> Some (Some (SeedFailed err), w1)
            | (Inr admin, w1) \<Rightarrow>
                (case demoUser pg lib
                       \<lparr>ac_email = seed_env e ''SEED_VIEWER_EMAIL'' ''viewer@example.com'',
                        ac_password = seed_env e ''SEED_VIEWER_PASSWORD'' ''viewer-password-123'',
                        ac_role = RoleUser\<rparr> w1 of
                   (Inl err, w2) \<Rightarrow> Some (Some (SeedFailed err), w2)
                 | (Inr viewer, w2) \<Rightarrow>
                     (let days = seed_envInt e ''SEED_DAYS'' defaultDays;
                          amount = seed_envInt e ''SEED_EVENTS'' defaultEvents
                      in case seed_fills pg intn days
                                [(admin, amount), (viewer, amount div viewerEventsDivisor)] w2 of
                           (Some err, w3) \<Rightarrow> Some (Some (SeedFailed err), w3)
                         | (None, w3) \<Rightarrow>
                             (case seed_aggregate e days w3 of
                                None \<Rightarrow> None
                              | Some ((buckets, err), w4) \<Rightarrow> Some (err, w4))))))"

definition seed_run ::
    "outside_code \<Rightarrow> environment \<Rightarrow> (string \<Rightarrow> string option) \<Rightarrow> world driver \<Rightarrow> world library \<Rightarrow> random \<Rightarrow>
     world \<Rightarrow> (seed_error option \<times> world) option" where
  "seed_run oc e parse_level dv lib intn w =
     (case LoadMigrations e of
        Inl err \<Rightarrow> Some (Some (SeedStart (ConfigError err)), w)
      | Inr cfg \<Rightarrow>
          (case logger_New parse_level (cl_Level (mi_Log cfg)) (cl_Format (mi_Log cfg)) of
             Inl err \<Rightarrow> Some (Some (SeedStart err), w)
           | Inr log \<Rightarrow>
               (case Connect dv (mi_DB cfg) w of
                  (Inl err, w1) \<Rightarrow> Some (Some (SeedStart err), w1)
                | (Inr pool, w1) \<Rightarrow>
                    (case seed_data (oc_postgres oc) lib intn e w1 of
                       None \<Rightarrow> None
                     | Some (err, w2) \<Rightarrow> Some (err, dv_close dv w2)))))"

section \<open>What is generated\<close>

text \<open>\<open>rand.IntN(n)\<close> is a number below \<open>n\<close>.\<close>

definition fair :: "random \<Rightarrow> bool" where
  "fair intn \<longleftrightarrow> (\<forall>n w. 0 < n \<longrightarrow> 0 \<le> fst (intn n w) \<and> fst (intn n w) < n)"

lemma fairD: "fair intn \<Longrightarrow> intn n w = (k, w') \<Longrightarrow> 0 < n \<Longrightarrow> 0 \<le> k \<and> k < n"
  unfolding fair_def by (metis fst_conv)

text \<open>Only types of the list are picked, and every one of them fits the column.\<close>

lemma pickType_known:
  assumes "pickType intn w = (t, w')"
  shows "t \<in> fst ` set eventTypes" and "1 \<le> length t" and "length t \<le> MaxEventTypeLen"
proof -
  have pick: "pick_type ts n \<in> fst ` set eventTypes" if "set ts \<subseteq> set eventTypes" for ts n
    using that by (induction ts n rule: pick_type.induct) (auto simp: eventTypes_def image_iff)
  then show "t \<in> fst ` set eventTypes" using assms by (auto simp: pickType_def split: prod.splits)
  then show "1 \<le> length t" "length t \<le> MaxEventTypeLen" by (auto simp: eventTypes_def MaxEventTypeLen_def)
qed

lemma pick_hour_range: "0 \<le> h \<Longrightarrow> h + int (length ws) \<le> 24 \<Longrightarrow> 0 \<le> pick_hour h ws n \<and> pick_hour h ws n < 24"
  by (induction h ws n rule: pick_hour.induct) auto

text \<open>A moment is never after the time of the run and not before the day \<open>days - 1\<close> days ago.\<close>

lemma pickMoment_range:
  assumes "fair intn" and "pickMoment intn now days w = (t, w')" and "0 < days"
  shows "t \<le> now" and "now - days * Day < t"
proof -
  have unit: "0 < Second" "Minute = 60 * Second" "Hour = 60 * Minute" "Day = 24 * Hour"
    by (simp_all add: Day_def Hour_def Minute_def Second_def)
  obtain n w1 where n: "intn (sum_list hourWeight) w = (n, w1)" by fastforce
  obtain b w2 where b: "intn days w1 = (b, w2)" by fastforce
  obtain m w3 where m: "intn 60 w2 = (m, w3)" by fastforce
  obtain s w4 where s: "intn 60 w3 = (s, w4)" by fastforce
  obtain a w5 where a: "intn (Hour div Second) w4 = (a, w5)" by fastforce
  define midnight where "midnight = Truncate (Add now (- (b * Day))) Day"
  define h where "h = pick_hour 0 hourWeight n"
  have h: "0 \<le> h" "h < 24" using pick_hour_range [of 0 hourWeight n] by (simp_all add: h_def hourWeight_def)
  have ranges: "0 \<le> b" "b < days" "0 \<le> m" "m < 60" "0 \<le> s" "s < 60"
    using fairD [OF assms(1) b assms(3)] fairD [OF assms(1) m] fairD [OF assms(1) s] by simp_all
  have ago: "0 \<le> a" "a < 3600" using fairD [OF assms(1) a] by (simp_all add: Hour_def Minute_def Second_def)
  have t: "t = (if now < midnight + (h * Hour + m * Minute + s * Second) then now - a * Second
      else midnight + (h * Hour + m * Minute + s * Second))"
    using assms(2) n b m s a
    by (simp add: pickMoment_def Let_def midnight_def h_def After_def Add_def split: if_splits)
  have short: "0 \<le> a * Second" "a * Second < Day"
    using ago by (simp_all add: Day_def Hour_def Minute_def Second_def)
  have "Day \<le> days * Day" using assms(3) unit mult_right_mono [of 1 days Day] by simp
  with short(2) have "a * Second < days * Day" by (rule less_le_trans)
  moreover have "0 \<le> h * Hour + m * Minute + s * Second"
    using h(1) ranges(3,5) unit by simp
  moreover have "now - b * Day < midnight + Day"
    unfolding midnight_def Add_def using Truncate_gt [of Day "now + - (b * Day)"] unit by simp
  moreover have "b * Day + Day \<le> days * Day"
    using mult_right_mono [of "b + 1" days Day] ranges(2) unit by (simp add: algebra_simps)
  ultimately show "t \<le> now" and "now - days * Day < t" unfolding t using short(1) by auto

qed

end
