(* ===== verification/Spec2Isabelle.thy ===== *)
theory Spec2Isabelle
  imports EventProps BrokerProps AggProps AuthProps GoogleProps GoogleClientProps ApiAccess ApiReplies
    StartupProps Seed
begin

text \<open>HEADER\<close>

end
